(* ===== verification/Prelude.thy ===== *)
theory Prelude
  imports Main "HOL-Library.Monad_Syntax" "HOL-Library.Multiset" "HOL-Library.Word"
begin

text \<open>
  What every component shares: Go's \<open>error\<close> values, the text functions of the standard library
  that the sources use (\<^verbatim>\<open>strings.Split\<close>, \<^verbatim>\<open>strconv.Itoa\<close>, \<^verbatim>\<open>strconv.Atoi\<close>), sorting
  under Go's contract, and generic lemmas on lists and association lists.

  Conventions of the whole development:
  \<^item> a Go function that returns \<open>(T, error)\<close> and whose \<open>T\<close> is meaningless on error has the
    result type \<open>error + 'a\<close>; one that returns both has \<open>'a \<times> error option\<close>, and one that
    returns only an \<open>error\<close> has \<open>error option\<close> (\<open>None\<close> is \<open>nil\<close>);
  \<^item> state is passed explicitly. A function that always returns has the type
    \<open>'s \<Rightarrow> 'a \<times> 's\<close>; one that may panic (nil dereference, index out of range) or poll
    without end has the type \<open>'s \<Rightarrow> ('a \<times> 's) option\<close>, where \<open>None\<close> is "does not return".
\<close>

named_theorems go_ops \<open>unfolding rules of the program's operations\<close>
named_theorems frame \<open>what an operation leaves unchanged\<close>

section \<open>Errors\<close>

text \<open>
  \<open>Errorf\<close> is \<^verbatim>\<open>fmt.Errorf\<close> (or \<^verbatim>\<open>errors.New\<close>) with the formatted text, \<open>Wrap\<close> is a message
  around another error, \<open>ErrNotExist\<close> an error for which \<^verbatim>\<open>os.IsNotExist\<close> holds, and \<open>Ext\<close> any
  other error made outside the program.
\<close>

datatype error = Errorf string | Wrap string error | ErrNotExist | Ext string

type_synonym 'a res = "error + 'a"

text \<open>\<^verbatim>\<open>errors.Wrap\<close> of \<^verbatim>\<open>pkg/errors\<close>: documented to return \<^verbatim>\<open>nil\<close> for a \<^verbatim>\<open>nil\<close> error.\<close>

definition errors_Wrap :: "error option \<Rightarrow> string \<Rightarrow> error option" where
  "errors_Wrap err msg = map_option (Wrap msg) err"

section \<open>Text\<close>

fun split_on :: "char \<Rightarrow> string \<Rightarrow> string list" where
  "split_on c [] = [[]]"
| "split_on c (x # xs) =
     (if x = c then [] # split_on c xs
      else (case split_on c xs of [] \<Rightarrow> [[x]] | w # ws \<Rightarrow> (x # w) # ws))"

fun join_with :: "char \<Rightarrow> string list \<Rightarrow> string" where
  "join_with c [] = []"
| "join_with c [w] = w"
| "join_with c (w # v # ws) = w @ c # join_with c (v # ws)"

definition digit_char :: "nat \<Rightarrow> char" where
  "digit_char n = char_of (48 + n)"

definition digit_val :: "char \<Rightarrow> nat option" where
  "digit_val c = (let n = of_char c :: nat in if 48 \<le> n \<and> n \<le> 57 then Some (n - 48) else None)"

text \<open>Decimal text of a natural number, as \<^verbatim>\<open>%d\<close> prints it.\<close>

fun nat_str :: "nat \<Rightarrow> string" where
  "nat_str n = (if n < 10 then [digit_char n] else nat_str (n div 10) @ [digit_char (n mod 10)])"

declare nat_str.simps [simp del]

definition int_str :: "int \<Rightarrow> string" where
  "int_str i = (if i < 0 then CHR ''-'' # nat_str (nat (- i)) else nat_str (nat i))"

text \<open>\<open>dec_acc acc s\<close>: the number whose digits are those of \<open>acc\<close> and then \<open>s\<close>; \<open>None\<close> on a
  character that is no digit.\<close>

fun dec_acc :: "nat \<Rightarrow> string \<Rightarrow> nat option" where
  "dec_acc acc [] = Some acc"
| "dec_acc acc (c # cs) =
     (case digit_val c of None \<Rightarrow> None | Some d \<Rightarrow> dec_acc (10 * acc + d) cs)"

definition parse_dec :: "string \<Rightarrow> nat option" where
  "parse_dec s = (if s = [] then None else dec_acc 0 s)"

text \<open>\<^verbatim>\<open>strconv.Atoi\<close> on a 64-bit platform: an optional sign, digits, and the range of \<open>int\<close>.\<close>

definition strconv_Atoi :: "string \<Rightarrow> int res" where
  "strconv_Atoi s =
     (let (neg, ds) = (case s of [] \<Rightarrow> (False, [])
                       | c # cs \<Rightarrow> if c = CHR ''-'' then (True, cs)
                                   else if c = CHR ''+'' then (False, cs) else (False, s))
      in case parse_dec ds of
           None \<Rightarrow> Inl (Errorf (''strconv.Atoi: parsing '' @ s @ '': invalid syntax''))
         | Some n \<Rightarrow>
             (let i = (if neg then - int n else int n)
              in if - (2 ^ 63) \<le> i \<and> i < 2 ^ 63 then Inr i
                 else Inl (Errorf (''strconv.Atoi: parsing '' @ s @ '': value out of range''))))"

lemma split_on_not_Nil [simp]: "split_on c s \<noteq> []"
  by (induction s) (auto split: list.splits)

lemma split_on_single: "c \<notin> set a \<Longrightarrow> split_on c a = [a]"
  by (induction a) auto

lemma split_on_append: "c \<notin> set a \<Longrightarrow> split_on c (a @ c # b) = a # split_on c b"
  by (induction a) auto

lemma split_on_join:
  "ws \<noteq> [] \<Longrightarrow> \<forall>w \<in> set ws. c \<notin> set w \<Longrightarrow> split_on c (join_with c ws) = ws"
  by (induction c ws rule: join_with.induct) (auto simp: split_on_append split_on_single)

lemma digit_val_digit_char [simp]: "n < 10 \<Longrightarrow> digit_val (digit_char n) = Some n"
  by (simp add: digit_val_def digit_char_def Let_def)

lemma digit_val_lt_10: "digit_val c = Some d \<Longrightarrow> d < 10"
  by (auto simp: digit_val_def Let_def split: if_splits)

lemma dec_acc_append:
  "dec_acc acc (xs @ ys) = Option.bind (dec_acc acc xs) (\<lambda>a. dec_acc a ys)"
  by (induction acc xs rule: dec_acc.induct) (auto split: option.splits)

lemma nat_str_not_Nil [simp]: "nat_str n \<noteq> []"
  by (subst nat_str.simps) simp

lemma dec_acc_nat_str: "dec_acc 0 (nat_str n) = Some n"
proof (induction n rule: nat_str.induct)
  case (1 n)
  show ?case
  proof (cases "n < 10")
    case True
    then show ?thesis by (simp add: nat_str.simps [of n])
  next
    case False
    with 1 show ?thesis by (simp add: nat_str.simps [of n] dec_acc_append)
  qed
qed

lemma parse_dec_nat_str [simp]: "parse_dec (nat_str n) = Some n"
  by (simp add: parse_dec_def dec_acc_nat_str)

lemma nat_str_digits: "c \<in> set (nat_str n) \<Longrightarrow> \<exists>d<10. c = digit_char d"
proof (induction n rule: nat_str.induct)
  case (1 n)
  then show ?case
    by (cases "n < 10") (auto simp: nat_str.simps [of n] intro: exI [of _ "n mod 10"])
qed

lemma digit_char_neq:
  "d < 10 \<Longrightarrow> digit_char d \<noteq> CHR ''.''" "d < 10 \<Longrightarrow> digit_char d \<noteq> CHR '':''"
  "d < 10 \<Longrightarrow> digit_char d \<noteq> CHR ''/''"  "d < 10 \<Longrightarrow> digit_char d \<noteq> CHR ''-''"
  "d < 10 \<Longrightarrow> digit_char d \<noteq> CHR ''+''"
  by (auto simp: digit_char_def dest!: arg_cong [where f = "of_char :: char \<Rightarrow> nat"])

lemma nat_str_no_sep [simp]:
  "CHR ''.'' \<notin> set (nat_str n)" "CHR '':'' \<notin> set (nat_str n)" "CHR ''/'' \<notin> set (nat_str n)"
  by (auto dest!: nat_str_digits simp: digit_char_neq dest: sym)

lemma nat_str_hd: "n \<noteq> 0 \<Longrightarrow> hd (nat_str n) \<noteq> digit_char 0"
proof (induction n rule: nat_str.induct)
  case (1 n)
  show ?case
  proof (cases "n < 10")
    case True
    with 1 show ?thesis
      by (auto simp: nat_str.simps [of n] digit_char_def dest!: arg_cong [where f = "of_char :: char \<Rightarrow> nat"])
  next
    case False
    with 1 show ?thesis by (simp add: nat_str.simps [of n])
  qed
qed

section \<open>Integers\<close>

text \<open>Arithmetic of \<^verbatim>\<open>int64\<close> and of \<^verbatim>\<open>int\<close> on a 64-bit platform wraps around.\<close>

definition wrap64 :: "int \<Rightarrow> int" where
  "wrap64 i = (i + 2 ^ 63) mod 2 ^ 64 - 2 ^ 63"

lemma wrap64_id: "- (2 ^ 63) \<le> i \<Longrightarrow> i < 2 ^ 63 \<Longrightarrow> wrap64 i = i"
  by (simp add: wrap64_def)

lemma wrap64_range: "- (2 ^ 63) \<le> wrap64 i \<and> wrap64 i < 2 ^ 63"
  using pos_mod_bound [of "2 ^ 64" "i + 2 ^ 63"] by (simp add: wrap64_def)

section \<open>Lists and association lists\<close>

text \<open>A Go map is an association list with distinct keys; \<open>map_put\<close> and \<open>map_del\<close> are the
  assignment \<open>m[k] = v\<close> and \<open>delete(m, k)\<close>, \<open>map_of\<close> the lookup.\<close>

fun map_put :: "'k \<Rightarrow> 'v \<Rightarrow> ('k \<times> 'v) list \<Rightarrow> ('k \<times> 'v) list" where
  "map_put k v [] = [(k, v)]"
| "map_put k v ((a, b) # m) = (if a = k then (a, v) # m else (a, b) # map_put k v m)"

definition map_del :: "'k \<Rightarrow> ('k \<times> 'v) list \<Rightarrow> ('k \<times> 'v) list" where
  "map_del k m = filter (\<lambda>(a, b). a \<noteq> k) m"

lemma map_of_put [simp]: "map_of (map_put k v m) = (map_of m)(k \<mapsto> v)"
  by (induction k v m rule: map_put.induct) auto

lemma map_of_del [simp]: "map_of (map_del k m) = (map_of m)(k := None)"
  by (induction m) (auto simp: map_del_def)

lemma keys_put: "set (map fst (map_put k v m)) = insert k (set (map fst m))"
  by (induction k v m rule: map_put.induct) auto

lemma distinct_put: "distinct (map fst m) \<Longrightarrow> distinct (map fst (map_put k v m))"
proof (induction k v m rule: map_put.induct)
  case (2 k v a b m)
  then show ?case using keys_put [of k v m] by auto
qed simp

lemma distinct_del: "distinct (map fst m) \<Longrightarrow> distinct (map fst (map_del k m))"
  by (simp add: map_del_def distinct_map_filter)

lemma set_put: "p \<in> set (map_put k v m) \<Longrightarrow> p = (k, v) \<or> p \<in> set m"
  by (induction k v m rule: map_put.induct) (auto split: if_splits)

lemma set_del: "p \<in> set (map_del k m) \<Longrightarrow> p \<in> set m"
  by (auto simp: map_del_def)

text \<open>A branch that returned: which alternative it was. The collection \<open>run\<close> takes the runs of
  operations apart.\<close>

named_theorems run \<open>how an operation returned\<close>

lemma case_sum_Some [run]:
  "(case r of Inl x \<Rightarrow> f x | Inr y \<Rightarrow> g y) = Some z \<longleftrightarrow>
     (\<exists>x. r = Inl x \<and> f x = Some z) \<or> (\<exists>y. r = Inr y \<and> g y = Some z)"
  by (cases r) auto

lemma case_sum_Inr [run]:
  "(case r of Inl x \<Rightarrow> f x | Inr y \<Rightarrow> g y) = Inr z \<longleftrightarrow>
     (\<exists>x. r = Inl x \<and> f x = Inr z) \<or> (\<exists>y. r = Inr y \<and> g y = Inr z)"
  by (cases r) auto

lemma case_option_Some [run]:
  "(case r of None \<Rightarrow> f | Some y \<Rightarrow> g y) = Some z \<longleftrightarrow> (r = None \<and> f = Some z) \<or> (\<exists>y. r = Some y \<and> g y = Some z)"
  by (cases r) auto

lemma case_list_Some [run]:
  "(case r of [] \<Rightarrow> f | y # ys \<Rightarrow> g y ys) = Some z \<longleftrightarrow>
     (r = [] \<and> f = Some z) \<or> (\<exists>y ys. r = y # ys \<and> g y ys = Some z)"
  by (cases r) auto

lemma if_Some [run]: "(if b then x else y) = Some z \<longleftrightarrow> (b \<and> x = Some z) \<or> (\<not> b \<and> y = Some z)"
  by simp

lemma case_prod_Some [run]: "(case p of (x, y) \<Rightarrow> f x y) = Some z \<longleftrightarrow> (\<exists>x y. p = (x, y) \<and> f x y = Some z)"
  by (cases p) simp

lemma case_prod_app_Some [run]:
  "(case p of (x, y) \<Rightarrow> f x y) v = Some z \<longleftrightarrow> (\<exists>x y. p = (x, y) \<and> f x y v = Some z)"
  by (cases p) simp

lemmas bind_Some [run] = bind_eq_Some_conv

text \<open>The same for operations that always return a pair.\<close>

named_theorems runp \<open>how an operation that always returns came to its result\<close>

lemma case_sum_Pair [runp]:
  "(case r of Inl x \<Rightarrow> f x | Inr y \<Rightarrow> g y) = (a, b) \<longleftrightarrow>
     (\<exists>x. r = Inl x \<and> f x = (a, b)) \<or> (\<exists>y. r = Inr y \<and> g y = (a, b))"
  by (cases r) auto

lemma case_option_Pair [runp]:
  "(case r of None \<Rightarrow> f | Some y \<Rightarrow> g y) = (a, b) \<longleftrightarrow> (r = None \<and> f = (a, b)) \<or> (\<exists>y. r = Some y \<and> g y = (a, b))"
  by (cases r) auto

lemma case_list_Pair [runp]:
  "(case r of [] \<Rightarrow> f | y # ys \<Rightarrow> g y ys) = (a, b) \<longleftrightarrow> (r = [] \<and> f = (a, b)) \<or> (\<exists>y ys. r = y # ys \<and> g y ys = (a, b))"
  by (cases r) auto

lemma if_Pair [runp]: "(if c then x else y) = (a, b) \<longleftrightarrow> (c \<and> x = (a, b)) \<or> (\<not> c \<and> y = (a, b))"
  by simp

lemma case_prod_Pair [runp]: "(case p of (x, y) \<Rightarrow> f x y) = (a, b) \<longleftrightarrow> (\<exists>x y. p = (x, y) \<and> f x y = (a, b))"
  by (cases p) simp

section \<open>Sorting\<close>

text \<open>
  \<^verbatim>\<open>sort.Sort\<close> promises a permutation in which no element is \<open>Less\<close> than an earlier one; it
  does not promise stability. The implementation is a parameter wherever the program sorts, and
  this locale is what the program may rely on.
\<close>

definition no_descent :: "('a \<Rightarrow> 'a \<Rightarrow> bool) \<Rightarrow> 'a list \<Rightarrow> bool" where
  "no_descent lt xs = sorted_wrt (\<lambda>a b. \<not> lt b a) xs"

locale go_sort =
  fixes lt :: "'a \<Rightarrow> 'a \<Rightarrow> bool"
    and sort_Sort :: "'a list \<Rightarrow> 'a list"
  assumes sort_perm: "mset (sort_Sort xs) = mset xs"
    and sort_sorted: "no_descent lt (sort_Sort xs)"
begin

lemma sort_set: "set (sort_Sort xs) = set xs"
  using sort_perm [of xs] by (metis set_mset_mset)

lemma sort_length: "length (sort_Sort xs) = length xs"
  using sort_perm [of xs] by (metis size_mset)

lemma sort_Nil_iff: "sort_Sort xs = [] \<longleftrightarrow> xs = []"
  using sort_length [of xs] by auto

lemma sort_first_min: "sort_Sort xs = y # ys \<Longrightarrow> x \<in> set xs \<Longrightarrow> x = y \<or> \<not> lt x y"
  using sort_sorted [of xs] sort_set [of xs] by (auto simp: no_descent_def)

end

text \<open>The insertion sort that \<^verbatim>\<open>sort.Sort\<close> runs on slices of at most twelve elements: each
  element moves left past the elements it is \<open>Less\<close> than.\<close>

fun insert_left :: "('a \<Rightarrow> 'a \<Rightarrow> bool) \<Rightarrow> 'a \<Rightarrow> 'a list \<Rightarrow> 'a list" where
  "insert_left lt x [] = [x]"
| "insert_left lt x (y # ys) = (if lt x y then y # insert_left lt x ys else x # y # ys)"

definition insertion_sort :: "('a \<Rightarrow> 'a \<Rightarrow> bool) \<Rightarrow> 'a list \<Rightarrow> 'a list" where
  "insertion_sort lt xs = rev (fold (insert_left lt) xs [])"

lemma mset_insert_left: "mset (insert_left lt x ys) = add_mset x (mset ys)"
  by (induction ys) auto

lemma mset_fold_insert_left: "mset (fold (insert_left lt) xs ys) = mset xs + mset ys"
  by (induction xs arbitrary: ys) (auto simp: mset_insert_left)

lemma set_insert_left: "set (insert_left lt x ys) = insert x (set ys)"
  by (simp add: mset_insert_left flip: set_mset_mset)

lemma insert_left_sorted:
  assumes ntrans: "\<And>a b c. \<not> lt a b \<Longrightarrow> \<not> lt b c \<Longrightarrow> \<not> lt a c"
    and asym: "\<And>a b. lt a b \<Longrightarrow> \<not> lt b a"
  shows "sorted_wrt (\<lambda>a b. \<not> lt a b) ys \<Longrightarrow> sorted_wrt (\<lambda>a b. \<not> lt a b) (insert_left lt x ys)"
proof (induction ys)
  case Nil
  then show ?case by simp
next
  case (Cons y ys)
  show ?case
  proof (cases "lt x y")
    case True
    with Cons asym show ?thesis by (simp add: set_insert_left)
  next
    case False
    with Cons.prems ntrans [OF False] show ?thesis by simp
  qed
qed

lemma insertion_sort_contract:
  assumes "\<And>a b c. \<not> lt a b \<Longrightarrow> \<not> lt b c \<Longrightarrow> \<not> lt a c" and "\<And>a b. lt a b \<Longrightarrow> \<not> lt b a"
  shows "go_sort lt (insertion_sort lt)"
proof
  fix xs
  show "mset (insertion_sort lt xs) = mset xs"
    by (simp add: insertion_sort_def mset_fold_insert_left)
  have "sorted_wrt (\<lambda>a b. \<not> lt a b) ys \<Longrightarrow> sorted_wrt (\<lambda>a b. \<not> lt a b) (fold (insert_left lt) xs ys)" for ys
    by (induction xs arbitrary: ys) (simp_all add: insert_left_sorted [OF assms])
  from this [of "[]"] show "no_descent lt (insertion_sort lt xs)"
    by (simp add: no_descent_def insertion_sort_def sorted_wrt_rev)
qed

end
