(* ===== verification/GoNet.thy ===== *)
theory GoNet
  imports Prelude
begin

text \<open>
  What the sources use of Go's \<^verbatim>\<open>net\<close> package: addresses (\<^verbatim>\<open>net.IP\<close>), networks
  (\<^verbatim>\<open>net.IPNet\<close>), \<^verbatim>\<open>IP.String\<close>, \<^verbatim>\<open>net.ParseIP\<close> and \<^verbatim>\<open>net.ParseCIDR\<close>.

  A \<^verbatim>\<open>net.IP\<close> is a byte slice of length 4 or 16, and \<^verbatim>\<open>IP.Equal\<close>, \<^verbatim>\<open>IP.String\<close> and
  \<^verbatim>\<open>IP.To4\<close> do not distinguish an IPv4 address from its IPv4-in-IPv6 form. The model therefore
  has one value \<open>V4 a b c d\<close> for both, so that \<^verbatim>\<open>IP.Equal\<close> is equality. The program manages IPv4
  addresses only; the text form of IPv6 addresses is a parameter (\<open>show6\<close>, \<open>parse6\<close>), and nothing
  is assumed of it.
\<close>

type_synonym byte = "8 word"

datatype ip = V4 byte byte byte byte | V6 "128 word"

record txt6 =
  show6 :: "128 word \<Rightarrow> string"
  parse6 :: "string \<Rightarrow> ip option"

section \<open>Text of addresses\<close>

definition byte_str :: "byte \<Rightarrow> string" where
  "byte_str b = nat_str (unat b)"

definition ip_String :: "txt6 \<Rightarrow> ip \<Rightarrow> string" where
  "ip_String t x =
     (case x of
        V4 a b c d \<Rightarrow> join_with (CHR ''.'') [byte_str a, byte_str b, byte_str c, byte_str d]
      | V6 w \<Rightarrow> show6 t w)"

text \<open>One decimal octet: at most 255, and no leading zero in front of another digit.\<close>

definition parse_octet :: "string \<Rightarrow> byte option" where
  "parse_octet s =
     (if 1 < length s \<and> hd s = CHR ''0'' then None
      else (case parse_dec s of
              None \<Rightarrow> None
            | Some n \<Rightarrow> if n \<le> 255 then Some (of_nat n) else None))"

definition parseIPv4 :: "string \<Rightarrow> ip option" where
  "parseIPv4 s =
     (case map parse_octet (split_on (CHR ''.'') s) of
        [Some a, Some b, Some c, Some d] \<Rightarrow> Some (V4 a b c d)
      | _ \<Rightarrow> None)"

text \<open>\<^verbatim>\<open>net.ParseIP\<close>: the first \<open>.\<close> or \<open>:\<close> of the text decides the family.\<close>

fun ParseIP_from :: "txt6 \<Rightarrow> string \<Rightarrow> string \<Rightarrow> ip option" where
  "ParseIP_from t s [] = None"
| "ParseIP_from t s (c # cs) =
     (if c = CHR ''.'' then parseIPv4 s
      else if c = CHR '':'' then parse6 t s
      else ParseIP_from t s cs)"

definition ParseIP :: "txt6 \<Rightarrow> string \<Rightarrow> ip option" where
  "ParseIP t s = ParseIP_from t s s"

section \<open>Networks\<close>

text \<open>A network: an address with the host bits cleared, and the length of the prefix mask.\<close>

record ipnet =
  net_ip :: ip
  net_prefix :: nat

definition ip4_val :: "byte \<Rightarrow> byte \<Rightarrow> byte \<Rightarrow> byte \<Rightarrow> int" where
  "ip4_val a b c d = 2 ^ 24 * uint a + 2 ^ 16 * uint b + 2 ^ 8 * uint c + uint d"

definition ip4_of_val :: "int \<Rightarrow> ip" where
  "ip4_of_val n =
     V4 (word_of_int (n div 2 ^ 24)) (word_of_int (n div 2 ^ 16)) (word_of_int (n div 2 ^ 8)) (word_of_int n)"

text \<open>\<^verbatim>\<open>IP.Mask\<close> with a prefix mask: the host bits become zero.\<close>

definition mask_ip :: "ip \<Rightarrow> nat \<Rightarrow> ip" where
  "mask_ip x p =
     (case x of
        V4 a b c d \<Rightarrow> ip4_of_val (ip4_val a b c d div 2 ^ (32 - p) * 2 ^ (32 - p))
      | V6 w \<Rightarrow> V6 (word_of_int (uint w div 2 ^ (128 - p) * 2 ^ (128 - p))))"

definition ip_bits :: "ip \<Rightarrow> nat" where
  "ip_bits x = (case x of V4 _ _ _ _ \<Rightarrow> 32 | V6 _ \<Rightarrow> 128)"

text \<open>\<^verbatim>\<open>net.ParseCIDR\<close>: the text before the first slash is an IPv4 or else an IPv6 address, the
  text after it a decimal prefix length.\<close>

definition cidr_error :: "string \<Rightarrow> error" where
  "cidr_error s = Errorf (''invalid CIDR address: '' @ s)"

definition ParseCIDR :: "txt6 \<Rightarrow> string \<Rightarrow> (ip \<times> ipnet) res" where
  "ParseCIDR t s =
     (let addr = takeWhile (\<lambda>c. c \<noteq> CHR ''/'') s;
          rest = dropWhile (\<lambda>c. c \<noteq> CHR ''/'') s
      in if rest = [] then Inl (cidr_error s)
         else (case (case parseIPv4 addr of Some x \<Rightarrow> Some x | None \<Rightarrow> parse6 t addr) of
                 None \<Rightarrow> Inl (cidr_error s)
               | Some x \<Rightarrow>
                   (case parse_dec (tl rest) of
                      None \<Rightarrow> Inl (cidr_error s)
                    | Some n \<Rightarrow>
                        if ip_bits x < n then Inl (cidr_error s)
                        else Inr (x, \<lparr>net_ip = mask_ip x n, net_prefix = n\<rparr>))))"

definition ipnet_String :: "txt6 \<Rightarrow> ipnet \<Rightarrow> string" where
  "ipnet_String t n = ip_String t (net_ip n) @ CHR ''/'' # nat_str (net_prefix n)"

definition ip_in_net :: "ip \<Rightarrow> ipnet \<Rightarrow> bool" where
  "ip_in_net x n = (mask_ip x (net_prefix n) = net_ip n)"

section \<open>Round trip of IPv4 text\<close>

lemma unat_byte_le: "unat (b :: byte) \<le> 255"
proof -
  have "unat b < 2 ^ LENGTH(8)" by (rule unsigned_less)
  then show ?thesis by simp
qed

lemma digit_char_0: "digit_char 0 = CHR ''0''"
  by code_simp

lemma parse_octet_byte_str [simp]: "parse_octet (byte_str b) = Some b"
proof (cases "unat b = 0")
  case True
  then show ?thesis
    by (simp add: parse_octet_def byte_str_def nat_str.simps [of 0] parse_dec_def unat_eq_zero)
next
  case False
  then have "hd (nat_str (unat b)) \<noteq> CHR ''0''"
    using nat_str_hd [OF False] by (simp add: digit_char_0)
  then show ?thesis by (simp add: parse_octet_def byte_str_def unat_byte_le)
qed

lemma byte_str_no_sep [simp]: "CHR ''.'' \<notin> set (byte_str b)" "CHR '':'' \<notin> set (byte_str b)"
    "CHR ''/'' \<notin> set (byte_str b)"
  by (simp_all add: byte_str_def)

lemma parseIPv4_String [simp]: "parseIPv4 (ip_String t (V4 a b c d)) = Some (V4 a b c d)"
  unfolding parseIPv4_def ip_String_def ip.case
  by (subst split_on_join) simp_all

lemma ParseIP_from_dot:
  "CHR ''.'' \<notin> set a \<Longrightarrow> CHR '':'' \<notin> set a \<Longrightarrow> ParseIP_from t s (a @ CHR ''.'' # b) = parseIPv4 s"
  by (induction a) auto

lemma ParseIP_String [simp]: "ParseIP t (ip_String t (V4 a b c d)) = Some (V4 a b c d)"
proof -
  let ?s = "ip_String t (V4 a b c d)"
  have "?s = byte_str a @ CHR ''.'' # join_with (CHR ''.'') [byte_str b, byte_str c, byte_str d]"
    by (simp add: ip_String_def)
  then have "ParseIP_from t ?s ?s = parseIPv4 ?s"
    by (metis ParseIP_from_dot byte_str_no_sep(1,2))
  then show ?thesis by (simp add: ParseIP_def)
qed

lemma ip_String_inject_V4:
  "ip_String t (V4 a b c d) = ip_String t (V4 a' b' c' d') \<longleftrightarrow> V4 a b c d = V4 a' b' c' d'"
  by (metis ParseIP_String option.inject)

end
