(* ===== verification/AwsTypes.thy ===== *)
theory AwsTypes
  imports GoNet
begin

text \<open>
  The data the \<^verbatim>\<open>aws\<close> package passes around (\<^verbatim>\<open>aws/metadata.go\<close>, \<^verbatim>\<open>aws/subnets.go\<close>,
  \<^verbatim>\<open>aws/limits.go\<close>, \<^verbatim>\<open>aws/allocate.go\<close>) and the parts of the AWS SDK's requests and responses
  that the code reads or writes. A pointer that the API always fills is a plain value; one that may be
  absent where the code dereferences it (the attachment of a network interface, the CIDR of an
  interface whose metadata is empty) is an \<open>option\<close>.
\<close>

section \<open>The program's own records\<close>

record Interface =
  ifID :: string
  ifMac :: string
  ifIfName :: string
  ifNumber :: int
  ifIPv4s :: "ip list"
  ifSubnetID :: string
  ifSubnetCidr :: "ipnet option"
  ifVpcID :: string
  ifVpcPrimaryCidr :: "ipnet option"
  ifVpcCidrs :: "ipnet list"
  ifSecurityGroupIds :: "string list"

definition LocalName :: "Interface \<Rightarrow> string" where
  "LocalName i = ifIfName i"

text \<open>\<^verbatim>\<open>Interfaces.Less\<close>: by device number.\<close>

definition Interfaces_Less :: "Interface \<Rightarrow> Interface \<Rightarrow> bool" where
  "Interfaces_Less a b = (ifNumber a < ifNumber b)"

record Subnet =
  snID :: string
  snCidr :: string
  snIsDefault :: bool
  snAvailableAddressCount :: int
  snName :: string
  snTags :: "(string \<times> string) list"

text \<open>\<^verbatim>\<open>SubnetsByAvailableAddressCount.Less\<close>: most available addresses first.\<close>

definition Subnets_Less :: "Subnet \<Rightarrow> Subnet \<Rightarrow> bool" where
  "Subnets_Less a b = (snAvailableAddressCount a > snAvailableAddressCount b)"

record ENILimit =
  limAdapters :: int
  limIPv4 :: int
  limIPv6 :: int

definition defaultLimit :: ENILimit where
  "defaultLimit = \<lparr>limAdapters = 4, limIPv4 = 15, limIPv6 = 15\<rparr>"

text \<open>\<^verbatim>\<open>AllocationResult\<close>: an address and the interface it is on.\<close>

record AllocationResult =
  arIP :: ip
  arInterface :: Interface

section \<open>The AWS SDK\<close>

record IDDoc =
  idInstanceID :: string
  idAvailabilityZone :: string
  idRegion :: string
  idInstanceType :: string

record NetworkInterface =
  niNetworkInterfaceId :: string
  niMacAddress :: string
  niPrivateIpAddresses :: "string list"
  niAttachmentId :: "string option"
  niStatus :: string

record CreateNetworkInterfaceInput =
  crDescription :: string
  crGroups :: "string list"
  crSubnetId :: string
  crSecondaryPrivateIpAddressCount :: "int option"

record ec2_Filter =
  flName :: string
  flValues :: "string list"

record ec2_Subnet =
  esSubnetId :: string
  esCidrBlock :: string
  esDefaultForAz :: bool
  esAvailableIpAddressCount :: int
  esTags :: "(string \<times> string) list"

record NetworkInfo =
  nfMaximumNetworkInterfaces :: int
  nfIpv4AddressesPerInterface :: int
  nfIpv6AddressesPerInterface :: int

text \<open>A VPC's CIDR associations: state and block. A peering: the two sides' VPC ids and blocks.\<close>

record ec2_Vpc =
  vpCidrBlockAssociationSet :: "(string \<times> string) list"

record VpcPeeringConnection =
  prAccepterVpcId :: string
  prAccepterCidrs :: "string list"
  prRequesterVpcId :: string
  prRequesterCidrs :: "string list"

section \<open>netlink\<close>

record link =
  lkName :: string
  lkIndex :: int
  lkMTU :: int
  lkMac :: string

record addr =
  adIP :: ip
  adPrefix :: nat
  adLabel :: string

text \<open>Routes and rules as netlink has them. A route without destination is a default route.\<close>

record nl_route =
  nrLinkIndex :: int
  nrScope :: nat
  nrDst :: "ipnet option"
  nrGw :: "ip option"
  nrTable :: int

record nl_rule =
  nuIifName :: string
  nuTable :: int
  nuPriority :: int
  nuMark :: int

section \<open>The orders the program sorts by\<close>

interpretation isort_ifaces: go_sort Interfaces_Less "insertion_sort Interfaces_Less"
  by (rule insertion_sort_contract) (simp_all add: Interfaces_Less_def)

interpretation isort_subnets: go_sort Subnets_Less "insertion_sort Subnets_Less"
  by (rule insertion_sort_contract) (simp_all add: Subnets_Less_def)

end
