(* ===== verification/JsonTime.thy ===== *)
theory JsonTime
  imports Prelude
begin

text \<open>
  \<^verbatim>\<open>lib/jsontime.go\<close>: times as RFC 3339 strings in JSON, with the parts of Go's
  \<^verbatim>\<open>time\<close> and \<^verbatim>\<open>encoding/json\<close> packages it uses. A time is an instant, in nanoseconds since
  the zero \<^verbatim>\<open>time.Time\<close> (1 January of year 1, UTC), and the offset of its location in seconds.
  The calendar follows Go's own 400/100/4/1-year cycles. The main result is that a marshalled time
  reads back as the same instant cut to whole seconds: the format has no fraction.
\<close>

section \<open>Times and the calendar\<close>

record gotime =
  t_ns :: int
  t_off :: int

definition zero_time :: gotime where
  "zero_time = \<lparr>t_ns = 0, t_off = 0\<rparr>"

definition ns_per_s :: int where
  "ns_per_s = 1000000000"

text \<open>\<^verbatim>\<open>Time.Before\<close> and \<^verbatim>\<open>Time.Add\<close> compare and move instants.\<close>

definition time_Before :: "gotime \<Rightarrow> gotime \<Rightarrow> bool" where
  "time_Before t u = (t_ns t < t_ns u)"

definition time_Add :: "gotime \<Rightarrow> int \<Rightarrow> gotime" where
  "time_Add t d = t\<lparr>t_ns := t_ns t + d\<rparr>"

definition leap_year :: "int \<Rightarrow> bool" where
  "leap_year y = (y mod 4 = 0 \<and> (y mod 100 \<noteq> 0 \<or> y mod 400 = 0))"

definition month_lengths :: "bool \<Rightarrow> nat list" where
  "month_lengths leap = [31, if leap then 29 else 28, 31, 30, 31, 30, 31, 31, 30, 31, 30, 31]"

text \<open>Month (from \<open>m\<close>) and day of a day of the year, counted from 0.\<close>

fun month_day :: "nat \<Rightarrow> nat list \<Rightarrow> nat \<Rightarrow> nat \<times> nat" where
  "month_day m [] d = (m, Suc d)"
| "month_day m (l # ls) d = (if d < l then (m, Suc d) else month_day (Suc m) ls (d - l))"

text \<open>Year and day of the year, from the days since 1 January of year 1.\<close>

definition year_yday :: "int \<Rightarrow> int \<times> int" where
  "year_yday days =
     (let n400 = days div 146097; r = days mod 146097;
          n100 = min 3 (r div 36524); r1 = r - 36524 * n100;
          n4 = r1 div 1461; r2 = r1 - 1461 * n4;
          n1 = min 3 (r2 div 365)
      in (400 * n400 + 100 * n100 + 4 * n4 + n1 + 1, r2 - 365 * n1))"

definition days_before_year :: "int \<Rightarrow> int" where
  "days_before_year y = (let z = y - 1 in 365 * z + z div 4 - z div 100 + z div 400)"

definition days_of_date :: "int \<Rightarrow> nat \<Rightarrow> nat \<Rightarrow> int" where
  "days_of_date y m d =
     days_before_year y + int (sum_list (take (m - 1) (month_lengths (leap_year y)))) + int d - 1"

section \<open>RFC 3339\<close>

definition pad2 :: "nat \<Rightarrow> string" where
  "pad2 n = [digit_char (n div 10), digit_char (n mod 10)]"

definition pad4 :: "nat \<Rightarrow> string" where
  "pad4 n = (if n < 10000 then pad2 (n div 100) @ pad2 (n mod 100) else nat_str n)"

definition year_str :: "int \<Rightarrow> string" where
  "year_str y = (if y < 0 then CHR ''-'' # pad4 (nat (- y)) else pad4 (nat y))"

definition zone_str :: "int \<Rightarrow> string" where
  "zone_str off =
     (if off = 0 then ''Z''
      else (let z = nat \<bar>off\<bar> div 60
            in (if off < 0 \<and> z \<noteq> 0 then CHR ''-'' else CHR ''+'') # pad2 (z div 60) @ CHR '':'' # pad2 (z mod 60)))"

text \<open>\<^verbatim>\<open>Time.Format(time.RFC3339)\<close>.\<close>

definition format_RFC3339 :: "gotime \<Rightarrow> string" where
  "format_RFC3339 t =
     (let secs = t_ns t div ns_per_s + t_off t;
          (y, yd) = year_yday (secs div 86400);
          (m, d) = month_day 1 (month_lengths (leap_year y)) (nat yd);
          sod = nat (secs mod 86400)
      in year_str y @ CHR ''-'' # pad2 m @ CHR ''-'' # pad2 d @ CHR ''T'' #
         pad2 (sod div 3600) @ CHR '':'' # pad2 (sod div 60 mod 60) @ CHR '':'' # pad2 (sod mod 60) @
         zone_str (t_off t))"

definition getnum2 :: "string \<Rightarrow> (nat \<times> string) option" where
  "getnum2 s =
     (case s of
        a # b # r \<Rightarrow> (case (digit_val a, digit_val b) of (Some x, Some y) \<Rightarrow> Some (10 * x + y, r) | _ \<Rightarrow> None)
      | _ \<Rightarrow> None)"

text \<open>The hour may have one digit.\<close>

definition getnum :: "string \<Rightarrow> (nat \<times> string) option" where
  "getnum s =
     (case getnum2 s of
        Some r \<Rightarrow> Some r
      | None \<Rightarrow> (case s of [] \<Rightarrow> None | a # r \<Rightarrow> map_option (\<lambda>x. (x, r)) (digit_val a)))"

definition getnum4 :: "string \<Rightarrow> (nat \<times> string) option" where
  "getnum4 s = do { (a, s) \<leftarrow> getnum2 s; (b, s) \<leftarrow> getnum2 s; Some (100 * a + b, s) }"

definition expect_char :: "char \<Rightarrow> string \<Rightarrow> string option" where
  "expect_char c s = (case s of [] \<Rightarrow> None | x # r \<Rightarrow> if x = c then Some r else None)"

definition is_digit :: "char \<Rightarrow> bool" where
  "is_digit c = (digit_val c \<noteq> None)"

text \<open>An optional fraction after the seconds, in nanoseconds (nine digits count).\<close>

definition get_fraction :: "string \<Rightarrow> nat \<times> string" where
  "get_fraction s =
     (case s of
        c # d # r \<Rightarrow>
          if (c = CHR ''.'' \<or> c = CHR '','') \<and> is_digit d
          then (case dec_acc 0 (take 9 (takeWhile is_digit (d # r) @ replicate 9 (CHR ''0''))) of
                  Some n \<Rightarrow> (n, dropWhile is_digit (d # r)) | None \<Rightarrow> (0, s))
          else (0, s)
      | _ \<Rightarrow> (0, s))"

definition get_zone :: "string \<Rightarrow> (int \<times> string) option" where
  "get_zone s =
     (case s of
        [] \<Rightarrow> None
      | c # r \<Rightarrow>
          if c = CHR ''Z'' then Some (0, r)
          else if c = CHR ''+'' \<or> c = CHR ''-'' then
            do { (h, r) \<leftarrow> getnum2 r; r \<leftarrow> expect_char (CHR '':'') r; (m, r) \<leftarrow> getnum2 r;
                 Some ((if c = CHR ''-'' then -1 else 1) * (int h * 60 + int m) * 60, r) }
          else None)"

text \<open>\<^verbatim>\<open>time.Parse(time.RFC3339, s)\<close>.\<close>

definition parse_RFC3339 :: "string \<Rightarrow> gotime option" where
  "parse_RFC3339 s = do {
     (y, s) \<leftarrow> getnum4 s; s \<leftarrow> expect_char (CHR ''-'') s;
     (m, s) \<leftarrow> getnum2 s; s \<leftarrow> expect_char (CHR ''-'') s;
     (d, s) \<leftarrow> getnum2 s; s \<leftarrow> expect_char (CHR ''T'') s;
     (hh, s) \<leftarrow> getnum s; s \<leftarrow> expect_char (CHR '':'') s;
     (mm, s) \<leftarrow> getnum2 s; s \<leftarrow> expect_char (CHR '':'') s;
     (ss, s) \<leftarrow> getnum2 s;
     let (ns, s) = get_fraction s;
     (off, s) \<leftarrow> get_zone s;
     if s = [] \<and> 1 \<le> m \<and> m \<le> 12 \<and> hh < 24 \<and> mm < 60 \<and> ss < 60 \<and>
        1 \<le> d \<and> d \<le> month_lengths (leap_year (int y)) ! (m - 1)
     then Some \<lparr>t_ns = (days_of_date (int y) m d * 86400 + int (hh * 3600 + mm * 60 + ss) - off) * ns_per_s
                          + int ns,
                t_off = off\<rparr>
     else None }"

section \<open>JSON values and JSONTime\<close>

text \<open>A JSON document after parsing. \<open>JFrac\<close> is a number that is not written as an integer.\<close>

datatype json =
    JNull | JBool bool | JNum int | JFrac | JStr string | JArr "json list" | JObj "(string \<times> json) list"

definition MarshalJSON :: "gotime \<Rightarrow> json" where
  "MarshalJSON t = JStr (format_RFC3339 t)"

text \<open>\<^verbatim>\<open>json.Unmarshal\<close> into a string leaves the string empty for \<^verbatim>\<open>null\<close>.\<close>

definition unmarshal_string :: "json \<Rightarrow> string res" where
  "unmarshal_string js =
     (case js of
        JStr s \<Rightarrow> Inr s
      | JNull \<Rightarrow> Inr []
      | _ \<Rightarrow> Inl (Errorf ''json: cannot unmarshal into Go value of type string''))"

definition UnmarshalJSON :: "json \<Rightarrow> gotime res" where
  "UnmarshalJSON js =
     (case unmarshal_string js of
        Inl err \<Rightarrow> Inl err
      | Inr rawString \<Rightarrow>
          (case parse_RFC3339 rawString of
             None \<Rightarrow> Inl (Errorf (''parsing time '' @ rawString))
           | Some t \<Rightarrow> Inr t))"

definition trunc_s :: "gotime \<Rightarrow> gotime" where
  "trunc_s t = t\<lparr>t_ns := t_ns t div ns_per_s * ns_per_s\<rparr>"

text \<open>The times the format can carry: a zone of whole minutes within a day, and a local time in
  the years 1 to 9999.\<close>

definition representable :: "gotime \<Rightarrow> bool" where
  "representable t =
     (t_off t mod 60 = 0 \<and> \<bar>t_off t\<bar> < 86400 \<and>
      0 \<le> t_ns t div ns_per_s + t_off t \<and> t_ns t div ns_per_s + t_off t < days_before_year 10000 * 86400)"

section \<open>The calendar is consistent\<close>

lemma div_split_yr:
  assumes "0 \<le> b" "b \<le> 3" "0 \<le> c" "c \<le> 24" "0 \<le> e" "e \<le> (3::int)"
  shows "(400 * a + 100 * b + 4 * c + e) div 4 = 100 * a + 25 * b + c"
    and "(400 * a + 100 * b + 4 * c + e) div 100 = 4 * a + b"
    and "(400 * a + 100 * b + 4 * c + e) div 400 = a"
proof -
  show "(400 * a + 100 * b + 4 * c + e) div 4 = 100 * a + 25 * b + c"
    by (rule int_div_pos_eq [where r = e]) (use assms in simp_all)
  show "(400 * a + 100 * b + 4 * c + e) div 100 = 4 * a + b"
    by (rule int_div_pos_eq [where r = "4 * c + e"]) (use assms in simp_all)
  show "(400 * a + 100 * b + 4 * c + e) div 400 = a"
    by (rule int_div_pos_eq [where r = "100 * b + 4 * c + e"]) (use assms in simp_all)
qed

lemma year_yday_correct:
  assumes "year_yday days = (y, yd)"
  shows "days_before_year y + yd = days" and "0 \<le> yd" and "yd < (if leap_year y then 366 else 365)"
proof -
  define n400 where "n400 = days div 146097"
  define r where "r = days mod 146097"
  define n100 where "n100 = min 3 (r div 36524)"
  define r1 where "r1 = r - 36524 * n100"
  define n4 where "n4 = r1 div 1461"
  define r2 where "r2 = r1 - 1461 * n4"
  define n1 where "n1 = min 3 (r2 div 365)"
  have y: "y = 400 * n400 + 100 * n100 + 4 * n4 + n1 + 1" and yd: "yd = r2 - 365 * n1"
    using assms unfolding year_yday_def Let_def n400_def [symmetric] r_def [symmetric]
      n100_def [symmetric] r1_def [symmetric] n4_def [symmetric] r2_def [symmetric] n1_def [symmetric]
    by simp_all
  have d: "days = 146097 * n400 + r" and r: "0 \<le> r" "r < 146097"
    by (simp_all add: n400_def r_def)
  have b: "0 \<le> n100" "n100 \<le> 3" and r1: "0 \<le> r1" "r1 \<le> 36524" "n100 < 3 \<Longrightarrow> r1 < 36524"
    using r by (auto simp: n100_def r1_def min_def)
  have c: "0 \<le> n4" "n4 \<le> 24" and r2: "0 \<le> r2" "r2 < 1461"
    using r1 by (auto simp: n4_def r2_def)
  have e: "0 \<le> n1" "n1 \<le> 3" and yb: "0 \<le> yd" "yd \<le> 365" "n1 < 3 \<Longrightarrow> yd < 365"
    using r2 by (auto simp: n1_def yd min_def)
  show "days_before_year y + yd = days"
    using d y yd div_split_yr [OF b c e, of n400] by (simp add: days_before_year_def Let_def r1_def r2_def)
  show "0 \<le> yd" by (rule yb)
  have "leap_year y" if "yd = 365"
  proof -
    have n1: "n1 = 3" using yb(3) e that by fastforce
    then have r2': "r2 = 1460" using yd that by simp
    have "n4 = 24 \<Longrightarrow> n100 = 3" using r1(3) b r2' by (cases "n100 < 3") (auto simp: r2_def)
    then consider "n4 = 24" "n100 = 3" | "n4 < 24" using c by fastforce
    then show ?thesis
    proof cases
      case 1
      then have "y = 400 * (n400 + 1)" using y n1 by simp
      then show ?thesis by (simp add: leap_year_def)
    next
      case 2
      have "y = 4 * (100 * n400 + 25 * n100 + n4 + 1)" using y n1 by simp
      moreover have "y mod 100 = 4 * n4 + 4"
        by (rule int_mod_pos_eq [where q = "4 * n400 + n100"]) (use y n1 c 2 in simp_all)
      ultimately show ?thesis using c by (simp add: leap_year_def)
    qed
  qed
  then show "yd < (if leap_year y then 366 else 365)" using yb by force
qed

lemma days_before_year_mono: "y \<le> y' \<Longrightarrow> days_before_year y \<le> days_before_year y'"
proof -
  assume le: "y \<le> y'"
  let ?z = "y - 1" and ?z' = "y' - 1"
  have "?z div 4 \<le> ?z' div 4" "?z div 400 \<le> ?z' div 400" using le by (simp_all add: zdiv_mono1)
  moreover have "?z' div 100 - ?z div 100 \<le> ?z' - ?z" using le by linarith
  moreover have "365 * z + a - c + b \<le> 365 * z' + a' - c' + b'"
    if "a \<le> a'" "b \<le> b'" "c' - c \<le> z' - z" "z \<le> z'" for a a' b b' c c' z z' :: int
    using that by linarith
  ultimately show ?thesis using le unfolding days_before_year_def Let_def by simp
qed

lemma month_day_correct:
  "month_day m ls d = (m', d') \<Longrightarrow> d < sum_list ls \<Longrightarrow>
     m \<le> m' \<and> m' < m + length ls \<and> 1 \<le> d' \<and> d' \<le> ls ! (m' - m) \<and> sum_list (take (m' - m) ls) + d' = Suc d"
proof (induction m ls d rule: month_day.induct)
  case (2 m l ls d)
  show ?case
  proof (cases "d < l")
    case True
    with 2 show ?thesis by auto
  next
    case False
    with 2 have IH: "Suc m \<le> m' \<and> m' < Suc m + length ls \<and> 1 \<le> d' \<and> d' \<le> ls ! (m' - Suc m) \<and>
        sum_list (take (m' - Suc m) ls) + d' = Suc (d - l)" by auto
    then have "m' - m = Suc (m' - Suc m)" by linarith
    with IH False show ?thesis by (auto simp: nth_Cons')
  qed
qed simp

lemma getnum2_pad2 [simp]: "n < 100 \<Longrightarrow> getnum2 (pad2 n @ r) = Some (n, r)"
  by (simp add: getnum2_def pad2_def)

lemma getnum2_pad2_end [simp]: "n < 100 \<Longrightarrow> getnum2 (pad2 n) = Some (n, [])"
  using getnum2_pad2 [of n "[]"] by simp

lemma getnum_pad2 [simp]: "n < 100 \<Longrightarrow> getnum (pad2 n @ r) = Some (n, r)"
  by (simp add: getnum_def)

lemma getnum4_pad4 [simp]: "n < 10000 \<Longrightarrow> getnum4 (pad4 n @ r) = Some (n, r)"
  by (simp add: getnum4_def pad4_def)

lemma expect_char_hit [simp]: "expect_char c (c # r) = Some r"
  by (simp add: expect_char_def)

lemma get_fraction_none [simp]:
  "c \<noteq> CHR ''.'' \<Longrightarrow> c \<noteq> CHR '','' \<Longrightarrow> get_fraction (c # r) = (0, c # r)"
  by (auto simp: get_fraction_def split: list.splits)

lemma zone_str_no_fraction: "get_fraction (zone_str off) = (0, zone_str off)"
  by (simp add: zone_str_def Let_def)

lemma get_zone_zone_str:
  assumes "off mod 60 = 0" and "\<bar>off\<bar> < 86400"
  shows "get_zone (zone_str off) = Some (off, [])"
proof (cases "off = 0")
  case True
  then show ?thesis by (simp add: zone_str_def get_zone_def)
next
  case False
  obtain k where k: "off = 60 * k" using assms(1) by (auto simp: mod_eq_0_iff_dvd)
  define n where "n = nat \<bar>k\<bar>"
  have n: "nat \<bar>off\<bar> div 60 = n" "n \<noteq> 0" "n div 60 < 100"
    using k assms(2) False by (auto simp: n_def nat_mult_distrib abs_mult)
  have split: "int (n div 60) * 60 + int (n mod 60) = int n"
    by (metis div_mult_mod_eq of_nat_add of_nat_mult of_nat_numeral)
  have "off < 0 \<Longrightarrow> off = - int n * 60" "\<not> off < 0 \<Longrightarrow> off = int n * 60"
    using k by (simp_all add: n_def)
  then have "off < 0 \<Longrightarrow> - (3600 * int (n div 60)) - int (n mod 60) * 60 = off"
    and "\<not> off < 0 \<Longrightarrow> 3600 * int (n div 60) + int (n mod 60) * 60 = off"
    using split by linarith+
  with n(2,3) False show ?thesis
    by (simp add: zone_str_def get_zone_def Let_def n(1))
qed

lemma sod_split: "sod div 3600 * 3600 + sod div 60 mod 60 * 60 + sod mod 60 = (sod :: nat)"
proof -
  have "sod div 3600 = sod div 60 div 60" by (simp add: div_mult2_eq)
  moreover have "sod div 60 div 60 * 60 + sod div 60 mod 60 = sod div 60" by (rule div_mult_mod_eq)
  moreover have "sod div 60 * 60 + sod mod 60 = sod" by (rule div_mult_mod_eq)
  ultimately show ?thesis by linarith
qed

lemma format_parse:
  assumes "representable t"
  shows "parse_RFC3339 (format_RFC3339 t) = Some (trunc_s t)"
proof -
  define secs where "secs = t_ns t div ns_per_s + t_off t"
  obtain y yd where y: "year_yday (secs div 86400) = (y, yd)" by fastforce
  obtain m d where m: "month_day 1 (month_lengths (leap_year y)) (nat yd) = (m, d)" by fastforce
  define sod where "sod = nat (secs mod 86400)"
  have secs: "0 \<le> secs" "secs < days_before_year 10000 * 86400"
    using assms by (auto simp: representable_def secs_def)
  note yc = year_yday_correct [OF y]
  have "secs div 86400 < days_before_year 10000" using secs by (simp add: div_less_iff_less_mult)
  have "\<not> 10000 \<le> y"
    using yc(1,2) days_before_year_mono [of 10000 y] \<open>secs div 86400 < days_before_year 10000\<close> by linarith
  moreover have "\<not> y \<le> 0"
    using yc days_before_year_mono [of y 0] secs(1) by (auto simp: days_before_year_def Let_def pos_imp_zdiv_nonneg_iff split: if_splits)
  ultimately obtain yn where yn: "y = int yn" "yn < 10000" by (metis int_ops(3) not_le of_nat_less_iff zero_le_imp_eq_int linorder_linear of_nat_numeral)
  have "nat yd < sum_list (month_lengths (leap_year y))"
    using yc by (auto simp: month_lengths_def split: if_splits)
  from month_day_correct [OF m this] have md: "1 \<le> m" "m \<le> 12" "1 \<le> d" "d \<le> month_lengths (leap_year y) ! (m - 1)"
    "sum_list (take (m - 1) (month_lengths (leap_year y))) + d = Suc (nat yd)"
    by (auto simp: month_lengths_def)
  then have m100: "m < 100" "d < 100"
    using md by (auto simp: month_lengths_def nth_Cons' split: if_splits)
  have sod: "sod < 86400" "int sod = secs mod 86400" by (auto simp: sod_def)
  then have h: "sod div 3600 < 24" by simp
  have "days_of_date y m d * 86400 + int (sod div 3600 * 3600 + sod div 60 mod 60 * 60 + sod mod 60) = secs"
  proof -
    have "days_of_date y m d = secs div 86400"
      using md(5) yc(1,2) unfolding days_of_date_def by linarith
    then show ?thesis unfolding sod_split sod(2) by simp
  qed
  then have ns: "(days_of_date y m d * 86400 + int (sod div 3600 * 3600 + sod div 60 mod 60 * 60 + sod mod 60) - t_off t)
      * ns_per_s = t_ns t div ns_per_s * ns_per_s"
    by (simp add: secs_def)
  have zone: "get_zone (zone_str (t_off t)) = Some (t_off t, [])"
    using assms by (intro get_zone_zone_str) (auto simp: representable_def)
  have "format_RFC3339 t = pad4 yn @ CHR ''-'' # pad2 m @ CHR ''-'' # pad2 d @ CHR ''T'' #
         pad2 (sod div 3600) @ CHR '':'' # pad2 (sod div 60 mod 60) @ CHR '':'' # pad2 (sod mod 60) @
         zone_str (t_off t)"
    using y m yn by (simp add: format_RFC3339_def secs_def [symmetric] sod_def [symmetric] year_str_def)
  then show ?thesis
    using yn m100 h md ns zone
    by (simp add: parse_RFC3339_def zone_str_no_fraction trunc_s_def)
qed

section \<open>The time codec\<close>

text \<open>What the registry and the cache rely on when they keep a time in a JSON file: a stored time
  reads back in a normal form that is at most one second earlier, and normal forms are stable.\<close>

locale time_codec =
  fixes enc :: "gotime \<Rightarrow> json"
    and dec :: "json \<Rightarrow> gotime res"
    and okt :: "gotime \<Rightarrow> bool"
    and norm :: "gotime \<Rightarrow> gotime"
  assumes dec_enc: "okt t \<Longrightarrow> dec (enc t) = Inr (norm t)"
    and okt_norm: "okt t \<Longrightarrow> okt (norm t)"
    and norm_idem: "norm (norm t) = norm t"
    and norm_le: "t_ns (norm t) \<le> t_ns t"
    and norm_gt: "t_ns t < t_ns (norm t) + ns_per_s"
begin

lemma dec_enc_norm: "okt t \<Longrightarrow> dec (enc (norm t)) = Inr (norm t)"
  by (simp add: dec_enc okt_norm norm_idem)

lemma before_norm: "time_Before t u \<Longrightarrow> time_Before (norm t) u"
  using norm_le [of t] by (simp add: time_Before_def)

lemma before_normD: "time_Before (norm t) u \<Longrightarrow> t_ns t < t_ns u + ns_per_s"
  using norm_gt [of t] by (simp add: time_Before_def)

lemma not_before_norm: "\<not> time_Before (norm t) u \<Longrightarrow> t_ns u \<le> t_ns t"
  using norm_le [of t] by (simp add: time_Before_def)

end

interpretation jt: time_codec MarshalJSON UnmarshalJSON representable trunc_s
proof unfold_locales
  fix t
  show "representable t \<Longrightarrow> UnmarshalJSON (MarshalJSON t) = Inr (trunc_s t)"
    by (simp add: UnmarshalJSON_def MarshalJSON_def unmarshal_string_def format_parse)
  show "representable t \<Longrightarrow> representable (trunc_s t)"
    by (simp add: representable_def trunc_s_def ns_per_s_def)
  show "trunc_s (trunc_s t) = trunc_s t" "t_ns (trunc_s t) \<le> t_ns t"
    by (simp_all add: trunc_s_def ns_per_s_def)
  show "t_ns t < t_ns (trunc_s t) + ns_per_s"
    by (simp add: trunc_s_def ns_per_s_def)
qed

lemma representable_zero [simp]: "representable zero_time"
  by (simp add: representable_def zero_time_def ns_per_s_def days_before_year_def)

lemma trunc_zero [simp]: "trunc_s zero_time = zero_time"
  by (simp add: trunc_s_def zero_time_def)

text \<open>C25: a time that \<^verbatim>\<open>JSONTime.MarshalJSON\<close> writes is read back by
  \<^verbatim>\<open>JSONTime.UnmarshalJSON\<close> without an error, as the same instant cut to whole seconds and with
  the same zone offset, for every time with a local year from 1 to 9999 and a zone of whole minutes.\<close>

theorem jsontime_roundtrip:
  assumes "representable t"
  shows "UnmarshalJSON (MarshalJSON t) = Inr (t\<lparr>t_ns := t_ns t div ns_per_s * ns_per_s\<rparr>)"
  using jt.dec_enc [OF assms] by (simp add: trunc_s_def)

theorem jsontime_roundtrip_witness:
  "representable \<lparr>t_ns = 63618829260123456789, t_off = 3600\<rparr> \<and>
   UnmarshalJSON (MarshalJSON \<lparr>t_ns = 63618829260123456789, t_off = 3600\<rparr>) =
     Inr \<lparr>t_ns = 63618829260000000000, t_off = 3600\<rparr>"
proof -
  have h: "representable \<lparr>t_ns = 63618829260123456789, t_off = 3600\<rparr>"
    by (simp add: representable_def ns_per_s_def days_before_year_def)
  show ?thesis using h jsontime_roundtrip [OF h] by (simp add: ns_per_s_def)
qed

end
