(* ===== verification/Host.thy ===== *)
theory Host
  imports AwsTypes JsonTime
begin

text \<open>
  What the program runs on. Everything outside the repository (the operating system's clock and its
  failures, EC2, the instance metadata service, netlink, Docker) is a parameter: a field of the
  environment record \<open>'w env\<close>, a function that takes the unknown outside world \<open>'w\<close>, answers, and
  leaves a new world. The program's own state is the record \<open>'w st\<close>: the directories and files it
  keeps (JSON documents; \<open>None\<close> is a file whose text is not a JSON document, in particular an empty
  one) and the memory of the shared AWS client.
\<close>

section \<open>The environment\<close>

datatype syscall = Stat string | MkdirAll string | Open string | OpenFile string | WriteFile string | Remove string

record 'w os_api =
  os_uid :: nat
  os_txt6 :: txt6
  os_fault :: "syscall \<Rightarrow> 'w \<Rightarrow> error option \<times> 'w"
  os_Now :: "'w \<Rightarrow> gotime \<times> 'w"
  os_Mono :: "'w \<Rightarrow> int \<times> 'w"
  os_Sleep :: "int \<Rightarrow> 'w \<Rightarrow> 'w"
  os_Int63n :: "int \<Rightarrow> 'w \<Rightarrow> int \<times> 'w"
  os_range :: "string list \<Rightarrow> string list"
  os_ReadDir :: "string \<Rightarrow> 'w \<Rightarrow> string list res \<times> 'w"
  os_Stderr :: "string \<Rightarrow> error \<Rightarrow> 'w \<Rightarrow> error option \<times> 'w"
  os_sort_ifaces :: "Interface list \<Rightarrow> Interface list"
  os_sort_subnets :: "Subnet list \<Rightarrow> Subnet list"

record 'w metadata_api =
  md_Available :: "'w \<Rightarrow> bool \<times> 'w"
  md_GetMetadata :: "string \<Rightarrow> 'w \<Rightarrow> string res \<times> 'w"
  md_GetInstanceIdentityDocument :: "'w \<Rightarrow> IDDoc res \<times> 'w"

record 'w ec2_api =
  ec2_AssignPrivateIpAddresses :: "string \<Rightarrow> int \<Rightarrow> 'w \<Rightarrow> error option \<times> 'w"
  ec2_UnassignPrivateIpAddresses :: "string \<Rightarrow> string list \<Rightarrow> 'w \<Rightarrow> error option \<times> 'w"
  ec2_CreateNetworkInterface :: "CreateNetworkInterfaceInput \<Rightarrow> 'w \<Rightarrow> NetworkInterface res \<times> 'w"
  ec2_AttachNetworkInterface :: "int \<Rightarrow> string \<Rightarrow> string \<Rightarrow> 'w \<Rightarrow> string res \<times> 'w"
  ec2_DeleteNetworkInterface :: "string \<Rightarrow> 'w \<Rightarrow> error option \<times> 'w"
  ec2_ModifyNetworkInterfaceAttribute :: "string \<Rightarrow> string \<Rightarrow> bool \<Rightarrow> 'w \<Rightarrow> error option \<times> 'w"
  ec2_DetachNetworkInterface :: "string \<Rightarrow> 'w \<Rightarrow> error option \<times> 'w"
  ec2_DescribeNetworkInterfaces :: "string list \<Rightarrow> 'w \<Rightarrow> NetworkInterface list res \<times> 'w"
  ec2_DescribeInstanceTypes :: "string list \<Rightarrow> 'w \<Rightarrow> NetworkInfo list res \<times> 'w"
  ec2_DescribeSubnets :: "ec2_Filter list \<Rightarrow> 'w \<Rightarrow> ec2_Subnet list res \<times> 'w"
  ec2_DescribeVpcs :: "string list \<Rightarrow> 'w \<Rightarrow> ec2_Vpc list res \<times> 'w"
  ec2_DescribeVpcPeeringConnections :: "'w \<Rightarrow> VpcPeeringConnection list res \<times> 'w"

text \<open>netlink and Docker. The first argument of the netlink calls that may run inside a network
  namespace is the namespace's path, the empty string for the host's.\<close>

record 'w nl_api =
  nl_WithNetNSPath :: "string \<Rightarrow> 'w \<Rightarrow> error option \<times> 'w"
  nl_NewHandle :: "string \<Rightarrow> 'w \<Rightarrow> error option \<times> 'w"
  nl_LinkList :: "string \<Rightarrow> 'w \<Rightarrow> link list res \<times> 'w"
  nl_AddrList4 :: "string \<Rightarrow> link \<Rightarrow> 'w \<Rightarrow> addr list res \<times> 'w"
  nl_LinkByName :: "string \<Rightarrow> string \<Rightarrow> 'w \<Rightarrow> link res \<times> 'w"
  nl_LinkSetUp :: "link \<Rightarrow> 'w \<Rightarrow> error option \<times> 'w"
  nl_LinkSetDown :: "link \<Rightarrow> 'w \<Rightarrow> error option \<times> 'w"
  nl_LinkDel :: "link \<Rightarrow> 'w \<Rightarrow> error option \<times> 'w"
  nl_LinkSetMTU :: "link \<Rightarrow> int \<Rightarrow> 'w \<Rightarrow> error option \<times> 'w"
  net_Interfaces :: "'w \<Rightarrow> (string \<times> string) list res \<times> 'w"
  dk_NewEnvClient :: "'w \<Rightarrow> error option \<times> 'w"
  dk_ContainerList :: "'w \<Rightarrow> string list res \<times> 'w"
  dk_ContainerInspect :: "string \<Rightarrow> 'w \<Rightarrow> int res \<times> 'w"

text \<open>The lock file library: \<^verbatim>\<open>TryLock\<close> answers \<^verbatim>\<open>nil\<close>, \<^verbatim>\<open>ErrBusy\<close>, \<^verbatim>\<open>ErrNotExist\<close> or
  another error.\<close>

datatype trylock = LockNil | LockBusy | LockNotExist | LockFailed error

record 'w lock_api =
  lk_New :: "'w \<Rightarrow> error option \<times> 'w"
  lk_TryLock :: "'w \<Rightarrow> trylock \<times> 'w"
  lk_Unlock :: "'w \<Rightarrow> error option \<times> 'w"

record 'w env =
  os :: "'w os_api"
  lk :: "'w lock_api"
  md :: "'w metadata_api"
  ec2 :: "'w ec2_api"
  nl :: "'w nl_api"

section \<open>The state\<close>

text \<open>\<^verbatim>\<open>awsclient\<close>: the cached identity document, the cached EC2 client (present or \<^verbatim>\<open>nil\<close>) and
  the two \<^verbatim>\<open>sync.Once\<close> flags.\<close>

record awsclient =
  cl_idDoc :: "IDDoc option"
  cl_onceIDDoc :: bool
  cl_ec2Client :: bool
  cl_onceEc2 :: bool

text \<open>The client a process starts with: nothing has been requested yet.\<close>

definition fresh_client :: awsclient where
  "fresh_client = \<lparr>cl_idDoc = None, cl_onceIDDoc = False, cl_ec2Client = False, cl_onceEc2 = False\<rparr>"

record 'w st =
  fs_dirs :: "string list"
  fs_files :: "string \<Rightarrow> json option option"
  client :: awsclient
  world :: 'w

definition ext :: "('w \<Rightarrow> 'a \<times> 'w) \<Rightarrow> 'w st \<Rightarrow> 'a \<times> 'w st" where
  "ext f s = (fst (f (world s)), s\<lparr>world := snd (f (world s))\<rparr>)"

definition time_Sleep :: "'w env \<Rightarrow> int \<Rightarrow> 'w st \<Rightarrow> 'w st" where
  "time_Sleep e d s = s\<lparr>world := os_Sleep (os e) d (world s)\<rparr>"

section \<open>The file system calls the program makes\<close>

definition path_Join :: "string \<Rightarrow> string \<Rightarrow> string" where
  "path_Join a b = a @ CHR ''/'' # b"

text \<open>\<^verbatim>\<open>os.Stat\<close>, reduced to \<^verbatim>\<open>IsDir\<close>.\<close>

definition os_Stat :: "'w env \<Rightarrow> string \<Rightarrow> 'w st \<Rightarrow> bool res \<times> 'w st" where
  "os_Stat e p s =
     (let (err, s) = ext (os_fault (os e) (Stat p)) s
      in case err of
           Some x \<Rightarrow> (Inl x, s)
         | None \<Rightarrow> if p \<in> set (fs_dirs s) then (Inr True, s)
                   else if fs_files s p \<noteq> None then (Inr False, s)
                   else (Inl ErrNotExist, s))"

definition os_MkdirAll :: "'w env \<Rightarrow> string \<Rightarrow> 'w st \<Rightarrow> error option \<times> 'w st" where
  "os_MkdirAll e p s =
     (let (err, s) = ext (os_fault (os e) (MkdirAll p)) s
      in case err of
           Some x \<Rightarrow> (Some x, s)
         | None \<Rightarrow> if fs_files s p \<noteq> None then (Some (Ext ''not a directory''), s)
                   else (None, s\<lparr>fs_dirs := List.insert p (fs_dirs s)\<rparr>))"

definition os_Open :: "'w env \<Rightarrow> string \<Rightarrow> 'w st \<Rightarrow> json option res \<times> 'w st" where
  "os_Open e p s =
     (let (err, s) = ext (os_fault (os e) (Open p)) s
      in case err of
           Some x \<Rightarrow> (Inl x, s)
         | None \<Rightarrow> (case fs_files s p of None \<Rightarrow> (Inl ErrNotExist, s) | Some doc \<Rightarrow> (Inr doc, s)))"

text \<open>\<^verbatim>\<open>os.OpenFile\<close> with \<^verbatim>\<open>O_CREATE|O_TRUNC\<close>: the file exists and is empty afterwards.\<close>

definition os_OpenFile :: "'w env \<Rightarrow> string \<Rightarrow> 'w st \<Rightarrow> error option \<times> 'w st" where
  "os_OpenFile e p s =
     (let (err, s) = ext (os_fault (os e) (OpenFile p)) s
      in case err of
           Some x \<Rightarrow> (Some x, s)
         | None \<Rightarrow> (None, s\<lparr>fs_files := (fs_files s)(p := Some None)\<rparr>))"

text \<open>\<^verbatim>\<open>Encoder.Encode\<close> to the opened file; a failed write leaves no JSON document.\<close>

definition json_Encode :: "'w env \<Rightarrow> string \<Rightarrow> json \<Rightarrow> 'w st \<Rightarrow> error option \<times> 'w st" where
  "json_Encode e p doc s =
     (let (err, s) = ext (os_fault (os e) (WriteFile p)) s
      in case err of
           Some x \<Rightarrow> (Some x, s)
         | None \<Rightarrow> (None, s\<lparr>fs_files := (fs_files s)(p := Some (Some doc))\<rparr>))"

definition os_Remove :: "'w env \<Rightarrow> string \<Rightarrow> 'w st \<Rightarrow> error option \<times> 'w st" where
  "os_Remove e p s =
     (let (err, s) = ext (os_fault (os e) (Remove p)) s
      in case err of
           Some x \<Rightarrow> (Some x, s)
         | None \<Rightarrow> if fs_files s p = None then (Some ErrNotExist, s)
                   else (None, s\<lparr>fs_files := (fs_files s)(p := None)\<rparr>))"

text \<open>\<^verbatim>\<open>path.Join\<close> of a directory under \<^verbatim>\<open>/run\<close> that depends on the user: root keeps it in
  \<^verbatim>\<open>/run\<close>, other users below \<^verbatim>\<open>/run/user\<close>.\<close>

definition run_path :: "'w env \<Rightarrow> string \<Rightarrow> string" where
  "run_path e dir =
     (if os_uid (os e) \<noteq> 0
      then path_Join (path_Join ''/run/user'' (nat_str (os_uid (os e)))) dir
      else path_Join ''/run'' dir)"

section \<open>What healthy hosts do\<close>

text \<open>No system call fails, and the wall clock shows times the RFC 3339 format can carry.\<close>

definition fs_ok :: "'w env \<Rightarrow> bool" where
  "fs_ok e = (\<forall>c w. fst (os_fault (os e) c w) = None)"

definition clock_ok :: "'w env \<Rightarrow> bool" where
  "clock_ok e = (\<forall>w. representable (fst (os_Now (os e) w)))"

text \<open>\<^verbatim>\<open>range\<close> over a map visits each key once, in some order.\<close>

definition range_ok :: "'w env \<Rightarrow> bool" where
  "range_ok e = (\<forall>ks. mset (os_range (os e) ks) = mset ks)"

lemma fs_okD: "fs_ok e \<Longrightarrow> fst (os_fault (os e) c w) = None"
  by (simp add: fs_ok_def)

lemma range_ok_set: "range_ok e \<Longrightarrow> set (os_range (os e) ks) = set ks"
  unfolding range_ok_def by (metis set_mset_mset)

lemma ext_frame [simp, frame]:
  "fs_dirs (snd (ext f s)) = fs_dirs s" "fs_files (snd (ext f s)) = fs_files s"
  "client (snd (ext f s)) = client s"
  by (simp_all add: ext_def)

lemma time_Sleep_frame [simp, frame]:
  "fs_dirs (time_Sleep e d s) = fs_dirs s" "fs_files (time_Sleep e d s) = fs_files s"
  "client (time_Sleep e d s) = client s"
  by (simp_all add: time_Sleep_def)

lemma os_frame [simp, frame]:
  "client (snd (os_Stat e p s)) = client s" "fs_files (snd (os_Stat e p s)) = fs_files s"
  "fs_dirs (snd (os_Stat e p s)) = fs_dirs s"
  "client (snd (os_MkdirAll e p s)) = client s" "fs_files (snd (os_MkdirAll e p s)) = fs_files s"
  "client (snd (os_Open e p s)) = client s" "fs_files (snd (os_Open e p s)) = fs_files s"
  "fs_dirs (snd (os_Open e p s)) = fs_dirs s"
  "client (snd (os_OpenFile e p s)) = client s" "client (snd (json_Encode e p d s)) = client s"
  "client (snd (os_Remove e p s)) = client s"
  by (simp_all add: os_Stat_def os_MkdirAll_def os_Open_def os_OpenFile_def json_Encode_def
      os_Remove_def ext_def split: option.splits)

end
