(* ===== verification/Scenario.thy ===== *)
theory Scenario
  imports Host
begin

text \<open>
  A concrete outside world, on which the hypotheses of the properties are shown to be satisfiable:
  an instance with a boot interface \<^verbatim>\<open>eth0\<close> and one pod interface \<^verbatim>\<open>eth1\<close>, one subnet, and an
  EC2 that hands out the addresses of \<open>d_spare\<close> one after the other. No property is about this
  world; only the witnesses use it.
\<close>

record dw =
  d_sec :: int
  d_busy :: nat
  d_ips :: "string list"
  d_spare :: "string list"
  d_bound :: "ip list"
  d_enis :: "string list"
  d_attach :: bool
  d_up :: nat
  d_rules :: "nl_rule list"
  d_routes :: "nl_route list"

definition demo_meta :: "(string \<times> string) list" where
  "demo_meta =
     [(''network/interfaces/macs/'', ''a0/'' @ [CHR 0x0A] @ ''a1/''),
      (''network/interfaces/macs/a0//interface-id'', ''eni-0''),
      (''network/interfaces/macs/a0//device-number'', ''0''),
      (''network/interfaces/macs/a0//local-ipv4s'', ''10.0.0.4''),
      (''network/interfaces/macs/a0//subnet-id'', ''subnet-0''),
      (''network/interfaces/macs/a0//subnet-ipv4-cidr-block'', ''10.0.0.0/24''),
      (''network/interfaces/macs/a0//vpc-id'', ''vpc-0''),
      (''network/interfaces/macs/a0//vpc-ipv4-cidr-block'', ''10.0.0.0/16''),
      (''network/interfaces/macs/a0//vpc-ipv4-cidr-blocks'', ''10.0.0.0/16''),
      (''network/interfaces/macs/a0//security-group-ids'', ''sg-0''),
      (''network/interfaces/macs/a1//interface-id'', ''eni-1''),
      (''network/interfaces/macs/a1//device-number'', ''1''),
      (''network/interfaces/macs/a1//subnet-id'', ''subnet-1''),
      (''network/interfaces/macs/a1//subnet-ipv4-cidr-block'', ''10.0.1.0/24''),
      (''network/interfaces/macs/a1//vpc-id'', ''vpc-0''),
      (''network/interfaces/macs/a1//vpc-ipv4-cidr-block'', ''10.0.0.0/16''),
      (''network/interfaces/macs/a1//vpc-ipv4-cidr-blocks'', ''10.0.0.0/16''),
      (''network/interfaces/macs/a1//security-group-ids'', ''sg-1'')]"

definition demo_os :: "dw os_api" where
  "demo_os =
     \<lparr>os_uid = 0,
      os_txt6 = \<lparr>show6 = (\<lambda>_. '':''), parse6 = (\<lambda>_. None)\<rparr>,
      os_fault = (\<lambda>c w. (None, w)),
      os_Now = (\<lambda>w. (\<lparr>t_ns = d_sec w mod 100000000000 * ns_per_s, t_off = 0\<rparr>, w)),
      os_Mono = (\<lambda>w. (d_sec w * ns_per_s, w)),
      os_Sleep = (\<lambda>d w. w\<lparr>d_sec := d_sec w + (d + ns_per_s - 1) div ns_per_s\<rparr>),
      os_Int63n = (\<lambda>n w. (0, w)),
      os_range = (\<lambda>ks. ks),
      os_ReadDir = (\<lambda>p w. (Inr [], w)),
      os_Stderr = (\<lambda>name err w. (None, w)),
      os_sort_ifaces = insertion_sort Interfaces_Less,
      os_sort_subnets = insertion_sort Subnets_Less\<rparr>"

definition demo_lk :: "dw lock_api" where
  "demo_lk =
     \<lparr>lk_New = (\<lambda>w. (None, w)),
      lk_TryLock = (\<lambda>w. if d_busy w = 0 then (LockNil, w) else (LockBusy, w\<lparr>d_busy := d_busy w - 1\<rparr>)),
      lk_Unlock = (\<lambda>w. (None, w))\<rparr>"

definition demo_md :: "dw metadata_api" where
  "demo_md =
     \<lparr>md_Available = (\<lambda>w. (True, w)),
      md_GetMetadata = (\<lambda>p w.
        (if p = ''network/interfaces/macs/a1//local-ipv4s''
         then Inr (join_with (CHR 0x0A) (d_ips w))
         else case map_of demo_meta p of Some v \<Rightarrow> Inr v | None \<Rightarrow> Inl (Ext ''404''), w)),
      md_GetInstanceIdentityDocument = (\<lambda>w.
        (Inr \<lparr>idInstanceID = ''i-1'', idAvailabilityZone = ''az'', idRegion = ''r'',
              idInstanceType = ''c5.large''\<rparr>, w))\<rparr>"

definition demo_ec2 :: "dw ec2_api" where
  "demo_ec2 =
     \<lparr>ec2_AssignPrivateIpAddresses = (\<lambda>i n w.
        (None, w\<lparr>d_ips := d_ips w @ take (nat n) (d_spare w), d_spare := drop (nat n) (d_spare w)\<rparr>)),
      ec2_UnassignPrivateIpAddresses = (\<lambda>i ips w.
        (None, w\<lparr>d_ips := filter (\<lambda>x. x \<notin> set ips) (d_ips w), d_spare := ips @ d_spare w\<rparr>)),
      ec2_CreateNetworkInterface = (\<lambda>req w.
        (Inr \<lparr>niNetworkInterfaceId = ''eni-9'', niMacAddress = ''a1'', niPrivateIpAddresses = [''10.0.1.7''],
              niAttachmentId = None, niStatus = ''available''\<rparr>, w\<lparr>d_enis := ''eni-9'' # d_enis w\<rparr>)),
      ec2_AttachNetworkInterface = (\<lambda>idx inst eni w.
        (if d_attach w then Inr ''attach-9'' else Inl (Ext ''AttachmentLimitExceeded''), w)),
      ec2_DeleteNetworkInterface = (\<lambda>i w. (None, w\<lparr>d_enis := filter (\<lambda>x. x \<noteq> i) (d_enis w)\<rparr>)),
      ec2_ModifyNetworkInterfaceAttribute = (\<lambda>i a b w. (None, w)),
      ec2_DetachNetworkInterface = (\<lambda>a w. (None, w)),
      ec2_DescribeNetworkInterfaces = (\<lambda>ids w.
        (Inr (map (\<lambda>i. \<lparr>niNetworkInterfaceId = i, niMacAddress = ''a1'', niPrivateIpAddresses = [],
                        niAttachmentId = Some ''attach-9'', niStatus = ''available''\<rparr>) ids), w)),
      ec2_DescribeInstanceTypes = (\<lambda>ts w.
        (Inr [\<lparr>nfMaximumNetworkInterfaces = 3, nfIpv4AddressesPerInterface = 10, nfIpv6AddressesPerInterface = 10\<rparr>], w)),
      ec2_DescribeSubnets = (\<lambda>fs w.
        (Inr [\<lparr>esSubnetId = ''subnet-1'', esCidrBlock = ''10.0.1.0/24'', esDefaultForAz = False,
               esAvailableIpAddressCount = 200, esTags = [(''Name'', ''pods''), (''k8s'', ''true'')]\<rparr>], w)),
      ec2_DescribeVpcs = (\<lambda>ids w. (Inr [\<lparr>vpCidrBlockAssociationSet = [(''associated'', ''10.0.0.0/16'')]\<rparr>], w)),
      ec2_DescribeVpcPeeringConnections = (\<lambda>w. (Inr [], w))\<rparr>"

definition demo_nl :: "dw nl_api" where
  "demo_nl =
     \<lparr>nl_WithNetNSPath = (\<lambda>p w. (None, w)),
      nl_NewHandle = (\<lambda>p w. (None, w)),
      nl_LinkList = (\<lambda>p w. (Inr [\<lparr>lkName = ''eth1'', lkIndex = 1, lkMTU = 9001, lkMac = ''a1''\<rparr>], w)),
      nl_AddrList4 = (\<lambda>p l w. (Inr (map (\<lambda>x. \<lparr>adIP = x, adPrefix = 24, adLabel = ''eth1''\<rparr>) (d_bound w)), w)),
      nl_LinkByName = (\<lambda>p n w. (Inr \<lparr>lkName = n, lkIndex = 1, lkMTU = 9001, lkMac = ''a1''\<rparr>, w)),
      nl_LinkSetUp = (\<lambda>l w. if d_up w = 0 then (None, w) else (Some (Ext ''down''), w\<lparr>d_up := d_up w - 1\<rparr>)),
      nl_LinkSetDown = (\<lambda>l w. (None, w)),
      nl_LinkDel = (\<lambda>l w. (None, w)),
      nl_LinkSetMTU = (\<lambda>l m w. (None, w)),
      net_Interfaces = (\<lambda>w. (Inr [(''eth0'', ''a0''), (''eth1'', ''a1'')], w)),
      dk_NewEnvClient = (\<lambda>w. (Some (Ext ''no docker''), w)),
      dk_ContainerList = (\<lambda>w. (Inr [], w)),
      dk_ContainerInspect = (\<lambda>c w. (Inr 0, w))\<rparr>"

definition demo :: "dw env" where
  "demo = \<lparr>os = demo_os, lk = demo_lk, md = demo_md, ec2 = demo_ec2, nl = demo_nl\<rparr>"

definition demo_w :: dw where
  "demo_w = \<lparr>d_sec = 63618829260, d_busy = 0, d_ips = [''10.0.1.7''], d_spare = [''10.0.1.8'', ''10.0.1.9''],
             d_bound = [V4 10 0 0 4], d_enis = [], d_attach = True, d_up = 0,
             d_rules = [], d_routes = []\<rparr>"

definition demo_s :: "dw st" where
  "demo_s = \<lparr>fs_dirs = [], fs_files = (\<lambda>_. None), client = fresh_client, world = demo_w\<rparr>"

lemmas demo_defs = demo_def demo_os_def demo_lk_def demo_md_def demo_ec2_def demo_nl_def demo_s_def
  demo_w_def fresh_client_def

lemma demo_fs_ok: "fs_ok demo"
  by (simp add: fs_ok_def demo_defs)

lemma demo_clock_ok: "clock_ok demo"
proof -
  have "representable \<lparr>t_ns = x mod 100000000000 * ns_per_s, t_off = 0\<rparr>" for x :: int
    using pos_mod_bound [of 100000000000 x]
    by (simp add: representable_def ns_per_s_def days_before_year_def)
  then show ?thesis by (simp add: clock_ok_def demo_defs)
qed

lemma demo_range_ok: "range_ok demo"
  by (simp add: range_ok_def demo_defs)

end
