(* ===== verification/Client.thy ===== *)
theory Client
  imports Scenario
begin

text \<open>
  \<^verbatim>\<open>aws/client.go\<close>, \<^verbatim>\<open>aws/util.go\<close> and \<^verbatim>\<open>aws/bugs.go\<close>: the shared client with its cached instance
  identity document and EC2 client, each fetched under a \<^verbatim>\<open>sync.Once\<close>, the EC2 filters, and the
  instance families with a defective metadata service. A \<^verbatim>\<open>sync.Once\<close> is spent by its first call,
  whether or not that call succeeded.
\<close>

section \<open>The identity document and the EC2 client\<close>

definition getIDDoc :: "'w env \<Rightarrow> 'w st \<Rightarrow> (IDDoc option \<times> error option) \<times> 'w st" where
  "getIDDoc e s =
     (if cl_onceIDDoc (client s) then ((cl_idDoc (client s), None), s)
      else (let s = s\<lparr>client := (client s)\<lparr>cl_onceIDDoc := True\<rparr>\<rparr>
            in if cl_idDoc (client s) \<noteq> None then ((cl_idDoc (client s), None), s)
               else (let (r, s) = ext (md_GetInstanceIdentityDocument (md e)) s
                     in case r of
                          Inl err \<Rightarrow> ((None, Some err), s)
                        | Inr inst \<Rightarrow>
                            ((Some inst, None), s\<lparr>client := (client s)\<lparr>cl_idDoc := Some inst\<rparr>\<rparr>))))"

text \<open>\<open>newEC2\<close> answers whether there is a client, and an error. It panics when it has to make the
  client and the identity document is \<^verbatim>\<open>nil\<close>.\<close>

definition newEC2 :: "'w env \<Rightarrow> 'w st \<Rightarrow> ((bool \<times> error option) \<times> 'w st) option" where
  "newEC2 e s =
     (if cl_onceEc2 (client s) then Some ((cl_ec2Client (client s), None), s)
      else (let s = s\<lparr>client := (client s)\<lparr>cl_onceEc2 := True\<rparr>\<rparr>;
                ((idd, err), s) = getIDDoc e s
            in case err of
                 Some x \<Rightarrow> Some ((cl_ec2Client (client s), Some x), s)
               | None \<Rightarrow>
                   if cl_ec2Client (client s) then Some ((True, None), s)
                   else (case idd of
                           None \<Rightarrow> None
                         | Some d \<Rightarrow> Some ((True, None), s\<lparr>client := (client s)\<lparr>cl_ec2Client := True\<rparr>\<rparr>))))"

text \<open>A method call on the EC2 client: a \<^verbatim>\<open>nil\<close> client panics.\<close>

definition ec2call :: "bool \<Rightarrow> ('w \<Rightarrow> 'a \<times> 'w) \<Rightarrow> 'w st \<Rightarrow> ('a \<times> 'w st) option" where
  "ec2call present f s = (if present then Some (ext f s) else None)"

definition newEc2Filter :: "string \<Rightarrow> string list \<Rightarrow> ec2_Filter" where
  "newEc2Filter name values = \<lparr>flName = name, flValues = values\<rparr>"

section \<open>The instance type and the bugs it implies\<close>

definition InstanceType :: "'w env \<Rightarrow> 'w st \<Rightarrow> (string \<times> 'w st) option" where
  "InstanceType e s =
     (let ((idd, err), s) = getIDDoc e s
      in case err of
           Some _ \<Rightarrow> Some (''unknown'', s)
         | None \<Rightarrow> (case idd of None \<Rightarrow> None | Some d \<Rightarrow> Some (idInstanceType d, s)))"

definition broken_families :: "string list" where
  "broken_families = [''c5'', ''m5'', ''c5d'', ''m5d'', ''m5a'', ''r5'', ''r5d'', ''r5a'']"

definition HasBugBrokenVPCCidrs :: "'w env \<Rightarrow> 'w st \<Rightarrow> (bool \<times> 'w st) option" where
  "HasBugBrokenVPCCidrs e s =
     do { (itype, s) \<leftarrow> InstanceType e s;
          let family = hd (split_on (CHR ''.'') itype);
          Some (family \<in> set broken_families, s) }"

definition ListBugs :: "'w env \<Rightarrow> (string \<times> ('w st \<Rightarrow> (bool \<times> 'w st) option)) list" where
  "ListBugs e = [(''broken_cidr'', HasBugBrokenVPCCidrs e)]"

section \<open>A client that works keeps working\<close>

text \<open>The metadata service answers the request for the identity document.\<close>

definition iddoc_ok :: "'w env \<Rightarrow> bool" where
  "iddoc_ok e = (\<forall>w. \<not> isl (fst (md_GetInstanceIdentityDocument (md e) w)))"

text \<open>A client is ready when it has its identity document, or has yet to ask a metadata service that answers,
  and when it has its EC2 client unless that is still to be made. The client that a process starts with is
  ready wherever the metadata service answers.\<close>

definition client_ready :: "'w env \<Rightarrow> awsclient \<Rightarrow> bool" where
  "client_ready e c =
     ((cl_idDoc c \<noteq> None \<or> \<not> cl_onceIDDoc c \<and> iddoc_ok e) \<and> (cl_onceEc2 c \<longrightarrow> cl_ec2Client c))"

lemma fresh_client_ready [simp]: "client_ready e fresh_client \<longleftrightarrow> iddoc_ok e"
  by (simp add: client_ready_def fresh_client_def)

lemma iddoc_ok_ec2 [simp]: "iddoc_ok (e\<lparr>ec2 := x\<rparr>) = iddoc_ok e"
  by (simp add: iddoc_ok_def)

lemma client_ready_ec2 [simp]: "client_ready (e\<lparr>ec2 := x\<rparr>) c = client_ready e c"
  by (simp add: client_ready_def)

lemma demo_iddoc_ok [simp]: "iddoc_ok demo"
  by (simp add: iddoc_ok_def demo_defs)

lemma getIDDoc_frame [simp, frame]:
  "fs_files (snd (getIDDoc e s)) = fs_files s" "fs_dirs (snd (getIDDoc e s)) = fs_dirs s"
  by (simp_all add: getIDDoc_def ext_def Let_def split: sum.splits)

text \<open>A ready client gets its identity document, and has it afterwards.\<close>

lemma getIDDoc_got:
  assumes "cl_idDoc (client s) \<noteq> None \<or> \<not> cl_onceIDDoc (client s) \<and> iddoc_ok e"
  obtains d s' where "getIDDoc e s = ((Some d, None), s')"
    and "client s' = (client s)\<lparr>cl_onceIDDoc := True, cl_idDoc := Some d\<rparr>"
    and "fs_files s' = fs_files s" and "fs_dirs s' = fs_dirs s"
proof (cases "cl_idDoc (client s)")
  case (Some d)
  let ?s = "s\<lparr>client := (client s)\<lparr>cl_onceIDDoc := True\<rparr>\<rparr>"
  have "getIDDoc e s = ((Some d, None), ?s)" using Some by (auto simp: getIDDoc_def)
  with that [of d ?s] Some show thesis by simp
next
  case None
  let ?s = "s\<lparr>client := (client s)\<lparr>cl_onceIDDoc := True\<rparr>\<rparr>"
  let ?x = "ext (md_GetInstanceIdentityDocument (md e)) ?s"
  have once: "\<not> cl_onceIDDoc (client s)" "iddoc_ok e" using assms None by auto
  then obtain d where d: "fst ?x = Inr d" by (cases "fst ?x") (auto simp: iddoc_ok_def ext_def isl_def)
  let ?s' = "(snd ?x)\<lparr>client := (client s)\<lparr>cl_onceIDDoc := True, cl_idDoc := Some d\<rparr>\<rparr>"
  have "getIDDoc e s = ((Some d, None), ?s')"
    using None once(1) d by (simp add: getIDDoc_def case_prod_unfold Let_def)
  with that [of d ?s'] show thesis by simp
qed

lemma getIDDoc_ready:
  assumes "client_ready e (client s)"
  obtains d s' where "getIDDoc e s = ((Some d, None), s')" and "client_ready e (client s')"
    and "fs_files s' = fs_files s" and "fs_dirs s' = fs_dirs s"
proof -
  have "cl_idDoc (client s) \<noteq> None \<or> \<not> cl_onceIDDoc (client s) \<and> iddoc_ok e" using assms by (simp add: client_ready_def)
  then obtain d s' where g: "getIDDoc e s = ((Some d, None), s')"
    "client s' = (client s)\<lparr>cl_onceIDDoc := True, cl_idDoc := Some d\<rparr>" "fs_files s' = fs_files s" "fs_dirs s' = fs_dirs s"
    by (rule getIDDoc_got)
  then show thesis using that [OF g(1) _ g(3, 4)] assms by (simp add: client_ready_def)
qed

lemma newEC2_ready:
  assumes "client_ready e (client s)"
  obtains s' where "newEC2 e s = Some ((True, None), s')" and "client_ready e (client s')"
    and "fs_files s' = fs_files s" and "fs_dirs s' = fs_dirs s"
proof (cases "cl_onceEc2 (client s)")
  case True
  with assms that [of s] show ?thesis by (simp add: newEC2_def client_ready_def)
next
  case False
  let ?s = "s\<lparr>client := (client s)\<lparr>cl_onceEc2 := True\<rparr>\<rparr>"
  have doc: "cl_idDoc (client ?s) \<noteq> None \<or> \<not> cl_onceIDDoc (client ?s) \<and> iddoc_ok e"
    using assms by (simp add: client_ready_def)
  obtain d s1 where g: "getIDDoc e ?s = ((Some d, None), s1)" "client s1 = (client ?s)\<lparr>cl_onceIDDoc := True, cl_idDoc := Some d\<rparr>"
    "fs_files s1 = fs_files ?s" "fs_dirs s1 = fs_dirs ?s"
    by (rule getIDDoc_got [OF doc])
  let ?s' = "if cl_ec2Client (client s1) then s1 else s1\<lparr>client := (client s1)\<lparr>cl_ec2Client := True\<rparr>\<rparr>"
  have "newEC2 e s = Some ((True, None), ?s')"
    using False g(1) by (simp add: newEC2_def Let_def)
  with that [of ?s'] g(2-4) show ?thesis by (simp add: client_ready_def)
qed

lemma newEC2_fresh:
  assumes "client s = fresh_client"
  shows "newEC2 e s =
    (case ext (md_GetInstanceIdentityDocument (md e)) s of
       (Inl err, s') \<Rightarrow> Some ((False, Some err),
          s'\<lparr>client := fresh_client\<lparr>cl_onceIDDoc := True, cl_onceEc2 := True\<rparr>\<rparr>)
     | (Inr d, s') \<Rightarrow> Some ((True, None),
          s'\<lparr>client := \<lparr>cl_idDoc = Some d, cl_onceIDDoc = True, cl_ec2Client = True, cl_onceEc2 = True\<rparr>\<rparr>))"
  using assms by (simp add: newEC2_def getIDDoc_def Let_def fresh_client_def ext_def split: sum.splits)

text \<open>C31: a failed identity request is not reported twice. When the first request for the document
  fails, that \<^verbatim>\<open>getIDDoc\<close> returns the error, but the \<^verbatim>\<open>sync.Once\<close> is spent: the next
  \<^verbatim>\<open>getIDDoc\<close> returns a \<^verbatim>\<open>nil\<close> document with a \<^verbatim>\<open>nil\<close> error, and \<^verbatim>\<open>InstanceType\<close> (which means
  to answer "unknown" when there is no document) and \<^verbatim>\<open>newEC2\<close> dereference it and panic.\<close>

theorem getIDDoc_error_lost:
  assumes "client s = fresh_client"
    and "ext (md_GetInstanceIdentityDocument (md e)) (s\<lparr>client := fresh_client\<lparr>cl_onceIDDoc := True\<rparr>\<rparr>) = (Inl err, s1)"
  shows "getIDDoc e s = ((None, Some err), s1) \<and> getIDDoc e s1 = ((None, None), s1) \<and>
         InstanceType e s1 = None \<and> newEC2 e s1 = None"
proof -
  have c1: "client s1 = fresh_client\<lparr>cl_onceIDDoc := True\<rparr>"
    using assms(2) by (auto simp: ext_def)
  have "getIDDoc e s = ((None, Some err), s1)"
    using assms by (simp add: getIDDoc_def fresh_client_def)
  with c1 show ?thesis
    by (simp add: getIDDoc_def InstanceType_def newEC2_def fresh_client_def Let_def)
qed

theorem getIDDoc_error_lost_witness:
  "let e = demo\<lparr>md := demo_md\<lparr>md_GetInstanceIdentityDocument := \<lambda>w. (Inl (Ext ''timeout''), w)\<rparr>\<rparr>
   in \<exists>s1. getIDDoc e demo_s = ((None, Some (Ext ''timeout'')), s1) \<and>
        getIDDoc e s1 = ((None, None), s1) \<and> InstanceType e s1 = None \<and> newEC2 e s1 = None"
proof -
  let ?e = "demo\<lparr>md := demo_md\<lparr>md_GetInstanceIdentityDocument := \<lambda>w. (Inl (Ext ''timeout''), w)\<rparr>\<rparr>"
  have c: "client demo_s = fresh_client" by (simp add: demo_s_def)
  obtain s1 where "ext (md_GetInstanceIdentityDocument (md ?e)) (demo_s\<lparr>client := fresh_client\<lparr>cl_onceIDDoc := True\<rparr>\<rparr>)
      = (Inl (Ext ''timeout''), s1)"
    by (simp add: ext_def)
  from getIDDoc_error_lost [OF c this] show ?thesis by auto
qed

end
