(* ===== verification/JsonDoc.thy ===== *)
theory JsonDoc
  imports JsonTime
begin

text \<open>
  How \<^verbatim>\<open>encoding/json\<close> decodes a document into the program's structs. The members of an object are
  stored one after the other; a member whose name is no field is ignored, names match fields without
  regard to ASCII case, \<^verbatim>\<open>null\<close> leaves a field as it is, and a value of the wrong type makes the
  whole decoding fail. \<open>None\<close> is the error.
\<close>

definition ascii_lower :: "char \<Rightarrow> char" where
  "ascii_lower c = (let n = of_char c :: nat in if 65 \<le> n \<and> n \<le> 90 then char_of (n + 32) else c)"

definition eq_fold :: "string \<Rightarrow> string \<Rightarrow> bool" where
  "eq_fold a b = (map ascii_lower a = map ascii_lower b)"

text \<open>Decoding an object into a struct: \<open>fld\<close> stores one member.\<close>

fun decode_members :: "(string \<Rightarrow> json \<Rightarrow> 'a \<Rightarrow> 'a option) \<Rightarrow> (string \<times> json) list \<Rightarrow> 'a \<Rightarrow> 'a option" where
  "decode_members fld [] x = Some x"
| "decode_members fld ((k, v) # ms) x =
     (case fld k v x of None \<Rightarrow> None | Some y \<Rightarrow> decode_members fld ms y)"

definition decode_struct :: "(string \<Rightarrow> json \<Rightarrow> 'a \<Rightarrow> 'a option) \<Rightarrow> json \<Rightarrow> 'a \<Rightarrow> 'a option" where
  "decode_struct fld js x =
     (case js of JNull \<Rightarrow> Some x | JObj ms \<Rightarrow> decode_members fld ms x | _ \<Rightarrow> None)"

definition decode_int :: "json \<Rightarrow> int \<Rightarrow> int option" where
  "decode_int js x =
     (case js of JNull \<Rightarrow> Some x
      | JNum i \<Rightarrow> if - (2 ^ 63) \<le> i \<and> i < 2 ^ 63 then Some i else None
      | _ \<Rightarrow> None)"

definition decode_string :: "json \<Rightarrow> string \<Rightarrow> string option" where
  "decode_string js x = (case js of JNull \<Rightarrow> Some x | JStr s \<Rightarrow> Some s | _ \<Rightarrow> None)"

definition decode_bool :: "json \<Rightarrow> bool \<Rightarrow> bool option" where
  "decode_bool js x = (case js of JNull \<Rightarrow> Some x | JBool b \<Rightarrow> Some b | _ \<Rightarrow> None)"

text \<open>A map from strings to strings: the members are added to the map.\<close>

definition decode_string_map :: "json \<Rightarrow> (string \<times> string) list \<Rightarrow> (string \<times> string) list option" where
  "decode_string_map js m =
     (case js of JNull \<Rightarrow> Some []
      | JObj ms \<Rightarrow> decode_members (\<lambda>k v m. map_option (\<lambda>s. map_put k s m) (decode_string v [])) ms m
      | _ \<Rightarrow> None)"

text \<open>A slice: the elements are decoded into fresh ones.\<close>

fun decode_list :: "(json \<Rightarrow> 'a option) \<Rightarrow> json list \<Rightarrow> 'a list option" where
  "decode_list f [] = Some []"
| "decode_list f (j # js) =
     (case f j of None \<Rightarrow> None | Some x \<Rightarrow> map_option ((#) x) (decode_list f js))"

text \<open>A slice of strings: absent after \<^verbatim>\<open>null\<close>.\<close>

definition decode_strings :: "json \<Rightarrow> string list option option" where
  "decode_strings js =
     (case js of
        JNull \<Rightarrow> Some None
      | JArr xs \<Rightarrow> map_option Some (decode_list (\<lambda>j. decode_string j []) xs)
      | _ \<Rightarrow> None)"

definition in_int64 :: "int \<Rightarrow> bool" where
  "in_int64 i = (- (2 ^ 63) \<le> i \<and> i < 2 ^ 63)"

lemma decode_scalars [simp]:
  "in_int64 i \<Longrightarrow> decode_int (JNum i) x = Some i" "decode_string (JStr s) y = Some s"
  "decode_bool (JBool b) z = Some b"
  by (simp_all add: decode_int_def decode_string_def decode_bool_def in_int64_def)

lemma decode_list_map:
  "(\<And>x. x \<in> set xs \<Longrightarrow> f (g x) = Some x) \<Longrightarrow> decode_list f (map g xs) = Some xs"
  by (induction xs) auto

lemma decode_members_put:
  assumes "\<And>k v. (k, v) \<in> set m \<Longrightarrow> \<exists>w. h v = w \<and> (\<forall>n. fld k w n = Some (map_put k (g v) n))"
  shows "decode_members fld (map (\<lambda>(k, v). (k, h v)) m) acc = Some (fold (\<lambda>(k, v). map_put k (g v)) m acc)"
  using assms
proof (induction m arbitrary: acc)
  case (Cons p m)
  obtain k v where p: "p = (k, v)" by fastforce
  with Cons.prems [of k v] have "fld k (h v) acc = Some (map_put k (g v) acc)" by auto
  with Cons p show ?case by simp
qed simp

lemma map_put_fresh: "k \<notin> fst ` set m \<Longrightarrow> map_put k v m = m @ [(k, v)]"
  by (induction k v m rule: map_put.induct) auto

text \<open>Storing the entries of a map one by one, in any map that has none of them, appends them.\<close>

lemma fold_map_put:
  "distinct (map fst m) \<Longrightarrow> fst ` set m \<inter> fst ` set acc = {} \<Longrightarrow>
     fold (\<lambda>(k, v). map_put k (g v)) m acc = acc @ map (\<lambda>(k, v). (k, g v)) m"
proof (induction m arbitrary: acc)
  case (Cons p m)
  obtain k v where p: "p = (k, v)" by fastforce
  have fresh: "map_put k (g v) acc = acc @ [(k, g v)]"
    using Cons.prems(2) p by (intro map_put_fresh) auto
  have "fst ` set m \<inter> fst ` set (acc @ [(k, g v)]) = {}"
    using Cons.prems p by force
  with Cons fresh p show ?case by simp
qed simp

lemma decode_string_map_enc:
  assumes "distinct (map fst m)"
  shows "decode_string_map (JObj (map (\<lambda>(k, v). (k, JStr v)) m)) [] = Some m"
proof -
  have "decode_members (\<lambda>k v m. map_option (\<lambda>s. map_put k s m) (decode_string v []))
      (map (\<lambda>(k, v). (k, JStr v)) m) [] = Some (fold (\<lambda>(k, v). map_put k (id v)) m [])"
    by (rule decode_members_put) simp
  also have "fold (\<lambda>(k, v). map_put k (id v)) m [] = m"
    using fold_map_put [OF assms, of "[]" id] by simp
  finally show ?thesis by (simp add: decode_string_map_def)
qed

end
