(* ===== verification/Cache.thy ===== *)
theory Cache
  imports Client JsonDoc
begin

text \<open>
  \<^verbatim>\<open>aws/cache/cacheable.go\<close>: values kept as JSON files with an expiry time, one file per key. The
  encoder and decoder of the cached type are arguments, as \<^verbatim>\<open>encoding/json\<close> finds them from the type
  of the pointer it is given; \<open>dec js x\<close> decodes \<open>js\<close> over the value \<open>x\<close>.
\<close>

datatype cstate = CacheFound | CacheExpired | CacheNoEntry | CacheNotAvailable

definition cachePath :: "'w env \<Rightarrow> string" where
  "cachePath e = run_path e ''cni-ipvlan-vpc-k8s''"

definition ensureDirectory :: "'w env \<Rightarrow> 'w st \<Rightarrow> error option \<times> 'w st" where
  "ensureDirectory e s =
     (let (r, s) = os_Stat e (cachePath e) s
      in if r = Inr True then (None, s) else os_MkdirAll e (cachePath e) s)"

text \<open>\<^verbatim>\<open>Cacheable\<close>: the expiry time and the contents.\<close>

definition cacheable_field :: "(json \<Rightarrow> 'a \<Rightarrow> 'a option) \<Rightarrow> string \<Rightarrow> json \<Rightarrow> gotime \<times> 'a \<Rightarrow> (gotime \<times> 'a) option" where
  "cacheable_field dec k v c =
     (if eq_fold k ''_expires'' then
        (case UnmarshalJSON v of Inl _ \<Rightarrow> None | Inr t \<Rightarrow> Some (t, snd c))
      else if eq_fold k ''contents'' then map_option (Pair (fst c)) (dec v (snd c))
      else Some c)"

definition decode_cacheable :: "(json \<Rightarrow> 'a \<Rightarrow> 'a option) \<Rightarrow> json \<Rightarrow> 'a \<Rightarrow> (gotime \<times> 'a) option" where
  "decode_cacheable dec doc x = decode_struct (cacheable_field dec) doc (zero_time, x)"

definition encode_cacheable :: "('a \<Rightarrow> json) \<Rightarrow> gotime \<Rightarrow> 'a \<Rightarrow> json" where
  "encode_cacheable enc t x = JObj [(''_expires'', MarshalJSON t), (''contents'', enc x)]"

text \<open>The second component of the result is what \<^verbatim>\<open>decodeTo\<close> points to afterwards.\<close>

definition cache_Get ::
    "'w env \<Rightarrow> string \<Rightarrow> (json \<Rightarrow> 'a \<Rightarrow> 'a option) \<Rightarrow> 'a \<Rightarrow> 'w st \<Rightarrow> (cstate \<times> 'a) \<times> 'w st" where
  "cache_Get e key dec decodeTo s =
     (let (err, s) = ensureDirectory e s
      in if err \<noteq> None then ((CacheNotAvailable, decodeTo), s)
         else (let (file, s) = os_Open e (path_Join (cachePath e) key) s
               in case file of
                    Inl _ \<Rightarrow> ((CacheNoEntry, decodeTo), s)
                  | Inr doc \<Rightarrow>
                      (case Option.bind doc (\<lambda>js. decode_cacheable dec js decodeTo) of
                         None \<Rightarrow> ((CacheNoEntry, decodeTo), s)
                       | Some (expires, x) \<Rightarrow>
                           (let (now, s) = ext (os_Now (os e)) s
                            in if time_Before expires now then ((CacheExpired, x), s)
                               else ((CacheFound, x), s)))))"

definition cache_Store ::
    "'w env \<Rightarrow> string \<Rightarrow> int \<Rightarrow> ('a \<Rightarrow> json) \<Rightarrow> 'a \<Rightarrow> 'w st \<Rightarrow> cstate \<times> 'w st" where
  "cache_Store e key lifetime enc data s =
     (let (err, s) = ensureDirectory e s
      in if err \<noteq> None then (CacheNotAvailable, s)
         else (let (err, s) = os_OpenFile e (path_Join (cachePath e) key) s
               in if err \<noteq> None then (CacheNotAvailable, s)
                  else (let (now, s) = ext (os_Now (os e)) s;
                            (err, s) = json_Encode e (path_Join (cachePath e) key)
                                         (encode_cacheable enc (time_Add now lifetime) data) s
                        in if err \<noteq> None then (CacheNotAvailable, s) else (CacheFound, s))))"

section \<open>What the cache promises\<close>

lemma ensureDirectory_frame [simp, frame]:
  "fs_files (snd (ensureDirectory e s)) = fs_files s" "client (snd (ensureDirectory e s)) = client s"
  by (simp_all add: ensureDirectory_def case_prod_unfold Let_def)

lemma cache_Get_frame [simp, frame]:
  "fs_files (snd (cache_Get e key dec x s)) = fs_files s" "client (snd (cache_Get e key dec x s)) = client s"
  by (simp_all add: cache_Get_def case_prod_unfold Let_def split: sum.splits option.splits)

lemma cache_Store_client [simp, frame]: "client (snd (cache_Store e key life enc x s)) = client s"
  by (simp add: cache_Store_def case_prod_unfold Let_def)

lemma cache_Store_other [frame]:
  "p \<noteq> path_Join (cachePath e) key \<Longrightarrow> fs_files (snd (cache_Store e key life enc x s)) p = fs_files s p"
  by (simp add: cache_Store_def case_prod_unfold Let_def os_OpenFile_def json_Encode_def ext_def
      split: option.splits)

lemma eq_fold_cacheable [simp]:
  "eq_fold ''_expires'' ''_expires''" "\<not> eq_fold ''contents'' ''_expires''" "eq_fold ''contents'' ''contents''"
  by code_simp+

lemma decode_encode_cacheable:
  assumes "representable t" and "dec (enc x) z = Some x"
  shows "decode_cacheable dec (encode_cacheable enc t x) z = Some (trunc_s t, x)"
  using assms jt.dec_enc
  by (simp add: decode_cacheable_def encode_cacheable_def decode_struct_def cacheable_field_def)

text \<open>The clock readings of a store and of a lookup.\<close>

definition store_clock :: "'w env \<Rightarrow> string \<Rightarrow> 'w st \<Rightarrow> gotime" where
  "store_clock e key s =
     fst (os_Now (os e) (world (snd (os_OpenFile e (path_Join (cachePath e) key) (snd (ensureDirectory e s))))))"

definition get_clock :: "'w env \<Rightarrow> string \<Rightarrow> 'w st \<Rightarrow> gotime" where
  "get_clock e key s =
     fst (os_Now (os e) (world (snd (os_Open e (path_Join (cachePath e) key) (snd (ensureDirectory e s))))))"

lemma ensureDirectory_dir:
  assumes "fst (ensureDirectory e s) = None"
  shows "cachePath e \<in> set (fs_dirs (snd (ensureDirectory e s)))"
proof (cases "fst (os_Stat e (cachePath e) s) = Inr True")
  case True
  then have "cachePath e \<in> set (fs_dirs s)"
    by (auto simp: os_Stat_def ext_def split: option.splits if_splits)
  with True show ?thesis by (simp add: ensureDirectory_def case_prod_unfold)
next
  case False
  with assms show ?thesis
    by (auto simp: ensureDirectory_def case_prod_unfold os_MkdirAll_def ext_def Let_def
        split: option.splits if_splits)
qed

lemma ensureDirectory_ok:
  assumes "fs_ok e" and "cachePath e \<in> set (fs_dirs s)"
  shows "fst (ensureDirectory e s) = None"
  using assms by (simp add: ensureDirectory_def os_Stat_def ext_def fs_okD)

lemma cache_Store_file:
  assumes "cache_Store e key life enc x s = (CacheFound, s1)"
  shows "fs_files s1 (path_Join (cachePath e) key) =
           Some (Some (encode_cacheable enc (time_Add (store_clock e key s) life) x))"
    and "cachePath e \<in> set (fs_dirs s1)"
proof -
  let ?d = "ensureDirectory e s"
  let ?f = "os_OpenFile e (path_Join (cachePath e) key) (snd ?d)"
  let ?n = "ext (os_Now (os e)) (snd ?f)"
  let ?w = "json_Encode e (path_Join (cachePath e) key)
              (encode_cacheable enc (time_Add (fst ?n) life) x) (snd ?n)"
  have ok: "fst ?d = None" "fst ?f = None" "fst ?w = None" and s1: "s1 = snd ?w"
    using assms by (auto simp: cache_Store_def case_prod_unfold Let_def split: if_splits)
  show "fs_files s1 (path_Join (cachePath e) key) =
           Some (Some (encode_cacheable enc (time_Add (store_clock e key s) life) x))"
    using ok(3) unfolding s1 json_Encode_def store_clock_def
    by (auto simp: case_prod_unfold Let_def split: option.splits) (simp add: ext_def)
  have "fs_dirs s1 = fs_dirs (snd ?d)"
    unfolding s1 by (simp add: json_Encode_def os_OpenFile_def ext_def split: option.splits)
  with ensureDirectory_dir [OF ok(1)] show "cachePath e \<in> set (fs_dirs s1)" by simp
qed

lemma cache_Get_file:
  assumes "fs_ok e" and "cachePath e \<in> set (fs_dirs s)"
    and "fs_files s (path_Join (cachePath e) key) = Some (Some doc)"
    and "decode_cacheable dec doc z = Some (expires, x)"
  shows "fst (cache_Get e key dec z s) =
    (if time_Before expires (get_clock e key s) then CacheExpired else CacheFound, x)"
proof -
  let ?d = "ensureDirectory e s"
  have "fst ?d = None" using assms by (simp add: ensureDirectory_ok)
  moreover have "fst (os_Open e (path_Join (cachePath e) key) (snd ?d)) = Inr (Some doc)"
    using assms(1,3) by (simp add: os_Open_def ext_def fs_okD)
  ultimately show ?thesis
    using assms(4) by (simp add: cache_Get_def get_clock_def case_prod_unfold Let_def ext_def)
qed

text \<open>C26: a stored value is served unchanged until it expires. After a successful \<^verbatim>\<open>Store\<close>, as long
  as nobody writes the file, \<^verbatim>\<open>Get\<close> under the same key returns the stored value, with
  \<^verbatim>\<open>CacheFound\<close> up to the expiry time (the clock reading of the store plus the lifetime, cut to
  whole seconds) and with \<^verbatim>\<open>CacheExpired\<close> after it.\<close>

theorem cache_store_get:
  assumes "cache_Store e key life enc x s = (CacheFound, s1)" and "fs_ok e"
    and "representable (time_Add (store_clock e key s) life)" and "dec (enc x) z = Some x"
    and "fs_files s2 = fs_files s1" and "fs_dirs s2 = fs_dirs s1"
  shows "fst (cache_Get e key dec z s2) =
    (if t_ns (trunc_s (time_Add (store_clock e key s) life)) < t_ns (get_clock e key s2)
     then CacheExpired else CacheFound, x)"
proof -
  let ?t = "time_Add (store_clock e key s) life"
  have dec: "decode_cacheable dec (encode_cacheable enc ?t x) z = Some (trunc_s ?t, x)"
    using assms(3,4) by (rule decode_encode_cacheable)
  have stored: "fs_files s2 (path_Join (cachePath e) key) = Some (Some (encode_cacheable enc ?t x))"
    and dir: "cachePath e \<in> set (fs_dirs s2)"
    using cache_Store_file [OF assms(1)] assms(5,6) by simp_all
  show ?thesis
    using cache_Get_file [OF assms(2) dir stored dec] by (simp add: time_Before_def)
qed

theorem cache_store_get_witness:
  "fst (cache_Get demo ''k'' decode_string [] (snd (cache_Store demo ''k'' ns_per_s JStr ''v'' demo_s)))
     = (CacheFound, ''v'')"
proof -
  have st: "cache_Store demo ''k'' ns_per_s JStr ''v'' demo_s =
      (CacheFound, snd (cache_Store demo ''k'' ns_per_s JStr ''v'' demo_s))"
    by (simp add: cache_Store_def ensureDirectory_def os_Stat_def os_MkdirAll_def os_OpenFile_def
        json_Encode_def ext_def demo_defs)
  have c: "store_clock demo ''k'' demo_s = \<lparr>t_ns = 63618829260000000000, t_off = 0\<rparr>"
    by (simp add: store_clock_def ensureDirectory_def os_Stat_def os_MkdirAll_def os_OpenFile_def
        ext_def demo_defs ns_per_s_def)
  have g: "get_clock demo ''k'' (snd (cache_Store demo ''k'' ns_per_s JStr ''v'' demo_s)) =
      \<lparr>t_ns = 63618829260000000000, t_off = 0\<rparr>"
    by (simp add: get_clock_def cache_Store_def ensureDirectory_def os_Stat_def os_MkdirAll_def
        os_OpenFile_def os_Open_def json_Encode_def ext_def demo_defs ns_per_s_def)
  have r: "representable (time_Add (store_clock demo ''k'' demo_s) ns_per_s)"
    by (simp add: c time_Add_def representable_def ns_per_s_def days_before_year_def)
  show ?thesis
    using cache_store_get [OF st demo_fs_ok r, of decode_string "[]"] c g
    by (simp add: time_Add_def trunc_s_def ns_per_s_def)
qed

end
