(* ===== verification/Metadata.thy ===== *)
theory Metadata
  imports Cache
begin

text \<open>
  \<^verbatim>\<open>aws/metadata.go\<close>: the instance's interfaces, read from the metadata service one attribute at a
  time. The metadata service and the host's list of interfaces are parameters.
\<close>

section \<open>One interface\<close>

definition newline :: char where
  "newline = CHR 0x0A"

definition empty_Interface :: "string \<Rightarrow> Interface" where
  "empty_Interface mac =
     \<lparr>ifID = [], ifMac = mac, ifIfName = [], ifNumber = 0, ifIPv4s = [], ifSubnetID = [],
      ifSubnetCidr = None, ifVpcID = [], ifVpcPrimaryCidr = None, ifVpcCidrs = [], ifSecurityGroupIds = []\<rparr>"

text \<open>The closure \<^verbatim>\<open>metadataParser\<close>: fetch one attribute below the interface's prefix (the source's
  format string puts a second slash after it); an empty answer changes nothing.\<close>

definition metadataParser ::
    "'w env \<Rightarrow> Interface \<Rightarrow> string \<Rightarrow> (Interface \<Rightarrow> string \<Rightarrow> Interface res) \<Rightarrow> 'w st \<Rightarrow> Interface res \<times> 'w st" where
  "metadataParser e iface metadataId modifer s =
     (let prefix = ''network/interfaces/macs/'' @ ifMac iface @ ''/'';
          (r, s) = ext (md_GetMetadata (md e) (prefix @ ''/'' @ metadataId)) s
      in case r of
           Inl err \<Rightarrow> (Inl err, s)
         | Inr metadata \<Rightarrow> (if metadata \<noteq> [] then modifer iface metadata else Inr iface, s))"

definition set_device_number :: "Interface \<Rightarrow> string \<Rightarrow> Interface res" where
  "set_device_number iface v = (case strconv_Atoi v of Inl err \<Rightarrow> Inl err | Inr num \<Rightarrow> Inr (iface\<lparr>ifNumber := num\<rparr>))"

definition set_local_ipv4s :: "txt6 \<Rightarrow> Interface \<Rightarrow> string \<Rightarrow> Interface res" where
  "set_local_ipv4s t iface v =
     Inr (iface\<lparr>ifIPv4s := ifIPv4s iface @ List.map_filter (ParseIP t) (split_on newline v)\<rparr>)"

definition set_subnet_cidr :: "txt6 \<Rightarrow> Interface \<Rightarrow> string \<Rightarrow> Interface res" where
  "set_subnet_cidr t iface v =
     (case ParseCIDR t v of Inl err \<Rightarrow> Inl err | Inr (_, n) \<Rightarrow> Inr (iface\<lparr>ifSubnetCidr := Some n\<rparr>))"

definition set_vpc_cidr :: "txt6 \<Rightarrow> Interface \<Rightarrow> string \<Rightarrow> Interface res" where
  "set_vpc_cidr t iface v =
     (case ParseCIDR t v of Inl err \<Rightarrow> Inl err | Inr (_, n) \<Rightarrow> Inr (iface\<lparr>ifVpcPrimaryCidr := Some n\<rparr>))"

fun set_vpc_cidrs :: "txt6 \<Rightarrow> string list \<Rightarrow> Interface \<Rightarrow> Interface res" where
  "set_vpc_cidrs t [] iface = Inr iface"
| "set_vpc_cidrs t (c # cs) iface =
     (case ParseCIDR t c of
        Inl err \<Rightarrow> Inl err
      | Inr (_, n) \<Rightarrow> set_vpc_cidrs t cs (iface\<lparr>ifVpcCidrs := ifVpcCidrs iface @ [n]\<rparr>))"

definition interface_parsers :: "txt6 \<Rightarrow> (string \<times> (Interface \<Rightarrow> string \<Rightarrow> Interface res)) list" where
  "interface_parsers t =
     [(''interface-id'', \<lambda>iface v. Inr (iface\<lparr>ifID := v\<rparr>)),
      (''device-number'', set_device_number),
      (''local-ipv4s'', set_local_ipv4s t),
      (''subnet-id'', \<lambda>iface v. Inr (iface\<lparr>ifSubnetID := v\<rparr>)),
      (''subnet-ipv4-cidr-block'', set_subnet_cidr t),
      (''vpc-id'', \<lambda>iface v. Inr (iface\<lparr>ifVpcID := v\<rparr>)),
      (''vpc-ipv4-cidr-block'', set_vpc_cidr t),
      (''vpc-ipv4-cidr-blocks'', \<lambda>iface v. set_vpc_cidrs t (split_on newline v) iface),
      (''security-group-ids'', \<lambda>iface v. Inr (iface\<lparr>ifSecurityGroupIds := split_on newline v\<rparr>))]"

fun run_parsers ::
    "'w env \<Rightarrow> (string \<times> (Interface \<Rightarrow> string \<Rightarrow> Interface res)) list \<Rightarrow> Interface \<Rightarrow> 'w st \<Rightarrow> Interface res \<times> 'w st" where
  "run_parsers e [] iface s = (Inr iface, s)"
| "run_parsers e ((k, f) # ps) iface s =
     (let (r, s) = metadataParser e iface k f s
      in case r of Inl err \<Rightarrow> (Inl err, s) | Inr iface \<Rightarrow> run_parsers e ps iface s)"

definition getInterface :: "'w env \<Rightarrow> string \<Rightarrow> 'w st \<Rightarrow> Interface res \<times> 'w st" where
  "getInterface e mac s =
     (let (r, s) = run_parsers e (interface_parsers (os_txt6 (os e))) (empty_Interface mac) s
      in case r of
           Inl err \<Rightarrow> (Inl err, s)
         | Inr iface \<Rightarrow>
             (let (r, s) = ext (net_Interfaces (nl e)) s
              in case r of
                   Inl err \<Rightarrow> (Inl err, s)
                 | Inr ifaces \<Rightarrow>
                     (case find (\<lambda>(name, hw). hw = mac) ifaces of
                        None \<Rightarrow> (Inr iface, s)
                      | Some (name, hw) \<Rightarrow> (Inr (iface\<lparr>ifIfName := name\<rparr>), s))))"

section \<open>All interfaces\<close>

fun get_each_interface :: "'w env \<Rightarrow> string list \<Rightarrow> Interface list \<Rightarrow> 'w st \<Rightarrow> Interface list res \<times> 'w st" where
  "get_each_interface e [] interfaces s = (Inr interfaces, s)"
| "get_each_interface e (mac # macs) interfaces s =
     (if mac = [] then get_each_interface e macs interfaces s
      else (let (r, s) = getInterface e (butlast mac) s
            in case r of
                 Inl err \<Rightarrow> (Inl err, s)
               | Inr iface \<Rightarrow> get_each_interface e macs (interfaces @ [iface]) s))"

definition Available :: "'w env \<Rightarrow> 'w st \<Rightarrow> bool \<times> 'w st" where
  "Available e s = ext (md_Available (md e)) s"

definition GetInterfaces :: "'w env \<Rightarrow> 'w st \<Rightarrow> Interface list res \<times> 'w st" where
  "GetInterfaces e s =
     (let (avail, s) = Available e s
      in if \<not> avail then (Inl (Errorf ''EC2 Metadata not available''), s)
         else (let (r, s) = ext (md_GetMetadata (md e) ''network/interfaces/macs/'') s
               in case r of
                    Inl err \<Rightarrow> (Inl err, s)
                  | Inr macResult \<Rightarrow>
                      (let (r, s) = get_each_interface e (split_on newline macResult) [] s
                       in case r of
                            Inl err \<Rightarrow> (Inl err, s)
                          | Inr interfaces \<Rightarrow> (Inr (os_sort_ifaces (os e) interfaces), s))))"

section \<open>Frame: metadata reads change neither files nor client\<close>

lemma metadataParser_frame [simp, frame]:
  "fs_files (snd (metadataParser e i k f s)) = fs_files s" "fs_dirs (snd (metadataParser e i k f s)) = fs_dirs s"
  "client (snd (metadataParser e i k f s)) = client s"
  by (simp_all add: metadataParser_def ext_def Let_def split: sum.splits)

lemma run_parsers_frame [simp, frame]:
  "fs_files (snd (run_parsers e ps i s)) = fs_files s" "fs_dirs (snd (run_parsers e ps i s)) = fs_dirs s"
  "client (snd (run_parsers e ps i s)) = client s"
  by (induction ps arbitrary: i s) (auto simp: case_prod_unfold Let_def split: sum.splits)

lemma getInterface_frame [simp, frame]:
  "fs_files (snd (getInterface e mac s)) = fs_files s" "fs_dirs (snd (getInterface e mac s)) = fs_dirs s"
  "client (snd (getInterface e mac s)) = client s"
  by (simp_all add: getInterface_def case_prod_unfold Let_def split: sum.splits option.splits)

lemma get_each_interface_frame [simp, frame]:
  "fs_files (snd (get_each_interface e ms is s)) = fs_files s" "fs_dirs (snd (get_each_interface e ms is s)) = fs_dirs s"
  "client (snd (get_each_interface e ms is s)) = client s"
  by (induction ms arbitrary: "is" s) (auto simp: case_prod_unfold Let_def split: sum.splits)

lemma GetInterfaces_frame [simp, frame]:
  "fs_files (snd (GetInterfaces e s)) = fs_files s" "fs_dirs (snd (GetInterfaces e s)) = fs_dirs s"
  "client (snd (GetInterfaces e s)) = client s"
  by (simp_all add: GetInterfaces_def Available_def case_prod_unfold Let_def split: sum.splits)

section \<open>The list is complete and in device order\<close>

text \<open>No parser touches the hardware address.\<close>

lemma parsers_keep_mac:
  assumes "(k, f) \<in> set (interface_parsers t)" and "f iface v = Inr iface'"
  shows "ifMac iface' = ifMac iface"
proof -
  have "set_vpc_cidrs t cs i = Inr i' \<Longrightarrow> ifMac i' = ifMac i" for cs i i'
    by (induction t cs i rule: set_vpc_cidrs.induct) (auto split: sum.splits)
  with assms show ?thesis
    by (auto simp: interface_parsers_def set_device_number_def set_local_ipv4s_def set_subnet_cidr_def
        set_vpc_cidr_def split: sum.splits)
qed

lemma run_parsers_mac:
  "fst (run_parsers e ps iface s) = Inr iface' \<Longrightarrow> set ps \<subseteq> set (interface_parsers t) \<Longrightarrow>
     ifMac iface' = ifMac iface"
proof (induction ps arbitrary: iface s)
  case (Cons p ps)
  obtain k f where p: "p = (k, f)" by fastforce
  let ?m = "metadataParser e iface k f s"
  from Cons.prems(1) obtain i where i: "fst ?m = Inr i" "fst (run_parsers e ps i (snd ?m)) = Inr iface'"
    by (auto simp: p case_prod_unfold Let_def split: sum.splits)
  have "ifMac i = ifMac iface"
    using i(1) Cons.prems(2) parsers_keep_mac
    by (fastforce simp: p metadataParser_def ext_def Let_def split: sum.splits if_splits)
  with Cons.IH [OF i(2)] Cons.prems(2) show ?case by simp
qed simp

lemma getInterface_mac: "fst (getInterface e mac s) = Inr iface \<Longrightarrow> ifMac iface = mac"
  using run_parsers_mac [of e "interface_parsers (os_txt6 (os e))" "empty_Interface mac" s _ "os_txt6 (os e)"]
  by (auto simp: getInterface_def case_prod_unfold Let_def empty_Interface_def split: sum.splits option.splits)

lemma get_each_interface_macs:
  "fst (get_each_interface e macs is s) = Inr ifs \<Longrightarrow>
     map ifMac ifs = map ifMac is @ map butlast (filter (\<lambda>m. m \<noteq> []) macs)"
proof (induction macs arbitrary: "is" s)
  case (Cons mac macs)
  show ?case
  proof (cases "mac = []")
    case True
    with Cons show ?thesis by simp
  next
    case False
    let ?g = "getInterface e (butlast mac) s"
    from False Cons.prems obtain i where i: "fst ?g = Inr i"
        "fst (get_each_interface e macs (is @ [i]) (snd ?g)) = Inr ifs"
      by (auto simp: case_prod_unfold Let_def split: sum.splits)
    with Cons.IH [OF i(2)] getInterface_mac [OF i(1)] False show ?thesis by simp
  qed
qed simp

text \<open>C27: \<^verbatim>\<open>GetInterfaces\<close> is complete and ordered. When it succeeds, its interfaces are, up to
  order, one for each non-empty line of the metadata's list of hardware addresses (the line without
  its final slash), and they are in increasing device number, so that the boot interface comes first.
  \<open>go_sort\<close> is the contract of \<^verbatim>\<open>sort.Sort\<close>.\<close>

theorem GetInterfaces_complete_sorted:
  assumes "GetInterfaces e s = (Inr ifs, s')" and "go_sort Interfaces_Less (os_sort_ifaces (os e))"
    and "fst (md_GetMetadata (md e) ''network/interfaces/macs/'' (world (snd (Available e s)))) = Inr macs"
  shows "mset (map ifMac ifs) = mset (map butlast (filter (\<lambda>m. m \<noteq> []) (split_on newline macs))) \<and>
         sorted (map ifNumber ifs)"
proof -
  let ?s = "snd (ext (md_GetMetadata (md e) ''network/interfaces/macs/'') (snd (Available e s)))"
  obtain raw where raw: "fst (get_each_interface e (split_on newline macs) [] ?s) = Inr raw"
      "ifs = os_sort_ifaces (os e) raw"
    using assms(1,3)
    by (auto simp: GetInterfaces_def case_prod_unfold Let_def ext_def split: if_splits sum.splits)
  have perm: "mset ifs = mset raw" and ord: "no_descent Interfaces_Less ifs"
    using assms(2) raw(2) by (simp_all add: go_sort.sort_perm go_sort.sort_sorted)
  have "mset (map ifMac ifs) = mset (map ifMac raw)" using perm by simp
  moreover have "sorted (map ifNumber ifs)"
    using ord by (simp add: no_descent_def Interfaces_Less_def sorted_map not_less)
  ultimately show ?thesis using get_each_interface_macs [OF raw(1)] by simp
qed

section \<open>The example instance\<close>

definition demo_if0 :: Interface where
  "demo_if0 = \<lparr>ifID = ''eni-0'', ifMac = ''a0'', ifIfName = ''eth0'', ifNumber = 0,
     ifIPv4s = [V4 10 0 0 4], ifSubnetID = ''subnet-0'',
     ifSubnetCidr = Some \<lparr>net_ip = V4 10 0 0 0, net_prefix = 24\<rparr>, ifVpcID = ''vpc-0'',
     ifVpcPrimaryCidr = Some \<lparr>net_ip = V4 10 0 0 0, net_prefix = 16\<rparr>,
     ifVpcCidrs = [\<lparr>net_ip = V4 10 0 0 0, net_prefix = 16\<rparr>], ifSecurityGroupIds = [''sg-0'']\<rparr>"

definition demo_if1 :: "ip list \<Rightarrow> Interface" where
  "demo_if1 ips = \<lparr>ifID = ''eni-1'', ifMac = ''a1'', ifIfName = ''eth1'', ifNumber = 1,
     ifIPv4s = ips, ifSubnetID = ''subnet-1'',
     ifSubnetCidr = Some \<lparr>net_ip = V4 10 0 1 0, net_prefix = 24\<rparr>, ifVpcID = ''vpc-0'',
     ifVpcPrimaryCidr = Some \<lparr>net_ip = V4 10 0 0 0, net_prefix = 16\<rparr>,
     ifVpcCidrs = [\<lparr>net_ip = V4 10 0 0 0, net_prefix = 16\<rparr>], ifSecurityGroupIds = [''sg-1'']\<rparr>"

lemma demo_texts:
  "ParseCIDR t ''10.0.0.0/24'' = Inr (V4 10 0 0 0, \<lparr>net_ip = V4 10 0 0 0, net_prefix = 24\<rparr>)"
  "ParseCIDR t ''10.0.1.0/24'' = Inr (V4 10 0 1 0, \<lparr>net_ip = V4 10 0 1 0, net_prefix = 24\<rparr>)"
  "ParseCIDR t ''10.0.0.0/16'' = Inr (V4 10 0 0 0, \<lparr>net_ip = V4 10 0 0 0, net_prefix = 16\<rparr>)"
  "ParseIP t ''10.0.0.4'' = Some (V4 10 0 0 4)"
  "strconv_Atoi ''0'' = Inr 0" "strconv_Atoi ''1'' = Inr 1"
  by code_simp+

lemmas demo_metadata_defs = interface_parsers_def metadataParser_def set_device_number_def
  set_local_ipv4s_def set_subnet_cidr_def set_vpc_cidr_def demo_texts empty_Interface_def demo_meta_def
  newline_def map_filter_simps

lemma demo_getInterface0: "getInterface demo ''a0'' s = (Inr demo_if0, s)"
  by (simp add: getInterface_def demo_metadata_defs ext_def demo_defs demo_if0_def)

lemma demo_getInterface1:
  assumes "d_ips (world s) \<noteq> []" and "\<forall>x \<in> set (d_ips (world s)). newline \<notin> set x \<and> x \<noteq> []"
  shows "getInterface demo ''a1'' s =
    (Inr (demo_if1 (List.map_filter (ParseIP (os_txt6 (os demo))) (d_ips (world s)))), s)"
proof -
  let ?j = "join_with (CHR 0x0A) (d_ips (world s))"
  have "split_on (CHR 0x0A) ?j = d_ips (world s)" using assms by (intro split_on_join) (auto simp: newline_def)
  moreover have "?j \<noteq> []" using assms by (cases "d_ips (world s)" rule: list.exhaust) (auto elim: join_with.elims)
  ultimately show ?thesis
    by (simp add: getInterface_def demo_metadata_defs ext_def demo_defs demo_if1_def)
qed

lemma demo_GetInterfaces:
  assumes "d_ips (world s) \<noteq> []" and "\<forall>x \<in> set (d_ips (world s)). newline \<notin> set x \<and> x \<noteq> []"
  shows "GetInterfaces demo s =
    (Inr [demo_if0, demo_if1 (List.map_filter (ParseIP (os_txt6 (os demo))) (d_ips (world s)))], s)"
proof -
  have "Available demo s = (True, s)" by (simp add: Available_def ext_def demo_defs)
  moreover have "ext (md_GetMetadata (md demo) ''network/interfaces/macs/'') s =
      (Inr (''a0/'' @ newline # ''a1/''), s)"
    by (simp add: ext_def demo_defs demo_meta_def newline_def)
  moreover have "split_on newline (''a0/'' @ newline # ''a1/'') = [''a0/'', ''a1/'']"
    by (simp add: newline_def)
  ultimately show ?thesis
    by (simp add: GetInterfaces_def demo_getInterface0 demo_getInterface1 [OF assms])
       (simp add: demo_defs insertion_sort_def demo_if0_def demo_if1_def Interfaces_Less_def)
qed

lemma demo_sort_ifaces: "go_sort Interfaces_Less (os_sort_ifaces (os demo))"
  using isort_ifaces.go_sort_axioms by (simp add: demo_def demo_os_def)

theorem GetInterfaces_complete_sorted_witness:
  "\<exists>ifs s'. GetInterfaces demo demo_s = (Inr ifs, s') \<and> length ifs = 2 \<and>
     mset (map ifMac ifs) = {#''a0'', ''a1''#} \<and> sorted (map ifNumber ifs)"
proof -
  obtain ifs s' where g: "GetInterfaces demo demo_s = (Inr ifs, s')" "length ifs = 2"
    using demo_GetInterfaces [of demo_s] by (simp add: demo_s_def demo_w_def newline_def)
  have m: "fst (md_GetMetadata (md demo) ''network/interfaces/macs/'' (world (snd (Available demo demo_s)))) =
      Inr (''a0/'' @ newline # ''a1/'')"
    by (simp add: demo_defs demo_meta_def newline_def)
  show ?thesis
    using g GetInterfaces_complete_sorted [OF g(1) demo_sort_ifaces m]
    by (simp add: newline_def)
qed

end
