(* ===== verification/Nl.thy ===== *)
theory Nl
  imports Scenario
begin

text \<open>
  The \<^verbatim>\<open>nl\<close> package (\<^verbatim>\<open>nl/desc.go\<close>, \<^verbatim>\<open>nl/docker.go\<close>, \<^verbatim>\<open>nl/up.go\<close>, \<^verbatim>\<open>nl/down.go\<close>,
  \<^verbatim>\<open>nl/mtu.go\<close>): the addresses in use on the host and in its network namespaces, and bringing
  interfaces up and down. netlink and Docker are parameters, and so is a write to standard error
  whose failure the code looks at (other diagnostics are left out). A Go loop that polls until a deadline is the combinator \<open>poll\<close>, which does not return
  (\<open>None\<close>) if the clock never reaches the deadline and the body never succeeds.
\<close>

section \<open>Addresses in use\<close>

record BoundIP =
  biIP :: ip
  biPrefix :: nat
  biLabel :: string

fun ips_on_links :: "'w env \<Rightarrow> string \<Rightarrow> link list \<Rightarrow> BoundIP list \<Rightarrow> 'w st \<Rightarrow> BoundIP list res \<times> 'w st" where
  "ips_on_links e ns [] foundIps s = (Inr foundIps, s)"
| "ips_on_links e ns (link # links) foundIps s =
     (let (r, s) = ext (nl_AddrList4 (nl e) ns link) s
      in case r of
           Inl err \<Rightarrow> (Inl err, s)
         | Inr addrs \<Rightarrow>
             ips_on_links e ns links
               (foundIps @ map (\<lambda>a. \<lparr>biIP = adIP a, biPrefix = adPrefix a, biLabel = adLabel a\<rparr>) addrs) s)"

text \<open>\<open>ns\<close> is the namespace the handle was made in.\<close>

definition getIpsOnHandle :: "'w env \<Rightarrow> string \<Rightarrow> 'w st \<Rightarrow> BoundIP list res \<times> 'w st" where
  "getIpsOnHandle e ns s =
     (let (r, s) = ext (nl_LinkList (nl e) ns) s
      in case r of
           Inl err \<Rightarrow> (Inl err, s)
         | Inr links \<Rightarrow> ips_on_links e ns links [] s)"

definition runningDockerContainers :: "'w env \<Rightarrow> 'w st \<Rightarrow> string list res \<times> 'w st" where
  "runningDockerContainers e s =
     (let (err, s) = ext (dk_NewEnvClient (nl e)) s
      in case err of
           Some x \<Rightarrow> (Inl x, s)
         | None \<Rightarrow> ext (dk_ContainerList (nl e)) s)"

text \<open>A failed inspection is answered with an empty path and no error.\<close>

definition dockerNetworkNamespace :: "'w env \<Rightarrow> string \<Rightarrow> 'w st \<Rightarrow> string res \<times> 'w st" where
  "dockerNetworkNamespace e containerID s =
     (let (err, s) = ext (dk_NewEnvClient (nl e)) s
      in case err of
           Some x \<Rightarrow> (Inl x, s)
         | None \<Rightarrow>
             (let (r, s) = ext (dk_ContainerInspect (nl e) containerID) s
              in case r of
                   Inl _ \<Rightarrow> (Inr [], s)
                 | Inr pid \<Rightarrow>
                     if pid = 0 then (Inl (Errorf (''Container has exited '' @ containerID)), s)
                     else (Inr (''/proc/'' @ int_str pid @ ''/ns/net''), s)))"

fun dockerNetworkNamespaces :: "'w env \<Rightarrow> string list \<Rightarrow> 'w st \<Rightarrow> string list \<times> 'w st" where
  "dockerNetworkNamespaces e [] s = ([], s)"
| "dockerNetworkNamespaces e (containerID # cs) s =
     (let (cid, s) = dockerNetworkNamespace e containerID s;
          (rest, s) = dockerNetworkNamespaces e cs s
      in (case cid of Inl _ \<Rightarrow> rest | Inr p \<Rightarrow> if p \<noteq> [] then p # rest else rest, s))"

text \<open>One namespace: entering it, making a handle or listing may fail, and then nothing is added.\<close>

definition ips_in_namespace :: "'w env \<Rightarrow> string \<Rightarrow> 'w st \<Rightarrow> BoundIP list \<times> 'w st" where
  "ips_in_namespace e nsPath s =
     (let (err, s) = ext (nl_WithNetNSPath (nl e) nsPath) s
      in if err \<noteq> None then ([], s)
         else (let (err, s) = ext (nl_NewHandle (nl e) nsPath) s
               in if err \<noteq> None then ([], s)
                  else (let (r, s) = getIpsOnHandle e nsPath s
                        in case r of Inl _ \<Rightarrow> ([], s) | Inr newIps \<Rightarrow> (newIps, s))))"

fun ips_in_namespaces :: "'w env \<Rightarrow> string list \<Rightarrow> BoundIP list \<Rightarrow> 'w st \<Rightarrow> BoundIP list \<times> 'w st" where
  "ips_in_namespaces e [] foundIps s = (foundIps, s)"
| "ips_in_namespaces e (nsPath # nss) foundIps s =
     (let (newIps, s) = ips_in_namespace e nsPath s in ips_in_namespaces e nss (foundIps @ newIps) s)"

definition netns_paths :: "'w env \<Rightarrow> 'w st \<Rightarrow> string list \<times> 'w st" where
  "netns_paths e s =
     (let (files, s) = ext (os_ReadDir (os e) ''/var/run/netns/'') s;
          named = (case files of Inl _ \<Rightarrow> [] | Inr names \<Rightarrow> map (path_Join ''/var/run/netns'') names);
          (containers, s) = runningDockerContainers e s
      in case containers of
           Inl _ \<Rightarrow> (named, s)
         | Inr cs \<Rightarrow> (let (dockerNamespaces, s) = dockerNetworkNamespaces e cs s in (named @ dockerNamespaces, s)))"

definition GetIPs :: "'w env \<Rightarrow> 'w st \<Rightarrow> BoundIP list res \<times> 'w st" where
  "GetIPs e s =
     (let (namespaces, s) = netns_paths e s;
          (err, s) = ext (nl_NewHandle (nl e) []) s
      in case err of
           Some x \<Rightarrow> (Inl x, s)
         | None \<Rightarrow>
             (let (r, s) = getIpsOnHandle e [] s
              in case r of
                   Inl err \<Rightarrow> (Inl err, s)
                 | Inr foundIps \<Rightarrow>
                     (let (ips, s) = ips_in_namespaces e namespaces foundIps s in (Inr ips, s))))"

section \<open>Interfaces\<close>

definition UpInterface :: "'w env \<Rightarrow> string \<Rightarrow> 'w st \<Rightarrow> error option \<times> 'w st" where
  "UpInterface e name s =
     (let (r, s) = ext (nl_LinkByName (nl e) [] name) s
      in case r of Inl err \<Rightarrow> (Some err, s) | Inr link \<Rightarrow> ext (nl_LinkSetUp (nl e) link) s)"

definition DownInterface :: "'w env \<Rightarrow> string \<Rightarrow> 'w st \<Rightarrow> error option \<times> 'w st" where
  "DownInterface e name s =
     (let (r, s) = ext (nl_LinkByName (nl e) [] name) s
      in case r of Inl err \<Rightarrow> (Some err, s) | Inr link \<Rightarrow> ext (nl_LinkSetDown (nl e) link) s)"

definition nl_RemoveInterface :: "'w env \<Rightarrow> string \<Rightarrow> 'w st \<Rightarrow> error option \<times> 'w st" where
  "nl_RemoveInterface e name s =
     (let (r, s) = ext (nl_LinkByName (nl e) [] name) s
      in case r of Inl err \<Rightarrow> (Some err, s) | Inr link \<Rightarrow> ext (nl_LinkDel (nl e) link) s)"

definition GetMtu :: "'w env \<Rightarrow> string \<Rightarrow> 'w st \<Rightarrow> int res \<times> 'w st" where
  "GetMtu e name s =
     (let (r, s) = ext (nl_LinkByName (nl e) [] name) s
      in case r of Inl err \<Rightarrow> (Inl err, s) | Inr link \<Rightarrow> (Inr (lkMTU link), s))"

definition SetMtu :: "'w env \<Rightarrow> string \<Rightarrow> int \<Rightarrow> 'w st \<Rightarrow> error option \<times> 'w st" where
  "SetMtu e name mtu s =
     (let (r, s) = ext (nl_LinkByName (nl e) [] name) s
      in case r of Inl err \<Rightarrow> (Some err, s) | Inr link \<Rightarrow> ext (nl_LinkSetMTU (nl e) link mtu) s)"

section \<open>Polling\<close>

text \<open>\<^verbatim>\<open>for start := time.Now(); time.Since(start) <= deadline; time.Sleep(wait) { body }\<close>, where the
  body may return from the loop with a value. The result \<open>None\<close> of the loop means that it ran to
  its deadline.\<close>

partial_function (option) poll ::
    "'w env \<Rightarrow> int \<Rightarrow> int \<Rightarrow> int \<Rightarrow> ('w st \<Rightarrow> ('b option \<times> 'w st) option) \<Rightarrow> 'w st \<Rightarrow> ('b option \<times> 'w st) option" where
  "poll e deadline wait start body s =
     (let (now, s) = ext (os_Mono (os e)) s
      in if deadline < now - start then Some (None, s)
         else Option.bind (body s) (\<lambda>(r, s).
                case r of
                  Some v \<Rightarrow> Some (Some v, s)
                | None \<Rightarrow> poll e deadline wait start body (time_Sleep e wait s)))"

definition interfaceSettleWaitTime :: int where
  "interfaceSettleWaitTime = 100000000"

definition interfaceSettleDeadline :: int where
  "interfaceSettleDeadline = 20000000000"

text \<open>One attempt. A failed one is reported on standard error, and a report that cannot be written panics.\<close>

definition up_attempt :: "'w env \<Rightarrow> string \<Rightarrow> 'w st \<Rightarrow> (unit option \<times> 'w st) option" where
  "up_attempt e name s =
     (let (err, s) = UpInterface e name s
      in case err of
           None \<Rightarrow> Some (Some (), s)
         | Some x \<Rightarrow>
             (let (werr, s) = ext (os_Stderr (os e) name x) s
              in case werr of Some _ \<Rightarrow> None | None \<Rightarrow> Some (None, s)))"

definition UpInterfacePoll :: "'w env \<Rightarrow> string \<Rightarrow> 'w st \<Rightarrow> (error option \<times> 'w st) option" where
  "UpInterfacePoll e name s =
     (let (start, s) = ext (os_Mono (os e)) s
      in do { (r, s) \<leftarrow> poll e interfaceSettleDeadline interfaceSettleWaitTime start (up_attempt e name) s;
              Some (case r of Some _ \<Rightarrow> None | None \<Rightarrow> Some (Errorf ''Interface was not found after setting time''), s) })"

section \<open>Frame: the \<^verbatim>\<open>nl\<close> package touches neither files nor client\<close>

lemma ips_on_links_frame [simp, frame]:
  "fs_files (snd (ips_on_links e ns ls f s)) = fs_files s" "fs_dirs (snd (ips_on_links e ns ls f s)) = fs_dirs s"
  "client (snd (ips_on_links e ns ls f s)) = client s"
  by (induction ls arbitrary: f s) (auto simp: case_prod_unfold Let_def split: sum.splits)

lemma getIpsOnHandle_frame [simp, frame]:
  "fs_files (snd (getIpsOnHandle e ns s)) = fs_files s" "fs_dirs (snd (getIpsOnHandle e ns s)) = fs_dirs s"
  "client (snd (getIpsOnHandle e ns s)) = client s"
  by (simp_all add: getIpsOnHandle_def case_prod_unfold Let_def split: sum.splits)

lemma docker_frame [simp, frame]:
  "fs_files (snd (runningDockerContainers e s)) = fs_files s" "fs_dirs (snd (runningDockerContainers e s)) = fs_dirs s"
  "client (snd (runningDockerContainers e s)) = client s"
  "fs_files (snd (dockerNetworkNamespace e c s)) = fs_files s" "fs_dirs (snd (dockerNetworkNamespace e c s)) = fs_dirs s"
  "client (snd (dockerNetworkNamespace e c s)) = client s"
  by (simp_all add: runningDockerContainers_def dockerNetworkNamespace_def case_prod_unfold Let_def
      split: option.splits sum.splits)

lemma dockerNetworkNamespaces_frame [simp, frame]:
  "fs_files (snd (dockerNetworkNamespaces e cs s)) = fs_files s" "fs_dirs (snd (dockerNetworkNamespaces e cs s)) = fs_dirs s"
  "client (snd (dockerNetworkNamespaces e cs s)) = client s"
  by (induction cs arbitrary: s) (simp_all add: case_prod_unfold Let_def)

lemma ips_in_namespace_frame [simp, frame]:
  "fs_files (snd (ips_in_namespace e ns s)) = fs_files s" "fs_dirs (snd (ips_in_namespace e ns s)) = fs_dirs s"
  "client (snd (ips_in_namespace e ns s)) = client s"
  by (simp_all add: ips_in_namespace_def case_prod_unfold Let_def split: sum.splits)

lemma ips_in_namespaces_frame [simp, frame]:
  "fs_files (snd (ips_in_namespaces e nss f s)) = fs_files s" "fs_dirs (snd (ips_in_namespaces e nss f s)) = fs_dirs s"
  "client (snd (ips_in_namespaces e nss f s)) = client s"
  by (induction nss arbitrary: f s) (simp_all add: case_prod_unfold Let_def)

lemma netns_paths_frame [simp, frame]:
  "fs_files (snd (netns_paths e s)) = fs_files s" "fs_dirs (snd (netns_paths e s)) = fs_dirs s"
  "client (snd (netns_paths e s)) = client s"
  by (simp_all add: netns_paths_def case_prod_unfold Let_def split: sum.splits)

lemma GetIPs_frame [simp, frame]:
  "fs_files (snd (GetIPs e s)) = fs_files s" "fs_dirs (snd (GetIPs e s)) = fs_dirs s"
  "client (snd (GetIPs e s)) = client s"
  by (simp_all add: GetIPs_def case_prod_unfold Let_def split: option.splits sum.splits)

lemma link_ops_frame [simp, frame]:
  "fs_files (snd (UpInterface e n s)) = fs_files s" "fs_dirs (snd (UpInterface e n s)) = fs_dirs s"
  "client (snd (UpInterface e n s)) = client s"
  "fs_files (snd (GetMtu e n s)) = fs_files s" "fs_dirs (snd (GetMtu e n s)) = fs_dirs s"
  "client (snd (GetMtu e n s)) = client s"
  "fs_files (snd (SetMtu e n m s)) = fs_files s" "fs_dirs (snd (SetMtu e n m s)) = fs_dirs s"
  "client (snd (SetMtu e n m s)) = client s"
  by (simp_all add: UpInterface_def GetMtu_def SetMtu_def case_prod_unfold Let_def split: sum.splits)

section \<open>Polling ends\<close>

text \<open>A monotonic clock that sleeping advances: \<open>clk\<close> is the time of a world. An outside call
  \<open>ticks\<close> when it does not turn the clock back.\<close>

definition mono_clock :: "'w env \<Rightarrow> ('w \<Rightarrow> int) \<Rightarrow> bool" where
  "mono_clock e clk =
     ((\<forall>w. clk w \<le> fst (os_Mono (os e) w) \<and> fst (os_Mono (os e) w) \<le> clk (snd (os_Mono (os e) w))) \<and>
      (\<forall>d w. 0 \<le> d \<longrightarrow> clk w + d \<le> clk (os_Sleep (os e) d w)))"

definition ticks :: "('w \<Rightarrow> int) \<Rightarrow> ('w \<Rightarrow> 'a \<times> 'w) \<Rightarrow> bool" where
  "ticks clk f = (\<forall>w. clk w \<le> clk (snd (f w)))"

lemma ticks_ext: "ticks clk f \<Longrightarrow> clk (world s) \<le> clk (world (snd (ext f s)))"
  by (simp add: ticks_def ext_def)

lemma poll_returns:
  assumes clock: "mono_clock e clk" and wait: "0 < wait"
    and body: "\<And>s. \<exists>r s'. body s = Some (r, s') \<and> (r = None \<longrightarrow> clk (world s) \<le> clk (world s'))"
  shows "\<exists>r s'. poll e D wait start body s = Some (r, s') \<and> (r = None \<longrightarrow> start + D < clk (world s'))"
proof (induction "nat (start + D + 1 - clk (world s))" arbitrary: s rule: less_induct)
  case less
  let ?m = "ext (os_Mono (os e)) s"
  have m: "clk (world s) \<le> fst ?m" "fst ?m \<le> clk (world (snd ?m))"
    using clock by (simp_all add: mono_clock_def ext_def)
  obtain r s1 where b: "body (snd ?m) = Some (r, s1)" "r = None \<Longrightarrow> clk (world (snd ?m)) \<le> clk (world s1)"
    using body by blast
  show ?case
  proof (cases "D < fst ?m - start")
    case True
    with m show ?thesis by (subst poll.simps) (simp add: case_prod_unfold Let_def)
  next
    case False
    show ?thesis
    proof (cases r)
      case None
      let ?s = "time_Sleep e wait s1"
      have "clk (world s1) + wait \<le> clk (world ?s)"
        using clock wait by (simp add: mono_clock_def time_Sleep_def)
      with m b(2) None wait False have "nat (start + D + 1 - clk (world ?s)) < nat (start + D + 1 - clk (world s))"
        by linarith
      from less [OF this] False b(1) None show ?thesis
        by (subst poll.simps) (simp add: case_prod_unfold Let_def)
    next
      case (Some v)
      with False b(1) show ?thesis by (subst poll.simps) (simp add: case_prod_unfold Let_def)
    qed
  qed
qed

lemmas poll_induct = poll.raw_induct [rotated, consumes 1, case_names step]

text \<open>What the loop returns, its body returned.\<close>

lemma poll_result:
  "poll e D wait start body s = Some y \<Longrightarrow> fst y = Some v \<Longrightarrow> \<exists>s1. body s1 = Some (Some v, snd y)"
proof (induction rule: poll_induct)
  case (step rec e D wait start body s y)
  let ?s = "snd (ext (os_Mono (os e)) s)"
  from step(2,3) obtain r s1 where b: "body ?s = Some (r, s1)"
    and y: "(case r of Some u \<Rightarrow> Some (Some u, s1) | None \<Rightarrow> rec e D wait start body (time_Sleep e wait s1)) = Some y"
    by (auto simp: case_prod_unfold Let_def bind_eq_Some_conv cong: option.case_cong split: if_splits)
  show ?case
  proof (cases r)
    case None
    with y step(1) step(3) show ?thesis by auto
  next
    case (Some u)
    with y b step(3) show ?thesis by auto
  qed
qed

text \<open>A loop that ran to its deadline ended after it.\<close>

lemma poll_late:
  "poll e D wait start body s = Some y \<Longrightarrow> mono_clock e clk \<Longrightarrow> fst y = None \<Longrightarrow> start + D < clk (world (snd y))"
proof (induction rule: poll_induct)
  case (step rec e D wait start body s y)
  let ?m = "ext (os_Mono (os e)) s"
  have m: "fst ?m \<le> clk (world (snd ?m))" using step.prems(1) by (simp add: mono_clock_def ext_def)
  show ?case
  proof (cases "D < fst ?m - start")
    case True
    with step(2) m show ?thesis by (auto simp: case_prod_unfold Let_def)
  next
    case False
    with step(2) obtain r s1 where "body (snd ?m) = Some (r, s1)"
      and y: "(case r of Some u \<Rightarrow> Some (Some u, s1) | None \<Rightarrow> rec e D wait start body (time_Sleep e wait s1)) = Some y"
      by (auto simp: case_prod_unfold Let_def bind_eq_Some_conv cong: option.case_cong)
    with step(1) step.prems show ?thesis by (cases r) auto
  qed
qed

text \<open>An invariant of the loop, and what the body ensures of a value it returns with.\<close>

lemma poll_pres2:
  assumes "poll e D wait start body s = Some (r, s')" and "G s"
    and "\<And>s r s'. body s = Some (r, s') \<Longrightarrow> G s \<Longrightarrow> G s' \<and> Q r s'" and "\<And>s. Q None s"
    and "\<And>s d. G s \<Longrightarrow> G (time_Sleep e d s)" and "\<And>s. G s \<Longrightarrow> G (snd (ext (os_Mono (os e)) s))"
  shows "G s' \<and> Q r s'"
proof -
  have "poll e D wait start body s = Some y \<Longrightarrow> G s \<Longrightarrow>
      (\<And>s r s'. body s = Some (r, s') \<Longrightarrow> G s \<Longrightarrow> G s' \<and> Q r s') \<Longrightarrow>
      (\<And>s d. G s \<Longrightarrow> G (time_Sleep e d s)) \<Longrightarrow> (\<And>s. G s \<Longrightarrow> G (snd (ext (os_Mono (os e)) s))) \<Longrightarrow>
      G (snd y) \<and> Q (fst y) (snd y)" for y
  proof (induction rule: poll_induct)
    case (step rec e D wait start body s y)
    let ?s = "snd (ext (os_Mono (os e)) s)"
    have s: "G ?s" using step.prems(1,4) by blast
    show ?case
    proof (cases "D < fst (ext (os_Mono (os e)) s) - start")
      case True
      with step(2) s assms(4) show ?thesis by (auto simp: case_prod_unfold Let_def)
    next
      case False
      with step(2) obtain r s1 where b: "body ?s = Some (r, s1)"
        and y: "(case r of Some u \<Rightarrow> Some (Some u, s1) | None \<Rightarrow> rec e D wait start body (time_Sleep e wait s1)) = Some y"
        by (auto simp: case_prod_unfold Let_def bind_eq_Some_conv cong: option.case_cong)
      have s1: "G s1" "Q r s1" using step.prems(2) [OF b s] by auto
      show ?thesis
      proof (cases r)
        case None
        with y step(1) [OF _ step.prems(3) [OF s1(1)] step.prems(2-4)] show ?thesis by simp
      next
        case (Some u)
        with y s1 show ?thesis by auto
      qed
    qed
  qed
  from this [OF assms(1,2) assms(3) assms(5,6)] show ?thesis by simp
qed

lemma poll_pres:
  assumes "poll e D wait start body s = Some y" and "P s"
    and "\<And>s r s'. body s = Some (r, s') \<Longrightarrow> P s \<Longrightarrow> P s'"
    and "\<And>s d. P s \<Longrightarrow> P (time_Sleep e d s)" and "\<And>s. P s \<Longrightarrow> P (snd (ext (os_Mono (os e)) s))"
  shows "P (snd y)"
proof -
  obtain r s' where y: "y = (r, s')" by fastforce
  show ?thesis
    using poll_pres2 [where G = P and Q = "\<lambda>_ _. True", OF assms(1) [unfolded y] assms(2)] assms(3-5) y by simp
qed

lemma UpInterface_clock:
  assumes "\<And>p n. ticks clk (nl_LinkByName (nl e) p n)" and "\<And>l. ticks clk (nl_LinkSetUp (nl e) l)"
  shows "clk (world s) \<le> clk (world (snd (UpInterface e name s)))"
proof -
  let ?l = "ext (nl_LinkByName (nl e) [] name) s"
  note le = ticks_ext [OF assms(1), of s "[]" name] ticks_ext [OF assms(2), of "snd ?l"]
  show ?thesis
  proof (cases "fst ?l")
    case (Inl err)
    with le(1) show ?thesis by (simp add: UpInterface_def case_prod_unfold Let_def)
  next
    case (Inr link)
    with le(1) le(2) [of link] show ?thesis by (simp add: UpInterface_def case_prod_unfold Let_def)
  qed
qed

lemma up_attempt_run:
  assumes "up_attempt e name s = Some (r, s')"
  shows "fs_files s' = fs_files s" "fs_dirs s' = fs_dirs s" "client s' = client s"
    and "r \<noteq> None \<Longrightarrow> UpInterface e name s = (None, s')"
  using assms link_ops_frame(1-3) [of e name s]
  by (auto simp: up_attempt_def case_prod_unfold Let_def prod_eq_iff split: option.splits)

lemma UpInterfacePoll_run:
  assumes "UpInterfacePoll e name s = Some (r, s')"
  obtains q where "poll e interfaceSettleDeadline interfaceSettleWaitTime (fst (ext (os_Mono (os e)) s)) (up_attempt e name)
      (snd (ext (os_Mono (os e)) s)) = Some (q, s')" and "r = None \<longleftrightarrow> q \<noteq> None"
  using assms by (auto simp: UpInterfacePoll_def case_prod_unfold Let_def bind_eq_Some_conv split: option.splits)

lemma UpInterfacePoll_frame [frame]:
  assumes "UpInterfacePoll e name s = Some (r, s')"
  shows "fs_files s' = fs_files s \<and> fs_dirs s' = fs_dirs s \<and> client s' = client s"
proof (rule UpInterfacePoll_run [OF assms])
  let ?P = "\<lambda>s'. fs_files s' = fs_files s \<and> fs_dirs s' = fs_dirs s \<and> client s' = client s"
  fix q assume p: "poll e interfaceSettleDeadline interfaceSettleWaitTime (fst (ext (os_Mono (os e)) s)) (up_attempt e name)
      (snd (ext (os_Mono (os e)) s)) = Some (q, s')"
  have "?P (snd (q, s'))"
    by (rule poll_pres [OF p]) (auto dest: up_attempt_run(1-3))
  then show ?thesis by simp
qed

lemma demo_mono_clock: "mono_clock demo (\<lambda>w. d_sec w * ns_per_s)"
  unfolding mono_clock_def
proof (intro conjI allI impI)
  fix d :: int and w :: dw assume "0 \<le> d"
  have "d \<le> (d + ns_per_s - 1) div ns_per_s * ns_per_s" by (simp add: ns_per_s_def)
  then show "d_sec w * ns_per_s + d \<le> d_sec (os_Sleep (os demo) d w) * ns_per_s"
    by (simp add: demo_def demo_os_def distrib_right)
qed (simp_all add: demo_def demo_os_def)

text \<open>Standard error can be written to.\<close>

definition stderr_ok :: "'w env \<Rightarrow> bool" where
  "stderr_ok e = (\<forall>name x w. fst (os_Stderr (os e) name x w) = None)"

lemma UpInterfacePoll_total:
  assumes "mono_clock e clk" and "\<And>p n. ticks clk (nl_LinkByName (nl e) p n)" and "\<And>l. ticks clk (nl_LinkSetUp (nl e) l)"
    and "\<And>n x. ticks clk (os_Stderr (os e) n x)" and "\<And>x w. fst (os_Stderr (os e) name x w) = None"
  shows "\<exists>r s'. UpInterfacePoll e name s = Some (r, s')"
proof -
  have "\<exists>r s'. up_attempt e name s = Some (r, s') \<and> (r = None \<longrightarrow> clk (world s) \<le> clk (world s'))" for s
  proof (cases "fst (UpInterface e name s)")
    case None
    then show ?thesis by (simp add: up_attempt_def case_prod_unfold Let_def)
  next
    case (Some x)
    let ?s = "snd (UpInterface e name s)"
    have "clk (world s) \<le> clk (world (snd (ext (os_Stderr (os e) name x) ?s)))"
      using UpInterface_clock [OF assms(2,3), of s name] ticks_ext [OF assms(4), of ?s name x] by linarith
    moreover have "fst (ext (os_Stderr (os e) name x) ?s) = None" using assms(5) by (simp add: ext_def)
    ultimately show ?thesis using Some by (simp add: up_attempt_def case_prod_unfold Let_def)
  qed
  then obtain r s' where "poll e interfaceSettleDeadline interfaceSettleWaitTime (fst (ext (os_Mono (os e)) s))
      (up_attempt e name) (snd (ext (os_Mono (os e)) s)) = Some (r, s')"
    using poll_returns [OF assms(1), of interfaceSettleWaitTime "up_attempt e name"]
    by (metis interfaceSettleWaitTime_def zero_less_numeral)
  then show ?thesis by (simp add: UpInterfacePoll_def case_prod_unfold Let_def)
qed

text \<open>C23: bringing an interface up ends. With a monotonic clock that the calls inside the loop do not turn
  back, \<^verbatim>\<open>UpInterfacePoll\<close> returns: without an error only when an attempt brought the interface up, and with one
  only after more than the 20 seconds of its deadline. It can panic only where standard error may refuse the
  report of a failed attempt, and it never waits for ever.\<close>

theorem UpInterfacePoll_returns:
  assumes "mono_clock e clk" and "\<And>p n. ticks clk (nl_LinkByName (nl e) p n)" and "\<And>l. ticks clk (nl_LinkSetUp (nl e) l)"
    and "\<And>n x. ticks clk (os_Stderr (os e) n x)"
  shows "case UpInterfacePoll e name s of
      None \<Rightarrow> \<exists>x w. fst (os_Stderr (os e) name x w) \<noteq> None
    | Some (None, s') \<Rightarrow> \<exists>s1. UpInterface e name s1 = (None, s')
    | Some (Some err, s') \<Rightarrow> clk (world s) + 20 * ns_per_s < clk (world s')"
proof (cases "UpInterfacePoll e name s")
  case None
  have "\<not> (\<forall>x w. fst (os_Stderr (os e) name x w) = None)"
  proof
    assume "\<forall>x w. fst (os_Stderr (os e) name x w) = None"
    then have "\<And>x w. fst (os_Stderr (os e) name x w) = None" by blast
    from UpInterfacePoll_total [OF assms this, of s] None show False by simp
  qed
  with None show ?thesis by simp
next
  case (Some y)
  let ?m = "ext (os_Mono (os e)) s"
  obtain r s' where y: "y = (r, s')" by fastforce
  obtain q where q: "poll e interfaceSettleDeadline interfaceSettleWaitTime (fst ?m) (up_attempt e name) (snd ?m) = Some (q, s')"
      "r = None \<longleftrightarrow> q \<noteq> None"
    using Some unfolding y by (rule UpInterfacePoll_run)
  show ?thesis
  proof (cases r)
    case None
    then obtain s1 where "up_attempt e name s1 = Some (q, s')" "q \<noteq> None" using q poll_result [OF q(1)] by auto
    from up_attempt_run(4) [OF this] None show ?thesis using Some y by auto
  next
    case (Some err)
    have "clk (world s) \<le> fst ?m" using assms(1) by (simp add: mono_clock_def ext_def)
    moreover have "fst ?m + interfaceSettleDeadline < clk (world s')"
      using poll_late [OF q(1) assms(1)] Some q(2) by (cases q) auto
    ultimately show ?thesis
      using Some y \<open>UpInterfacePoll e name s = Some y\<close> by (simp add: interfaceSettleDeadline_def ns_per_s_def)
  qed
qed

theorem UpInterfacePoll_returns_witness:
  "\<exists>r s'. UpInterfacePoll demo ''eth1'' (demo_s\<lparr>world := demo_w\<lparr>d_up := 3\<rparr>\<rparr>) = Some (r, s') \<and>
    (case r of None \<Rightarrow> \<exists>s1. UpInterface demo ''eth1'' s1 = (None, s')
     | Some err \<Rightarrow> d_sec demo_w * ns_per_s + 20 * ns_per_s < d_sec (world s') * ns_per_s)"
proof -
  let ?s = "demo_s\<lparr>world := demo_w\<lparr>d_up := 3\<rparr>\<rparr>"
  have "\<And>p n. ticks (\<lambda>w. d_sec w * ns_per_s) (nl_LinkByName (nl demo) p n)"
    and "\<And>l. ticks (\<lambda>w. d_sec w * ns_per_s) (nl_LinkSetUp (nl demo) l)"
    and "\<And>n x. ticks (\<lambda>w. d_sec w * ns_per_s) (os_Stderr (os demo) n x)"
    by (simp_all add: ticks_def demo_def demo_nl_def demo_os_def)
  from UpInterfacePoll_returns [OF demo_mono_clock this, of "''eth1''" ?s]
  show ?thesis
    by (cases "UpInterfacePoll demo ''eth1'' ?s") (auto simp: demo_def demo_os_def split: option.splits)
qed

end
