(* ===== verification/Registry.thy ===== *)
theory Registry
  imports Metadata Nl
begin

text \<open>
  \<^verbatim>\<open>aws/registry.go\<close>: the node's registry of free addresses, a JSON file that maps the text of an
  address to the time it was released. Every \<^verbatim>\<open>Registry\<close> of the program is made by \<^verbatim>\<open>&Registry{}\<close>,
  so its path is always \<^verbatim>\<open>registryPath()\<close>; its mutex has no effect within the single-threaded
  commands, which exclude each other by the lock file. The theory ends with the registry as an
  interface: a locale with the laws that the allocator and the plugin rely on, interpreted by the
  operations of the model.
\<close>

section \<open>Contents\<close>

record registryIP =
  riReleasedOn :: gotime

text \<open>An entry is a pointer: \<open>None\<close> is an entry whose JSON is \<^verbatim>\<open>null\<close>.\<close>

record registryContents =
  rcSchemaVersion :: int
  rcIPs :: "(string \<times> registryIP option) list"

definition registrySchemaVersion :: int where
  "registrySchemaVersion = 1"

definition defaultRegistry :: registryContents where
  "defaultRegistry = \<lparr>rcSchemaVersion = registrySchemaVersion, rcIPs = []\<rparr>"

definition registryIP_field :: "string \<Rightarrow> json \<Rightarrow> registryIP \<Rightarrow> registryIP option" where
  "registryIP_field k v x =
     (if eq_fold k ''released_on''
      then (case UnmarshalJSON v of Inl _ \<Rightarrow> None | Inr t \<Rightarrow> Some (x\<lparr>riReleasedOn := t\<rparr>))
      else Some x)"

definition decode_registryIP :: "json \<Rightarrow> registryIP option option" where
  "decode_registryIP js =
     (if js = JNull then Some None
      else map_option Some (decode_struct registryIP_field js \<lparr>riReleasedOn = zero_time\<rparr>))"

text \<open>The \<^verbatim>\<open>ips\<close> map: \<^verbatim>\<open>null\<close> makes it \<^verbatim>\<open>nil\<close>, an object adds its members.\<close>

definition decode_ips ::
    "json \<Rightarrow> (string \<times> registryIP option) list option \<Rightarrow> (string \<times> registryIP option) list option option" where
  "decode_ips js m =
     (case js of
        JNull \<Rightarrow> Some None
      | JObj ms \<Rightarrow>
          map_option Some (decode_members (\<lambda>k v m. map_option (\<lambda>r. map_put k r m) (decode_registryIP v)) ms
                             (case m of None \<Rightarrow> [] | Some m \<Rightarrow> m))
      | _ \<Rightarrow> None)"

definition registry_field ::
    "string \<Rightarrow> json \<Rightarrow> int \<times> (string \<times> registryIP option) list option \<Rightarrow>
     (int \<times> (string \<times> registryIP option) list option) option" where
  "registry_field k v c =
     (if eq_fold k ''schema_version'' then map_option (\<lambda>i. (i, snd c)) (decode_int v (fst c))
      else if eq_fold k ''ips'' then map_option (Pair (fst c)) (decode_ips v (snd c))
      else Some c)"

text \<open>What \<^verbatim>\<open>load\<close> makes of the text of an existing file (\<open>None\<close>: not a JSON document).\<close>

definition read_registry :: "json option \<Rightarrow> registryContents" where
  "read_registry doc =
     (case Option.bind doc (\<lambda>js. decode_struct registry_field js (registrySchemaVersion, Some [])) of
        None \<Rightarrow> defaultRegistry
      | Some (version, ips) \<Rightarrow>
          if version \<noteq> registrySchemaVersion then defaultRegistry
          else (case ips of None \<Rightarrow> defaultRegistry
                | Some m \<Rightarrow> \<lparr>rcSchemaVersion = version, rcIPs = m\<rparr>))"

definition encode_registryIP :: "registryIP option \<Rightarrow> json" where
  "encode_registryIP r =
     (case r of None \<Rightarrow> JNull | Some x \<Rightarrow> JObj [(''released_on'', MarshalJSON (riReleasedOn x))])"

definition encode_registry :: "registryContents \<Rightarrow> json" where
  "encode_registry rc =
     JObj [(''schema_version'', JNum (rcSchemaVersion rc)),
           (''ips'', JObj (map (\<lambda>(k, r). (k, encode_registryIP r)) (rcIPs rc)))]"

section \<open>The file\<close>

definition registryPath :: "'w env \<Rightarrow> string" where
  "registryPath e = run_path e ''cni-ipvlan-vpc-k8s''"

definition registry_json :: "'w env \<Rightarrow> string" where
  "registry_json e = path_Join (registryPath e) ''registry.json''"

definition ensurePath :: "'w env \<Rightarrow> 'w st \<Rightarrow> string res \<times> 'w st" where
  "ensurePath e s =
     (let (info, s) = os_Stat e (registryPath e) s
      in if info = Inr True then (Inr (registry_json e), s)
         else (let (err, s) = os_MkdirAll e (registryPath e) s
               in case err of Some x \<Rightarrow> (Inl x, s) | None \<Rightarrow> (Inr (registry_json e), s)))"

definition save :: "'w env \<Rightarrow> registryContents \<Rightarrow> 'w st \<Rightarrow> error option \<times> 'w st" where
  "save e rc s =
     (let (r, s) = ensurePath e s
      in case r of
           Inl err \<Rightarrow> (Some err, s)
         | Inr rpath \<Rightarrow>
             (let (err, s) = os_OpenFile e rpath s
              in case err of
                   Some x \<Rightarrow> (Some x, s)
                 | None \<Rightarrow> json_Encode e rpath (encode_registry (rc\<lparr>rcSchemaVersion := registrySchemaVersion\<rparr>)) s))"

text \<open>\<^verbatim>\<open>FindFreeIPsAtIndex(0, false)\<close>, the only call of \<^verbatim>\<open>aws/freeip.go\<close> that \<^verbatim>\<open>load\<close> makes; the
  whole function, which also writes the registry, is in the theory \<open>FreeIP\<close>.\<close>

definition free_of_interface :: "ip list \<Rightarrow> Interface \<Rightarrow> AllocationResult list" where
  "free_of_interface assigned intf =
     map (\<lambda>x. \<lparr>arIP = x, arInterface = intf\<rparr>) (filter (\<lambda>x. x \<notin> set assigned) (ifIPv4s intf))"

definition scan_free :: "int \<Rightarrow> ip list \<Rightarrow> Interface list \<Rightarrow> AllocationResult list" where
  "scan_free index assigned interfaces =
     concat (map (free_of_interface assigned) (filter (\<lambda>i. \<not> ifNumber i < index) interfaces))"

definition FindFreeIPsAtIndex0 :: "'w env \<Rightarrow> 'w st \<Rightarrow> (AllocationResult list \<times> error option) \<times> 'w st" where
  "FindFreeIPsAtIndex0 e s =
     (let (r, s) = GetInterfaces e s
      in case r of
           Inl err \<Rightarrow> (([], Some err), s)
         | Inr interfaces \<Rightarrow>
             (let (r, s) = GetIPs e s
              in case r of
                   Inl err \<Rightarrow> (([], Some err), s)
                 | Inr assigned \<Rightarrow> ((scan_free 0 (map biIP assigned) interfaces, None), s)))"

definition epoch_entry :: "registryIP option" where
  "epoch_entry = Some \<lparr>riReleasedOn = zero_time\<rparr>"

definition load :: "'w env \<Rightarrow> 'w st \<Rightarrow> registryContents res \<times> 'w st" where
  "load e s =
     (let (r, s) = ensurePath e s
      in case r of
           Inl err \<Rightarrow> (Inl err, s)
         | Inr rpath \<Rightarrow>
             (let (file, s) = os_Open e rpath s
              in case file of
                   Inl err \<Rightarrow>
                     if err = ErrNotExist then
                       (let ((free, err), s) = FindFreeIPsAtIndex0 e s
                        in if err = None \<or> free \<noteq> [] then
                             (let contents = defaultRegistry\<lparr>rcIPs :=
                                    fold (\<lambda>a. map_put (ip_String (os_txt6 (os e)) (arIP a)) epoch_entry) free []\<rparr>;
                                  (err, s) = save e contents s
                              in case err of Some x \<Rightarrow> (Inl x, s) | None \<Rightarrow> (Inr contents, s))
                           else (Inr defaultRegistry, s))
                     else (Inl err, s)
                 | Inr doc \<Rightarrow> (Inr (read_registry doc), s)))"

section \<open>Operations\<close>

definition ip_key :: "'w env \<Rightarrow> ip \<Rightarrow> string" where
  "ip_key e x = ip_String (os_txt6 (os e)) x"

definition TrackIPAtEpoch :: "'w env \<Rightarrow> ip \<Rightarrow> 'w st \<Rightarrow> error option \<times> 'w st" where
  "TrackIPAtEpoch e x s =
     (let (r, s) = load e s
      in case r of
           Inl err \<Rightarrow> (Some err, s)
         | Inr contents \<Rightarrow> save e (contents\<lparr>rcIPs := map_put (ip_key e x) epoch_entry (rcIPs contents)\<rparr>) s)"

definition TrackIP :: "'w env \<Rightarrow> ip \<Rightarrow> 'w st \<Rightarrow> error option \<times> 'w st" where
  "TrackIP e x s =
     (let (r, s) = load e s
      in case r of
           Inl err \<Rightarrow> (Some err, s)
         | Inr contents \<Rightarrow>
             (let (now, s) = ext (os_Now (os e)) s
              in save e (contents\<lparr>rcIPs := map_put (ip_key e x) (Some \<lparr>riReleasedOn = now\<rparr>) (rcIPs contents)\<rparr>) s))"

definition ForgetIP :: "'w env \<Rightarrow> ip \<Rightarrow> 'w st \<Rightarrow> error option \<times> 'w st" where
  "ForgetIP e x s =
     (let (r, s) = load e s
      in case r of
           Inl err \<Rightarrow> (Some err, s)
         | Inr contents \<Rightarrow> save e (contents\<lparr>rcIPs := map_del (ip_key e x) (rcIPs contents)\<rparr>) s)"

definition HasIP :: "'w env \<Rightarrow> ip \<Rightarrow> 'w st \<Rightarrow> bool res \<times> 'w st" where
  "HasIP e x s =
     (let (r, s) = load e s
      in case r of
           Inl err \<Rightarrow> (Inl err, s)
         | Inr contents \<Rightarrow> (Inr (map_of (rcIPs contents) (ip_key e x) \<noteq> None), s))"

text \<open>The loop of \<^verbatim>\<open>TrackedBefore\<close> over the keys in iteration order; a \<^verbatim>\<open>nil\<close> entry panics.\<close>

fun tracked_before :: "txt6 \<Rightarrow> gotime \<Rightarrow> (string \<times> registryIP option) list \<Rightarrow> string list \<Rightarrow> ip list option" where
  "tracked_before t6 t m [] = Some []"
| "tracked_before t6 t m (k # ks) =
     (case map_of m k of
        Some (Some entry) \<Rightarrow>
          do { rest \<leftarrow> tracked_before t6 t m ks;
               Some (if time_Before (riReleasedOn entry) t
                     then (case ParseIP t6 k of None \<Rightarrow> rest | Some x \<Rightarrow> x # rest)
                     else rest) }
      | _ \<Rightarrow> None)"

definition TrackedBefore :: "'w env \<Rightarrow> gotime \<Rightarrow> 'w st \<Rightarrow> (ip list res \<times> 'w st) option" where
  "TrackedBefore e t s =
     (let (r, s) = load e s
      in case r of
           Inl err \<Rightarrow> Some (Inl err, s)
         | Inr contents \<Rightarrow>
             do { returned \<leftarrow> tracked_before (os_txt6 (os e)) t (rcIPs contents)
                                 (os_range (os e) (map fst (rcIPs contents)));
                  Some (Inr returned, s) })"

definition Clear :: "'w env \<Rightarrow> 'w st \<Rightarrow> error option \<times> 'w st" where
  "Clear e s =
     (let (r, s) = ensurePath e s
      in case r of
           Inl err \<Rightarrow> (Some err, s)
         | Inr rpath \<Rightarrow>
             (let (err, s) = os_Remove e rpath s
              in if err = Some ErrNotExist then (None, s) else (err, s)))"

text \<open>\<^verbatim>\<open>List\<close> keeps a \<^verbatim>\<open>nil\<close> address (\<open>None\<close>) for a key that is not the text of an address.\<close>

definition registry_List :: "'w env \<Rightarrow> 'w st \<Rightarrow> ip option list res \<times> 'w st" where
  "registry_List e s =
     (let (r, s) = load e s
      in case r of
           Inl err \<Rightarrow> (Inl err, s)
         | Inr contents \<Rightarrow>
             (Inr (map (ParseIP (os_txt6 (os e))) (os_range (os e) (map fst (rcIPs contents)))), s))"

text \<open>\<^verbatim>\<open>Jitter\<close>: \<open>scaled\<close> is the floating point product \<^verbatim>\<open>int64(float64(d) * pct)\<close>.
  \<^verbatim>\<open>rand.Int63n\<close> panics when its argument is not positive.\<close>

definition Jitter :: "'w env \<Rightarrow> int \<Rightarrow> int \<Rightarrow> 'w st \<Rightarrow> (int \<times> 'w st) option" where
  "Jitter e d scaled s =
     (if scaled \<le> 0 then None
      else (let (jitter, s) = ext (os_Int63n (os e) scaled) s in Some (wrap64 (d + jitter), s)))"

section \<open>Reading back what was written\<close>

definition norm_entry :: "registryIP option \<Rightarrow> registryIP option" where
  "norm_entry r = map_option (\<lambda>x. x\<lparr>riReleasedOn := trunc_s (riReleasedOn x)\<rparr>) r"

text \<open>Well-formed entries: each address once, no \<^verbatim>\<open>nil\<close> entry, times that the file can carry.\<close>

definition wf_entries :: "(string \<times> registryIP option) list \<Rightarrow> bool" where
  "wf_entries m =
     (distinct (map fst m) \<and> (\<forall>(k, r) \<in> set m. \<exists>x. r = Some x \<and> representable (riReleasedOn x)))"

definition norm_entries :: "(string \<times> registryIP option) list \<Rightarrow> (string \<times> registryIP option) list" where
  "norm_entries m = map (\<lambda>(k, r). (k, norm_entry r)) m"

lemma eq_fold_registry [simp]:
  "eq_fold ''released_on'' ''released_on''" "eq_fold ''schema_version'' ''schema_version''"
  "\<not> eq_fold ''ips'' ''schema_version''" "eq_fold ''ips'' ''ips''"
  by code_simp+

lemma decode_encode_registryIP:
  "representable (riReleasedOn x) \<Longrightarrow> decode_registryIP (encode_registryIP (Some x)) = Some (norm_entry (Some x))"
  using jt.dec_enc
  by (simp add: decode_registryIP_def encode_registryIP_def decode_struct_def registryIP_field_def norm_entry_def)

lemma read_encode_registry:
  assumes "wf_entries (rcIPs rc)" and "rcSchemaVersion rc = registrySchemaVersion"
  shows "read_registry (Some (encode_registry rc)) = rc\<lparr>rcIPs := norm_entries (rcIPs rc)\<rparr>"
proof -
  let ?m = "rcIPs rc"
  let ?fld = "\<lambda>k v m. map_option (\<lambda>r. map_put k r m) (decode_registryIP v)"
  have "decode_members ?fld (map (\<lambda>(k, r). (k, encode_registryIP r)) ?m) [] =
      Some (fold (\<lambda>(k, r). map_put k (norm_entry r)) ?m [])"
    using assms(1) by (intro decode_members_put) (auto simp: wf_entries_def decode_encode_registryIP)
  also have "fold (\<lambda>(k, r). map_put k (norm_entry r)) ?m [] = norm_entries ?m"
    using fold_map_put [of ?m "[]" norm_entry] assms(1) by (simp add: wf_entries_def norm_entries_def)
  finally have "decode_ips (JObj (map (\<lambda>(k, r). (k, encode_registryIP r)) ?m)) (Some []) = Some (Some (norm_entries ?m))"
    by (simp add: decode_ips_def)
  then show ?thesis
    using assms(2)
    by (simp add: read_registry_def encode_registry_def decode_struct_def registry_field_def
        registrySchemaVersion_def in_int64_def)
qed

lemma wf_put:
  "wf_entries m \<Longrightarrow> representable (riReleasedOn x) \<Longrightarrow> wf_entries (map_put k (Some x) m)"
  using distinct_put by (auto simp: wf_entries_def dest!: set_put)

lemma wf_del: "wf_entries m \<Longrightarrow> wf_entries (map_del k m)"
  using distinct_del by (auto simp: wf_entries_def dest!: set_del)

lemma wf_norm: "wf_entries m \<Longrightarrow> wf_entries (norm_entries m)"
  by (auto simp: wf_entries_def norm_entries_def norm_entry_def jt.okt_norm comp_def case_prod_unfold)

lemma map_of_norm: "map_of (norm_entries m) k = map_option norm_entry (map_of m k)"
  by (simp add: norm_entries_def map_of_map)

section \<open>The abstract view\<close>

text \<open>The registry as a map from the text of an address to the time of its release.\<close>

definition view_of :: "(string \<times> registryIP option) list \<Rightarrow> string \<Rightarrow> gotime option" where
  "view_of m k = (case map_of m k of Some (Some r) \<Rightarrow> Some (riReleasedOn r) | _ \<Rightarrow> None)"

definition registry_view :: "'w env \<Rightarrow> 'w st \<Rightarrow> string \<Rightarrow> gotime option" where
  "registry_view e s k =
     (case fs_files s (registry_json e) of
        None \<Rightarrow> None | Some doc \<Rightarrow> view_of (rcIPs (read_registry doc)) k)"

text \<open>A working registry: the directory and the file exist, and the file's entries are well-formed
  and of whole seconds, as the program itself writes them.\<close>

definition registry_ok :: "'w env \<Rightarrow> 'w st \<Rightarrow> bool" where
  "registry_ok e s =
     (fs_ok e \<and> clock_ok e \<and> registryPath e \<in> set (fs_dirs s) \<and>
      (\<exists>doc. fs_files s (registry_json e) = Some doc \<and> wf_entries (rcIPs (read_registry doc)) \<and>
             norm_entries (rcIPs (read_registry doc)) = rcIPs (read_registry doc)))"

lemma norm_entry_idem [simp]: "norm_entry (norm_entry r) = norm_entry r"
  by (cases r) (simp_all add: norm_entry_def jt.norm_idem)

lemma norm_entries_idem [simp]: "norm_entries (norm_entries m) = norm_entries m"
  by (simp add: norm_entries_def case_prod_unfold)

lemma view_of_norm: "view_of (norm_entries m) k = map_option trunc_s (view_of m k)"
  by (simp add: view_of_def map_of_norm norm_entry_def split: option.splits)

lemma view_of_put: "view_of (map_put k (Some x) m) = (view_of m)(k \<mapsto> riReleasedOn x)"
  by (rule ext) (simp add: view_of_def)

lemma view_of_del: "view_of (map_del k m) = (view_of m)(k := None)"
  by (rule ext) (simp add: view_of_def)

lemma view_of_has: "wf_entries m \<Longrightarrow> view_of m k \<noteq> None \<longleftrightarrow> map_of m k \<noteq> None"
  by (auto simp: view_of_def wf_entries_def split: option.splits dest!: map_of_SomeD)

lemma ensurePath_ok:
  assumes "fs_ok e" and "registryPath e \<in> set (fs_dirs s)"
  obtains s' where "ensurePath e s = (Inr (registry_json e), s')" and "fs_files s' = fs_files s"
    and "fs_dirs s' = fs_dirs s" and "client s' = client s"
proof -
  have "fst (os_Stat e (registryPath e) s) = Inr True"
    using assms by (simp add: os_Stat_def ext_def fs_okD)
  then show thesis
    by (intro that [of "snd (os_Stat e (registryPath e) s)"]) (simp_all add: ensurePath_def case_prod_unfold)
qed

lemma save_ok:
  assumes "fs_ok e" and "registryPath e \<in> set (fs_dirs s)"
  shows "\<exists>s'. save e rc s = (None, s') \<and> fs_dirs s' = fs_dirs s \<and> client s' = client s \<and>
    fs_files s' = (fs_files s)(registry_json e \<mapsto>
      Some (encode_registry (rc\<lparr>rcSchemaVersion := registrySchemaVersion\<rparr>)))"
proof -
  obtain s1 where "ensurePath e s = (Inr (registry_json e), s1)" "fs_files s1 = fs_files s"
      "fs_dirs s1 = fs_dirs s" "client s1 = client s"
    using ensurePath_ok [OF assms] .
  then show ?thesis
    using assms(1) by (simp add: save_def os_OpenFile_def json_Encode_def ext_def fs_okD)
qed

lemma load_ok:
  assumes "fs_ok e" and "registryPath e \<in> set (fs_dirs s)" and "fs_files s (registry_json e) = Some doc"
  shows "\<exists>s'. load e s = (Inr (read_registry doc), s') \<and> fs_files s' = fs_files s \<and> fs_dirs s' = fs_dirs s \<and>
    client s' = client s"
proof -
  obtain s1 where "ensurePath e s = (Inr (registry_json e), s1)" "fs_files s1 = fs_files s"
      "fs_dirs s1 = fs_dirs s" "client s1 = client s"
    using ensurePath_ok [OF assms(1,2)] .
  then show ?thesis
    using assms(1,3) by (simp add: load_def os_Open_def ext_def fs_okD)
qed

lemma registry_okE:
  assumes "registry_ok e s"
  obtains m where "fs_ok e" and "clock_ok e" and "registryPath e \<in> set (fs_dirs s)"
    and "wf_entries m" and "norm_entries m = m" and "registry_view e s = view_of m"
    and "\<exists>s'. load e s = (Inr \<lparr>rcSchemaVersion = registrySchemaVersion, rcIPs = m\<rparr>, s') \<and>
           fs_files s' = fs_files s \<and> fs_dirs s' = fs_dirs s \<and> client s' = client s"
proof -
  from assms obtain doc where d: "fs_ok e" "clock_ok e" "registryPath e \<in> set (fs_dirs s)"
      "fs_files s (registry_json e) = Some doc" "wf_entries (rcIPs (read_registry doc))"
      "norm_entries (rcIPs (read_registry doc)) = rcIPs (read_registry doc)"
    by (auto simp: registry_ok_def)
  have "rcSchemaVersion (read_registry doc) = registrySchemaVersion"
    by (auto simp: read_registry_def defaultRegistry_def split: option.splits)
  then have "read_registry doc = \<lparr>rcSchemaVersion = registrySchemaVersion, rcIPs = rcIPs (read_registry doc)\<rparr>"
    by simp
  with d load_ok [OF d(1,3,4)] show thesis
    by (intro that [of "rcIPs (read_registry doc)"]) (auto simp: registry_view_def fun_eq_iff)
qed

text \<open>Saving well-formed entries gives a working registry that shows them, cut to whole seconds.\<close>

lemma save_entries:
  assumes "fs_ok e" and "clock_ok e" and "registryPath e \<in> set (fs_dirs s)" and "wf_entries m"
  obtains s' where "save e \<lparr>rcSchemaVersion = v, rcIPs = m\<rparr> s = (None, s')" and "registry_ok e s'"
    and "registry_view e s' = view_of (norm_entries m)" and "client s' = client s"
    and "fs_dirs s' = fs_dirs s" and "\<forall>p. p \<noteq> registry_json e \<longrightarrow> fs_files s' p = fs_files s p"
proof -
  obtain s' where s': "save e \<lparr>rcSchemaVersion = v, rcIPs = m\<rparr> s = (None, s')" "fs_dirs s' = fs_dirs s"
      "client s' = client s"
      "fs_files s' = (fs_files s)(registry_json e \<mapsto>
         Some (encode_registry \<lparr>rcSchemaVersion = registrySchemaVersion, rcIPs = m\<rparr>))"
    using save_ok [OF assms(1,3), of "\<lparr>rcSchemaVersion = v, rcIPs = m\<rparr>"] by auto
  have "read_registry (Some (encode_registry \<lparr>rcSchemaVersion = registrySchemaVersion, rcIPs = m\<rparr>)) =
      \<lparr>rcSchemaVersion = registrySchemaVersion, rcIPs = norm_entries m\<rparr>"
    using read_encode_registry [of "\<lparr>rcSchemaVersion = registrySchemaVersion, rcIPs = m\<rparr>"] assms(4) by simp
  with s' assms that show thesis
    by (simp add: registry_ok_def registry_view_def fun_eq_iff wf_norm)
qed

section \<open>The registry as an interface\<close>

text \<open>Two steps that the callers of the registry share: the synchronisation of one address in
  \<^verbatim>\<open>FindFreeIPsAtIndex\<close> (track it when it is free and unknown, forget it when it is in use), and the
  registration of a new address in \<^verbatim>\<open>AllocateIPsOn\<close> (the flag says whether it was unknown).\<close>

definition sync_ip ::
    "(ip \<Rightarrow> 's \<Rightarrow> bool res \<times> 's) \<Rightarrow> (ip \<Rightarrow> 's \<Rightarrow> error option \<times> 's) \<Rightarrow> (ip \<Rightarrow> 's \<Rightarrow> error option \<times> 's) \<Rightarrow>
     bool \<Rightarrow> ip \<Rightarrow> 's \<Rightarrow> error option \<times> 's" where
  "sync_ip has track forget found x s =
     (let (exists, s) = has x s
      in if exists = Inr False \<and> \<not> found then track x s
         else if found then forget x s
         else (None, s))"

definition claim_ip ::
    "(ip \<Rightarrow> 's \<Rightarrow> bool res \<times> 's) \<Rightarrow> (ip \<Rightarrow> 's \<Rightarrow> error option \<times> 's) \<Rightarrow> ip \<Rightarrow> 's \<Rightarrow> (bool \<times> error option) \<times> 's" where
  "claim_ip has track x s =
     (let (exists, s) = has x s
      in if exists = Inr False then (let (err, s) = track x s in ((True, err), s))
         else ((False, None), s))"

text \<open>Synchronising a list of addresses, up to the first error.\<close>

fun sync_all ::
    "(ip \<Rightarrow> 's \<Rightarrow> bool res \<times> 's) \<Rightarrow> (ip \<Rightarrow> 's \<Rightarrow> error option \<times> 's) \<Rightarrow> (ip \<Rightarrow> 's \<Rightarrow> error option \<times> 's) \<Rightarrow>
     (ip \<Rightarrow> bool) \<Rightarrow> ip list \<Rightarrow> 's \<Rightarrow> error option \<times> 's" where
  "sync_all has track forget used [] s = (None, s)"
| "sync_all has track forget used (x # xs) s =
     (let (err, s) = sync_ip has track forget (used x) x s
      in case err of Some _ \<Rightarrow> (err, s) | None \<Rightarrow> sync_all has track forget used xs s)"

locale ip_registry =
  fixes track :: "ip \<Rightarrow> 's \<Rightarrow> error option \<times> 's"
    and forget :: "ip \<Rightarrow> 's \<Rightarrow> error option \<times> 's"
    and has :: "ip \<Rightarrow> 's \<Rightarrow> bool res \<times> 's"
    and key :: "ip \<Rightarrow> string"
    and view :: "'s \<Rightarrow> string \<Rightarrow> gotime option"
    and ok :: "'s \<Rightarrow> bool"
    and stamp :: "'s \<Rightarrow> gotime"
    and keep :: "'s \<Rightarrow> 'f"
  assumes track_law: "ok s \<Longrightarrow> \<exists>s'. track x s = (None, s') \<and> ok s' \<and> view s' = (view s)(key x \<mapsto> stamp s) \<and> keep s' = keep s"
    and forget_law: "ok s \<Longrightarrow> \<exists>s'. forget x s = (None, s') \<and> ok s' \<and> view s' = (view s)(key x := None) \<and> keep s' = keep s"
    and has_law: "ok s \<Longrightarrow> \<exists>s'. has x s = (Inr (view s (key x) \<noteq> None), s') \<and> ok s' \<and> view s' = view s \<and> keep s' = keep s"
begin

lemma has_after_track:
  assumes "ok s" and "track x s = (r, s1)"
  shows "fst (has y s1) = Inr (key y = key x \<or> view s (key y) \<noteq> None)"
  using track_law [OF assms(1), of x] assms(2) has_law [of s1 y] by auto

lemma has_after_forget:
  assumes "ok s" and "forget x s = (r, s1)"
  shows "fst (has y s1) = Inr (key y \<noteq> key x \<and> view s (key y) \<noteq> None)"
  using forget_law [OF assms(1), of x] assms(2) has_law [of s1 y] by auto

lemma sync_law:
  assumes "ok s"
  shows "\<exists>s'. sync_ip has track forget found x s = (None, s') \<and> ok s' \<and> keep s' = keep s \<and>
    (\<forall>k. k \<noteq> key x \<longrightarrow> view s' k = view s k) \<and>
    (if found then view s' (key x) = None
     else view s' (key x) \<noteq> None \<and> (view s (key x) \<noteq> None \<longrightarrow> view s' (key x) = view s (key x)))"
proof -
  obtain s1 where h: "has x s = (Inr (view s (key x) \<noteq> None), s1)" "ok s1" "view s1 = view s" "keep s1 = keep s"
    using has_law [OF assms, of x] by blast
  show ?thesis
  proof (cases found)
    case True
    then show ?thesis using forget_law [OF h(2), of x] h by (auto simp: sync_ip_def)
  next
    case False
    then show ?thesis using track_law [OF h(2), of x] h by (auto simp: sync_ip_def)
  qed
qed

lemma claim_law:
  assumes "ok s"
  shows "\<exists>s'. claim_ip has track x s = ((view s (key x) = None, None), s') \<and> ok s' \<and> keep s' = keep s \<and>
    (\<forall>k. k \<noteq> key x \<longrightarrow> view s' k = view s k) \<and> view s' (key x) \<noteq> None \<and>
    (view s (key x) \<noteq> None \<longrightarrow> view s' (key x) = view s (key x))"
proof -
  obtain s1 where h: "has x s = (Inr (view s (key x) \<noteq> None), s1)" "ok s1" "view s1 = view s" "keep s1 = keep s"
    using has_law [OF assms, of x] by blast
  show ?thesis using track_law [OF h(2), of x] h by (auto simp: claim_ip_def)
qed

lemma sync_all_law:
  assumes "ok s" and "\<forall>x \<in> set xs. \<forall>y \<in> set xs. key x = key y \<longrightarrow> used x = used y"
  shows "\<exists>s'. sync_all has track forget used xs s = (None, s') \<and> ok s' \<and> keep s' = keep s \<and>
    (\<forall>k. k \<notin> key ` set xs \<longrightarrow> view s' k = view s k) \<and>
    (\<forall>x \<in> set xs. if used x then view s' (key x) = None
       else view s' (key x) \<noteq> None \<and> (view s (key x) \<noteq> None \<longrightarrow> view s' (key x) = view s (key x)))"
  using assms
proof (induction xs arbitrary: s)
  case Nil
  then show ?case by simp
next
  case (Cons x xs)
  obtain s1 where s1: "sync_ip has track forget (used x) x s = (None, s1)" "ok s1" "keep s1 = keep s"
      "\<forall>k. k \<noteq> key x \<longrightarrow> view s1 k = view s k"
      "if used x then view s1 (key x) = None
       else view s1 (key x) \<noteq> None \<and> (view s (key x) \<noteq> None \<longrightarrow> view s1 (key x) = view s (key x))"
    using sync_law [OF Cons.prems(1), of "used x" x] by blast
  have agree: "\<forall>x \<in> set xs. \<forall>y \<in> set xs. key x = key y \<longrightarrow> used x = used y"
    using Cons.prems(2) by (meson list.set_intros(2))
  obtain s2 where s2: "sync_all has track forget used xs s1 = (None, s2)" "ok s2" "keep s2 = keep s1"
      "\<forall>k. k \<notin> key ` set xs \<longrightarrow> view s2 k = view s1 k"
      "\<forall>y \<in> set xs. if used y then view s2 (key y) = None
         else view s2 (key y) \<noteq> None \<and> (view s1 (key y) \<noteq> None \<longrightarrow> view s2 (key y) = view s1 (key y))"
    using Cons.IH [OF s1(2) agree] by (elim exE conjE)
  have head: "if used x then view s2 (key x) = None
      else view s2 (key x) \<noteq> None \<and> (view s (key x) \<noteq> None \<longrightarrow> view s2 (key x) = view s (key x))"
  proof (cases "key x \<in> key ` set xs")
    case True
    then obtain y where y: "y \<in> set xs" "key y = key x" by force
    then have "used y = used x" using Cons.prems(2) by (meson list.set_intros)
    with y s2(5) s1(5) show ?thesis by (auto split: if_splits)
  next
    case False
    with s2(4) s1(5) show ?thesis by simp
  qed
  have tail: "if used y then view s2 (key y) = None
      else view s2 (key y) \<noteq> None \<and> (view s (key y) \<noteq> None \<longrightarrow> view s2 (key y) = view s (key y))"
    if y: "y \<in> set xs" for y
  proof (cases "key y = key x")
    case True
    moreover have "used y = used x" using Cons.prems(2) y True by (meson list.set_intros)
    ultimately show ?thesis using head by simp
  next
    case False
    with s1(4) s2(5) y show ?thesis by (metis (no_types, lifting))
  qed
  show ?case using s1 s2 head tail by auto
qed

end

text \<open>The clock reading of a \<^verbatim>\<open>TrackIP\<close>, as the file keeps it.\<close>

definition track_stamp :: "'w env \<Rightarrow> 'w st \<Rightarrow> gotime" where
  "track_stamp e s = trunc_s (fst (os_Now (os e) (world (snd (load e s)))))"

text \<open>What registry operations leave alone: the client, the directories and all other files.\<close>

definition registry_rest :: "'w env \<Rightarrow> 'w st \<Rightarrow> awsclient \<times> string list \<times> (string \<Rightarrow> json option option)" where
  "registry_rest e s = (client s, fs_dirs s, (fs_files s)(registry_json e := None))"

lemma registry_restI:
  "client s' = client s \<Longrightarrow> fs_dirs s' = fs_dirs s \<Longrightarrow> \<forall>p. p \<noteq> registry_json e \<longrightarrow> fs_files s' p = fs_files s p \<Longrightarrow>
     registry_rest e s' = registry_rest e s"
  by (simp add: registry_rest_def fun_eq_iff)

text \<open>Any operation that loads the registry, changes its entries and saves them.\<close>

lemma load_save:
  assumes "registry_ok e s" and "load e s = (Inr rc, s1)" and "fs_dirs s2 = fs_dirs s1"
    and "fs_files s2 = fs_files s1" and "client s2 = client s1" and "wf_entries m"
  shows "\<exists>s'. save e (rc\<lparr>rcIPs := m\<rparr>) s2 = (None, s') \<and> registry_ok e s' \<and>
    registry_view e s' = view_of (norm_entries m) \<and> registry_rest e s' = registry_rest e s"
proof -
  obtain m0 where c: "fs_ok e" "clock_ok e" "registryPath e \<in> set (fs_dirs s)"
      "\<exists>s'. load e s = (Inr \<lparr>rcSchemaVersion = registrySchemaVersion, rcIPs = m0\<rparr>, s') \<and>
         fs_files s' = fs_files s \<and> fs_dirs s' = fs_dirs s \<and> client s' = client s"
    using registry_okE [OF assms(1)] by metis
  have s1: "rc = \<lparr>rcSchemaVersion = registrySchemaVersion, rcIPs = m0\<rparr>" "fs_files s1 = fs_files s"
      "fs_dirs s1 = fs_dirs s" "client s1 = client s"
    using c(4) assms(2) by auto
  have dir: "registryPath e \<in> set (fs_dirs s2)" using c(3) s1 assms(3) by simp
  obtain s' where s': "save e \<lparr>rcSchemaVersion = registrySchemaVersion, rcIPs = m\<rparr> s2 = (None, s')"
      "registry_ok e s'" "registry_view e s' = view_of (norm_entries m)" "client s' = client s2"
      "fs_dirs s' = fs_dirs s2" "\<forall>p. p \<noteq> registry_json e \<longrightarrow> fs_files s' p = fs_files s2 p"
    using save_entries [OF c(1,2) dir assms(6)] .
  moreover have "registry_rest e s' = registry_rest e s"
    using s' s1 assms(3-5) by (intro registry_restI) simp_all
  ultimately show ?thesis using s1(1) by auto
qed

text \<open>The operations on a working registry, as updates of its view.\<close>

lemma view_normal:
  "norm_entries m = m \<Longrightarrow> view_of (norm_entries (map_put k (Some x) m)) = (view_of m)(k \<mapsto> trunc_s (riReleasedOn x))"
  "norm_entries m = m \<Longrightarrow> view_of (norm_entries (map_del k m)) = (view_of m)(k := None)"
proof -
  assume n: "norm_entries m = m"
  then have "map_option trunc_s (view_of m j) = view_of m j" for j by (metis view_of_norm)
  then show "view_of (norm_entries (map_put k (Some x) m)) = (view_of m)(k \<mapsto> trunc_s (riReleasedOn x))"
    and "view_of (norm_entries (map_del k m)) = (view_of m)(k := None)"
    by (simp_all add: fun_eq_iff view_of_norm view_of_put view_of_del)
qed

lemma track_put:
  assumes "registry_ok e s" and "load e s = (Inr rc, s1)" and "fs_dirs s2 = fs_dirs s1"
    and "fs_files s2 = fs_files s1" and "client s2 = client s1" and "representable t"
  shows "\<exists>s'. save e (rc\<lparr>rcIPs := map_put k (Some \<lparr>riReleasedOn = t\<rparr>) (rcIPs rc)\<rparr>) s2 = (None, s') \<and>
    registry_ok e s' \<and> registry_view e s' = (registry_view e s)(k \<mapsto> trunc_s t) \<and>
    registry_rest e s' = registry_rest e s"
proof -
  obtain m where m: "wf_entries m" "norm_entries m = m" "registry_view e s = view_of m" "rcIPs rc = m"
    using registry_okE [OF assms(1)] assms(2) by (metis fst_conv registryContents.select_convs(2) sum.inject(2))
  have "wf_entries (map_put k (Some \<lparr>riReleasedOn = t\<rparr>) m)" using m(1) assms(6) by (simp add: wf_put)
  from load_save [OF assms(1-5) this] show ?thesis using m by (simp add: view_normal)
qed

lemma registry_load:
  assumes "registry_ok e s"
  obtains rc s1 where "load e s = (Inr rc, s1)" and "fs_files s1 = fs_files s" and "fs_dirs s1 = fs_dirs s"
    and "client s1 = client s" and "wf_entries (rcIPs rc)" and "norm_entries (rcIPs rc) = rcIPs rc"
    and "registry_view e s = view_of (rcIPs rc)" and "registry_ok e s1" and "registry_view e s1 = registry_view e s"
proof -
  obtain m where m: "wf_entries m" "norm_entries m = m" "registry_view e s = view_of m"
    "\<exists>s'. load e s = (Inr \<lparr>rcSchemaVersion = registrySchemaVersion, rcIPs = m\<rparr>, s') \<and>
       fs_files s' = fs_files s \<and> fs_dirs s' = fs_dirs s \<and> client s' = client s"
    using registry_okE [OF assms] by metis
  then obtain s1 where s1: "load e s = (Inr \<lparr>rcSchemaVersion = registrySchemaVersion, rcIPs = m\<rparr>, s1)"
      "fs_files s1 = fs_files s" "fs_dirs s1 = fs_dirs s" "client s1 = client s" by blast
  then have "registry_ok e s1" "registry_view e s1 = registry_view e s"
    using assms by (simp_all add: registry_ok_def registry_view_def fun_eq_iff)
  with s1 m that show thesis by auto
qed

lemma registry_footprint:
  "fs_files s' = fs_files s \<Longrightarrow> fs_dirs s' = fs_dirs s \<Longrightarrow> registry_ok e s \<Longrightarrow> registry_ok e s'"
  "fs_files s' = fs_files s \<Longrightarrow> registry_view e s' = registry_view e s"
  by (simp_all add: registry_ok_def registry_view_def fun_eq_iff)

interpretation reg: ip_registry "TrackIP e" "ForgetIP e" "HasIP e" "ip_key e" "registry_view e" "registry_ok e"
    "track_stamp e" "registry_rest e" for e
proof
  fix x s assume ok: "registry_ok e s"
  obtain rc s1 where l: "load e s = (Inr rc, s1)" "fs_files s1 = fs_files s" "fs_dirs s1 = fs_dirs s"
      "client s1 = client s" "wf_entries (rcIPs rc)" "norm_entries (rcIPs rc) = rcIPs rc"
      "registry_view e s = view_of (rcIPs rc)" "registry_ok e s1" "registry_view e s1 = registry_view e s"
    using registry_load [OF ok] .
  let ?n = "ext (os_Now (os e)) s1"
  have "representable (fst ?n)" using ok by (simp add: registry_ok_def clock_ok_def ext_def)
  from track_put [OF ok l(1) _ _ _ this, of "snd ?n"]
  show "\<exists>s'. TrackIP e x s = (None, s') \<and> registry_ok e s' \<and>
      registry_view e s' = (registry_view e s)(ip_key e x \<mapsto> track_stamp e s) \<and> registry_rest e s' = registry_rest e s"
    by (simp add: TrackIP_def l(1) track_stamp_def) (simp add: ext_def)
  have "wf_entries (map_del (ip_key e x) (rcIPs rc))" using l(5) by (rule wf_del)
  from load_save [OF ok l(1) _ _ _ this, of s1] l
  show "\<exists>s'. ForgetIP e x s = (None, s') \<and> registry_ok e s' \<and>
      registry_view e s' = (registry_view e s)(ip_key e x := None) \<and> registry_rest e s' = registry_rest e s"
    by (simp add: ForgetIP_def view_normal)
  have "registry_rest e s1 = registry_rest e s" using l by (intro registry_restI) simp_all
  with l view_of_has [OF l(5)]
  show "\<exists>s'. HasIP e x s = (Inr (registry_view e s (ip_key e x) \<noteq> None), s') \<and> registry_ok e s' \<and>
      registry_view e s' = registry_view e s \<and> registry_rest e s' = registry_rest e s"
    by (simp add: HasIP_def)
qed

section \<open>Properties of the registry\<close>

definition demo_registry :: "(string \<times> registryIP option) list \<Rightarrow> dw st" where
  "demo_registry m = demo_s\<lparr>fs_dirs := [registryPath demo],
     fs_files := [registry_json demo \<mapsto> Some (encode_registry \<lparr>rcSchemaVersion = 1, rcIPs = m\<rparr>)]\<rparr>"

lemma demo_registry_ok: "wf_entries m \<Longrightarrow> registry_ok demo (demo_registry m)"
  and demo_registry_view: "wf_entries m \<Longrightarrow> registry_view demo (demo_registry m) = view_of (norm_entries m)"
  using read_encode_registry [of "\<lparr>rcSchemaVersion = 1, rcIPs = m\<rparr>"]
  by (simp_all add: registry_ok_def registry_view_def demo_registry_def demo_fs_ok demo_clock_ok
      registrySchemaVersion_def wf_norm fun_eq_iff)

lemma wf_epoch: "distinct (map fst m) \<Longrightarrow> \<forall>(k, r) \<in> set m. r = epoch_entry \<Longrightarrow> wf_entries m"
  by (auto simp: wf_entries_def epoch_entry_def)

text \<open>C2: the registry file implements a finite map from addresses to release times. On a working
  registry \<^verbatim>\<open>TrackIP\<close>, \<^verbatim>\<open>TrackIPAtEpoch\<close> and \<^verbatim>\<open>ForgetIP\<close> succeed, leave a working registry and act
  on it as the update with the current time (cut to whole seconds), the update with the zero time, and
  the removal; \<^verbatim>\<open>HasIP\<close> succeeds, changes nothing and tells whether the address is in the map. No
  operation touches another file or the client.\<close>

theorem registry_refines_map:
  assumes "registry_ok e s"
  shows "(\<exists>s'. TrackIP e x s = (None, s') \<and> registry_ok e s' \<and> registry_rest e s' = registry_rest e s \<and>
            registry_view e s' = (registry_view e s)(ip_key e x \<mapsto> track_stamp e s)) \<and>
         (\<exists>s'. TrackIPAtEpoch e x s = (None, s') \<and> registry_ok e s' \<and> registry_rest e s' = registry_rest e s \<and>
            registry_view e s' = (registry_view e s)(ip_key e x \<mapsto> zero_time)) \<and>
         (\<exists>s'. ForgetIP e x s = (None, s') \<and> registry_ok e s' \<and> registry_rest e s' = registry_rest e s \<and>
            registry_view e s' = (registry_view e s)(ip_key e x := None)) \<and>
         (\<exists>s'. HasIP e x s = (Inr (registry_view e s (ip_key e x) \<noteq> None), s') \<and> registry_ok e s' \<and>
            registry_rest e s' = registry_rest e s \<and> registry_view e s' = registry_view e s)"
proof -
  obtain rc s1 where l: "load e s = (Inr rc, s1)" using registry_load [OF assms] by metis
  have "\<exists>s'. TrackIPAtEpoch e x s = (None, s') \<and> registry_ok e s' \<and> registry_rest e s' = registry_rest e s \<and>
            registry_view e s' = (registry_view e s)(ip_key e x \<mapsto> zero_time)"
    using track_put [OF assms l, of s1 zero_time "ip_key e x"]
    by (auto simp: TrackIPAtEpoch_def l epoch_entry_def)
  with reg.track_law [OF assms, of x] reg.forget_law [OF assms, of x] reg.has_law [OF assms, of x]
  show ?thesis by blast
qed

theorem registry_refines_map_witness:
  "let s = demo_registry [(''10.0.1.7'', epoch_entry)] in
     registry_ok demo s \<and> registry_view demo s (ip_key demo (V4 10 0 1 9)) = None \<and>
     (\<exists>s'. TrackIP demo (V4 10 0 1 9) s = (None, s') \<and> registry_ok demo s' \<and>
        registry_view demo s' (ip_key demo (V4 10 0 1 9)) \<noteq> None)"
proof -
  let ?m = "[(''10.0.1.7'', epoch_entry)]"
  have wf: "wf_entries ?m" by (rule wf_epoch) simp_all
  have "ip_key demo (V4 10 0 1 9) = ''10.0.1.9''" by code_simp
  then have "registry_view demo (demo_registry ?m) (ip_key demo (V4 10 0 1 9)) = None"
    by (simp add: demo_registry_view [OF wf] norm_entries_def view_of_def)
  with demo_registry_ok [OF wf] registry_refines_map [OF demo_registry_ok [OF wf], of "V4 10 0 1 9"]
  show ?thesis by (auto simp: Let_def)
qed

lemma tracked_before_spec:
  assumes "wf_entries m" and "set ks \<subseteq> fst ` set m"
  shows "\<exists>ips. tracked_before t6 t m ks = Some ips \<and>
    set ips = {x. \<exists>k \<in> set ks. \<exists>u. view_of m k = Some u \<and> time_Before u t \<and> ParseIP t6 k = Some x}"
  using assms(2)
proof (induction ks)
  case Nil
  then show ?case by simp
next
  case (Cons k ks)
  then obtain ips where ips: "tracked_before t6 t m ks = Some ips"
      "set ips = {x. \<exists>k \<in> set ks. \<exists>u. view_of m k = Some u \<and> time_Before u t \<and> ParseIP t6 k = Some x}"
    by auto
  from Cons.prems have "map_of m k \<noteq> None" by (simp add: map_of_eq_None_iff)
  then obtain r where r: "map_of m k = Some (Some r)"
    using assms(1) by (fastforce simp: wf_entries_def dest: map_of_SomeD)
  then have "view_of m k = Some (riReleasedOn r)" by (simp add: view_of_def)
  with ips r show ?case by (auto split: option.splits)
qed

lemma view_of_keys: "view_of m k = Some u \<Longrightarrow> k \<in> fst ` set m"
  by (auto simp: view_of_def split: option.splits dest: map_of_SomeD intro: rev_image_eqI)

lemma TrackedBefore_law:
  assumes "registry_ok e s" and "range_ok e"
  shows "\<exists>ips s'. TrackedBefore e t s = Some (Inr ips, s') \<and> registry_ok e s' \<and>
    registry_view e s' = registry_view e s \<and> client s' = client s \<and>
    set ips = {x. \<exists>k u. registry_view e s k = Some u \<and> time_Before u t \<and> ParseIP (os_txt6 (os e)) k = Some x}"
proof -
  obtain rc s1 where l: "load e s = (Inr rc, s1)" "wf_entries (rcIPs rc)" "registry_view e s = view_of (rcIPs rc)"
      "registry_ok e s1" "registry_view e s1 = registry_view e s" "client s1 = client s"
    using registry_load [OF assms(1)] by metis
  let ?ks = "os_range (os e) (map fst (rcIPs rc))"
  have ks: "set ?ks = fst ` set (rcIPs rc)" using range_ok_set [OF assms(2)] by simp
  obtain ips where ips: "tracked_before (os_txt6 (os e)) t (rcIPs rc) ?ks = Some ips"
      "set ips = {x. \<exists>k \<in> set ?ks. \<exists>u. view_of (rcIPs rc) k = Some u \<and> time_Before u t \<and>
         ParseIP (os_txt6 (os e)) k = Some x}"
    using tracked_before_spec [OF l(2) equalityD1 [OF ks], of "os_txt6 (os e)" t] by (elim exE conjE)
  have "set ips = {x. \<exists>k u. registry_view e s k = Some u \<and> time_Before u t \<and> ParseIP (os_txt6 (os e)) k = Some x}"
    unfolding ips(2) l(3) ks by (blast dest: view_of_keys)
  with l ips(1) show ?thesis by (auto simp: TrackedBefore_def)
qed

text \<open>C16: \<^verbatim>\<open>TrackedBefore\<close> is exact. On a working registry it returns, without an error and without
  changing the registry, the addresses whose recorded release time lies strictly before the given
  time, and no others, whatever the order in which Go iterates over the map.\<close>

theorem TrackedBefore_exact:
  assumes "registry_ok e s" and "range_ok e"
  shows "\<exists>ips s'. TrackedBefore e t s = Some (Inr ips, s') \<and> registry_ok e s' \<and>
    registry_view e s' = registry_view e s \<and>
    set ips = {x. \<exists>k u. registry_view e s k = Some u \<and> t_ns u < t_ns t \<and> ParseIP (os_txt6 (os e)) k = Some x}"
  using TrackedBefore_law [OF assms, of t] by (simp add: time_Before_def) blast

theorem TrackedBefore_exact_witness:
  "\<exists>ips s'. TrackedBefore demo \<lparr>t_ns = 5, t_off = 0\<rparr> (demo_registry [(''10.0.1.7'', epoch_entry)]) = Some (Inr ips, s') \<and>
     V4 10 0 1 7 \<in> set ips"
proof -
  let ?m = "[(''10.0.1.7'', epoch_entry)]"
  have wf: "wf_entries ?m" by (rule wf_epoch) simp_all
  have v: "registry_view demo (demo_registry ?m) ''10.0.1.7'' = Some zero_time"
    unfolding demo_registry_view [OF wf]
    by (simp add: norm_entries_def view_of_def norm_entry_def epoch_entry_def)
  have p: "ParseIP (os_txt6 (os demo)) ''10.0.1.7'' = Some (V4 10 0 1 7)" by code_simp
  obtain ips s' where i: "TrackedBefore demo \<lparr>t_ns = 5, t_off = 0\<rparr> (demo_registry ?m) = Some (Inr ips, s')"
      "set ips = {x. \<exists>k u. registry_view demo (demo_registry ?m) k = Some u \<and> t_ns u < 5 \<and>
         ParseIP (os_txt6 (os demo)) k = Some x}"
    using TrackedBefore_exact [OF demo_registry_ok [OF wf] demo_range_ok, of "\<lparr>t_ns = 5, t_off = 0\<rparr>"] by auto
  have "t_ns zero_time < 5" by (simp add: zero_time_def)
  with v p i show ?thesis by blast
qed

text \<open>A key is found again only under the same address: the text of IPv4 addresses is injective.\<close>

lemma ip_key_V4: "ip_key e (V4 a b c d) = ip_key e (V4 a' b' c' d') \<longleftrightarrow> V4 a b c d = V4 a' b' c' d'"
  by (simp only: ip_key_def ip_String_inject_V4)

lemma ParseIP_key [simp]: "ParseIP (os_txt6 (os e)) (ip_key e (V4 a b c d)) = Some (V4 a b c d)"
  by (simp add: ip_key_def)

lemma registry_json_neq [simp]: "registry_json e \<noteq> registryPath e" "registryPath e \<noteq> registry_json e"
  by (simp_all add: registry_json_def path_Join_def)

lemma ensurePath_new:
  assumes "fs_ok e" and "fs_files s (registryPath e) = None"
  obtains s' where "ensurePath e s = (Inr (registry_json e), s')" and "fs_files s' = fs_files s"
    and "registryPath e \<in> set (fs_dirs s')" and "client s' = client s"
proof (cases "registryPath e \<in> set (fs_dirs s)")
  case True
  show thesis by (rule ensurePath_ok [OF assms(1) True]) (use True that in auto)
next
  case False
  let ?s = "snd (os_MkdirAll e (registryPath e) (snd (os_Stat e (registryPath e) s)))"
  have "ensurePath e s = (Inr (registry_json e), ?s)" "registryPath e \<in> set (fs_dirs ?s)"
    using assms False by (simp_all add: ensurePath_def os_Stat_def os_MkdirAll_def ext_def fs_okD)
  then show thesis by (intro that [of ?s]) simp_all
qed

lemma FindFreeIPsAtIndex0_frame [simp, frame]:
  "fs_files (snd (FindFreeIPsAtIndex0 e s)) = fs_files s" "fs_dirs (snd (FindFreeIPsAtIndex0 e s)) = fs_dirs s"
  "client (snd (FindFreeIPsAtIndex0 e s)) = client s"
  by (simp_all add: FindFreeIPsAtIndex0_def case_prod_unfold Let_def split: sum.splits)

lemma wf_fold_epoch: "wf_entries m \<Longrightarrow> wf_entries (fold (\<lambda>a. map_put (f a) epoch_entry) xs m)"
  by (induction xs arbitrary: m) (simp_all add: epoch_entry_def wf_put)

lemma view_fold_epoch:
  "view_of (fold (\<lambda>a. map_put (f a) epoch_entry) xs m) =
     (\<lambda>k. if k \<in> f ` set xs then Some zero_time else view_of m k)"
  by (induction xs arbitrary: m) (auto simp: epoch_entry_def view_of_put fun_eq_iff)

text \<open>C20: the first use of a node's registry. When there is no registry file yet and the metadata
  service and netlink answer, \<^verbatim>\<open>load\<close> creates a working registry that holds exactly the addresses of
  the instance that no interface of the host uses, each with the zero time, so that they can be reused
  at once.\<close>

theorem load_first_use:
  assumes "fs_ok e" and "clock_ok e" and "fs_files s (registryPath e) = None" and "fs_files s (registry_json e) = None"
    and "FindFreeIPsAtIndex0 e (snd (os_Open e (registry_json e) (snd (ensurePath e s)))) = ((free, None), s1)"
  shows "\<exists>rc s'. load e s = (Inr rc, s') \<and> registry_ok e s' \<and>
    registry_view e s' = (\<lambda>k. if k \<in> (\<lambda>a. ip_key e (arIP a)) ` set free then Some zero_time else None)"
proof -
  obtain s0 where s0: "ensurePath e s = (Inr (registry_json e), s0)" "fs_files s0 = fs_files s"
      "registryPath e \<in> set (fs_dirs s0)"
    using ensurePath_new [OF assms(1,3)] .
  have op: "fst (os_Open e (registry_json e) s0) = Inl ErrNotExist"
    using assms(1,4) s0(2) by (simp add: os_Open_def ext_def fs_okD)
  let ?m = "fold (\<lambda>a. map_put (ip_key e (arIP a)) epoch_entry) free []"
  have wf: "wf_entries ?m" by (rule wf_fold_epoch) (simp add: wf_entries_def)
  have "s1 = snd (FindFreeIPsAtIndex0 e (snd (os_Open e (registry_json e) s0)))" using assms(5) s0(1) by simp
  then have "fs_dirs s1 = fs_dirs s0" by simp
  then have dir: "registryPath e \<in> set (fs_dirs s1)" using s0(3) by simp
  obtain s' where s': "save e \<lparr>rcSchemaVersion = registrySchemaVersion, rcIPs = ?m\<rparr> s1 = (None, s')" "registry_ok e s'"
      "registry_view e s' = view_of (norm_entries ?m)"
    using save_entries [OF assms(1,2) dir wf] by metis
  have "load e s = (Inr \<lparr>rcSchemaVersion = registrySchemaVersion, rcIPs = ?m\<rparr>, s')"
    using s0(1) op assms(5) s'(1)
    by (simp add: load_def case_prod_unfold defaultRegistry_def ip_key_def)
  moreover have "view_of (norm_entries ?m) =
      (\<lambda>k. if k \<in> (\<lambda>a. ip_key e (arIP a)) ` set free then Some zero_time else None)"
    by (rule HOL.ext) (simp add: view_of_norm view_fold_epoch, simp add: view_of_def)
  ultimately show ?thesis using s' by auto
qed

lemma demo_GetIPs:
  "GetIPs demo s = (Inr (map (\<lambda>x. \<lparr>biIP = x, biPrefix = 24, biLabel = ''eth1''\<rparr>) (d_bound (world s))), s)"
  by (simp add: GetIPs_def netns_paths_def runningDockerContainers_def getIpsOnHandle_def ext_def demo_defs)

lemma demo_FindFree0:
  assumes "d_ips (world s) = [''10.0.1.7'']" and "d_bound (world s) = [V4 10 0 0 4]"
  shows "FindFreeIPsAtIndex0 demo s = (([\<lparr>arIP = V4 10 0 1 7, arInterface = demo_if1 [V4 10 0 1 7]\<rparr>], None), s)"
proof -
  have p: "ParseIP (os_txt6 (os demo)) ''10.0.1.7'' = Some (V4 10 0 1 7)" by code_simp
  have i: "GetInterfaces demo s = (Inr [demo_if0, demo_if1 [V4 10 0 1 7]], s)"
    using demo_GetInterfaces [of s] assms(1) by (simp add: p map_filter_simps newline_def)
  from i demo_GetIPs [of s] assms(2) show ?thesis
    by (simp add: FindFreeIPsAtIndex0_def scan_free_def free_of_interface_def demo_if0_def demo_if1_def)
qed

theorem load_first_use_witness:
  "\<exists>rc s'. load demo demo_s = (Inr rc, s') \<and> registry_ok demo s' \<and>
     registry_view demo s' ''10.0.1.7'' = Some zero_time \<and> registry_view demo s' ''10.0.0.4'' = None"
proof -
  let ?s = "snd (os_Open demo (registry_json demo) (snd (ensurePath demo demo_s)))"
  have none: "fs_files demo_s p = None" for p by (simp add: demo_s_def)
  have "world ?s = demo_w"
    by (simp add: ensurePath_def os_Stat_def os_MkdirAll_def os_Open_def ext_def demo_defs)
  then have f: "FindFreeIPsAtIndex0 demo ?s = (([\<lparr>arIP = V4 10 0 1 7, arInterface = demo_if1 [V4 10 0 1 7]\<rparr>], None), ?s)"
    by (intro demo_FindFree0) (simp_all add: demo_w_def)
  have k: "ip_key demo (V4 10 0 1 7) = ''10.0.1.7''" by code_simp
  show ?thesis
    using load_first_use [OF demo_fs_ok demo_clock_ok none none f] by (auto simp: k)
qed

text \<open>C21: a damaged registry file heals itself. Whatever makes the file unusable (text that is not
  JSON or does not fit the structure, another schema version, or a \<^verbatim>\<open>null\<close> address map), \<^verbatim>\<open>load\<close>
  answers an empty registry, and the next \<^verbatim>\<open>TrackIP\<close> leaves a working registry with just that address.\<close>

theorem damaged_registry_heals:
  assumes "fs_ok e" and "clock_ok e" and "registryPath e \<in> set (fs_dirs s)" and "fs_files s (registry_json e) = Some doc"
    and "case Option.bind doc (\<lambda>js. decode_struct registry_field js (registrySchemaVersion, Some [])) of
           None \<Rightarrow> True | Some (version, ips) \<Rightarrow> version \<noteq> 1 \<or> ips = None"
  shows "fst (load e s) = Inr defaultRegistry \<and>
    (\<exists>s'. TrackIP e x s = (None, s') \<and> registry_ok e s' \<and> registry_view e s' = [ip_key e x \<mapsto> track_stamp e s])"
proof -
  have rd: "read_registry doc = defaultRegistry"
    using assms(5) by (auto simp: read_registry_def registrySchemaVersion_def split: option.splits)
  obtain s1 where l: "load e s = (Inr defaultRegistry, s1)" "fs_dirs s1 = fs_dirs s"
    using load_ok [OF assms(1,3,4)] rd by auto
  let ?n = "ext (os_Now (os e)) s1"
  let ?m = "[(ip_key e x, Some \<lparr>riReleasedOn = fst ?n\<rparr>)]"
  have "representable (fst ?n)" using assms(2) by (simp add: clock_ok_def ext_def)
  then have wf: "wf_entries ?m" by (simp add: wf_entries_def)
  have dir: "registryPath e \<in> set (fs_dirs (snd ?n))" using assms(3) l(2) by simp
  obtain s' where s': "save e \<lparr>rcSchemaVersion = registrySchemaVersion, rcIPs = ?m\<rparr> (snd ?n) = (None, s')"
      "registry_ok e s'" "registry_view e s' = view_of (norm_entries ?m)"
    using save_entries [OF assms(1,2) dir wf] by metis
  have "TrackIP e x s = (None, s')"
    using l(1) s'(1) by (simp add: TrackIP_def defaultRegistry_def case_prod_unfold)
  moreover have "view_of (norm_entries ?m) = [ip_key e x \<mapsto> track_stamp e s]"
    by (simp add: fun_eq_iff view_of_def norm_entries_def norm_entry_def track_stamp_def l(1) ext_def)
  ultimately show ?thesis using l(1) s' by simp
qed

theorem damaged_registry_heals_witness:
  "\<exists>s'. TrackIP demo (V4 10 0 1 7) (demo_s\<lparr>fs_dirs := [registryPath demo],
       fs_files := [registry_json demo \<mapsto> Some (JObj [(''schema_version'', JNum 2)])]\<rparr>) = (None, s') \<and>
     registry_ok demo s' \<and> registry_view demo s' ''10.0.1.7'' \<noteq> None"
proof -
  let ?s = "demo_s\<lparr>fs_dirs := [registryPath demo], fs_files := [registry_json demo \<mapsto> Some (JObj [(''schema_version'', JNum 2)])]\<rparr>"
  have dir: "registryPath demo \<in> set (fs_dirs ?s)" by simp
  have fl: "fs_files ?s (registry_json demo) = Some (Some (JObj [(''schema_version'', JNum 2)]))" by simp
  have bad: "case Option.bind (Some (JObj [(''schema_version'', JNum 2)]))
      (\<lambda>js. decode_struct registry_field js (registrySchemaVersion, Some [])) of
         None \<Rightarrow> True | Some (version, ips) \<Rightarrow> version \<noteq> 1 \<or> ips = None"
    by (simp add: decode_struct_def registry_field_def decode_int_def)
  have k: "ip_key demo (V4 10 0 1 7) = ''10.0.1.7''" by code_simp
  show ?thesis
    using damaged_registry_heals [OF demo_fs_ok demo_clock_ok dir fl bad, of "V4 10 0 1 7"] by (auto simp: k)
qed

text \<open>C32: a registry file that holds a \<^verbatim>\<open>null\<close> entry for some address passes every check of
  \<^verbatim>\<open>load\<close>, but makes \<^verbatim>\<open>TrackedBefore\<close> dereference a \<^verbatim>\<open>nil\<close> pointer: it does not return.\<close>

theorem TrackedBefore_null_entry:
  assumes "range_ok e" and "load e s = (Inr rc, s1)" and "map_of (rcIPs rc) k = Some None"
  shows "TrackedBefore e t s = None"
proof -
  have "k \<in> set ks \<Longrightarrow> tracked_before t6 t (rcIPs rc) ks = None" for ks t6
    using assms(3) by (induction ks) (auto split: option.splits)
  moreover have "k \<in> set (os_range (os e) (map fst (rcIPs rc)))"
    using range_ok_set [OF assms(1)] map_of_SomeD [OF assms(3)] by force
  ultimately show ?thesis by (simp add: TrackedBefore_def assms(2))
qed

theorem TrackedBefore_null_entry_witness:
  "TrackedBefore demo zero_time (demo_s\<lparr>fs_dirs := [registryPath demo],
     fs_files := [registry_json demo \<mapsto> Some (JObj [(''ips'', JObj [(''10.0.1.7'', JNull)])])]\<rparr>) = None"
proof -
  let ?d = "JObj [(''ips'', JObj [(''10.0.1.7'', JNull)])]"
  let ?s = "demo_s\<lparr>fs_dirs := [registryPath demo], fs_files := [registry_json demo \<mapsto> Some ?d]\<rparr>"
  have "read_registry (Some ?d) = \<lparr>rcSchemaVersion = 1, rcIPs = [(''10.0.1.7'', None)]\<rparr>"
    by (simp add: read_registry_def decode_struct_def registry_field_def decode_ips_def decode_registryIP_def
        registrySchemaVersion_def)
  then obtain s1 where l: "load demo ?s = (Inr \<lparr>rcSchemaVersion = 1, rcIPs = [(''10.0.1.7'', None)]\<rparr>, s1)"
    using load_ok [OF demo_fs_ok, of ?s "Some ?d"] by auto
  have "map_of (rcIPs \<lparr>rcSchemaVersion = 1, rcIPs = [(''10.0.1.7'', None)]\<rparr>) ''10.0.1.7'' = Some None" by simp
  from TrackedBefore_null_entry [OF demo_range_ok l this] show ?thesis .
qed

text \<open>\<^verbatim>\<open>Jitter\<close> moves a duration forward by less than the given share of it: with
  \<open>rand.Int63n(n)\<close> in \<open>[0, n)\<close>, as documented, the result lies between the duration and the duration plus
  the scaled share; when the scaled share is not positive the function panics.\<close>

lemma Jitter_bounds:
  assumes "\<And>n w. 0 < n \<Longrightarrow> 0 \<le> fst (os_Int63n (os e) n w) \<and> fst (os_Int63n (os e) n w) < n"
    and "0 \<le> d" and "d + scaled < 2 ^ 63"
  shows "(scaled \<le> 0 \<longrightarrow> Jitter e d scaled s = None) \<and>
    (0 < scaled \<longrightarrow> (\<exists>d' s'. Jitter e d scaled s = Some (d', s') \<and> d \<le> d' \<and> d' < d + scaled))"
proof (cases "0 < scaled")
  case True
  let ?j = "ext (os_Int63n (os e) scaled) s"
  have j: "0 \<le> fst ?j" "fst ?j < scaled" using assms(1) [OF True] by (simp_all add: ext_def)
  then have "wrap64 (d + fst ?j) = d + fst ?j" using assms(2,3) by (intro wrap64_id) simp_all
  with True j show ?thesis by (simp add: Jitter_def case_prod_unfold Let_def)
qed (simp add: Jitter_def)

end
