(* ===== verification/FreeIP.thy ===== *)
theory FreeIP
  imports Registry
begin

text \<open>
  \<^verbatim>\<open>aws/freeip.go\<close>: the addresses of the instance's interfaces that no interface of the host or of
  a namespace uses. With \<^verbatim>\<open>updateRegistry\<close> the function also brings the registry in line with what it
  found: free addresses become tracked, used ones are forgotten.
\<close>

fun free_on_interface ::
    "'w env \<Rightarrow> bool \<Rightarrow> ip list \<Rightarrow> Interface \<Rightarrow> ip list \<Rightarrow> AllocationResult list \<Rightarrow> 'w st \<Rightarrow>
     (AllocationResult list \<times> error option) \<times> 'w st" where
  "free_on_interface e updateRegistry assigned intf [] freeIps s = ((freeIps, None), s)"
| "free_on_interface e updateRegistry assigned intf (intfIP # ips) freeIps s =
     (let found = (intfIP \<in> set assigned);
          freeIps = (if found then freeIps else freeIps @ [\<lparr>arIP = intfIP, arInterface = intf\<rparr>])
      in if updateRegistry then
           (let (err, s) = sync_ip (HasIP e) (TrackIP e) (ForgetIP e) found intfIP s
            in case err of
                 Some x \<Rightarrow> ((freeIps, Some x), s)
               | None \<Rightarrow> free_on_interface e updateRegistry assigned intf ips freeIps s)
         else free_on_interface e updateRegistry assigned intf ips freeIps s)"

fun free_on_interfaces ::
    "'w env \<Rightarrow> int \<Rightarrow> bool \<Rightarrow> ip list \<Rightarrow> Interface list \<Rightarrow> AllocationResult list \<Rightarrow> 'w st \<Rightarrow>
     (AllocationResult list \<times> error option) \<times> 'w st" where
  "free_on_interfaces e index updateRegistry assigned [] freeIps s = ((freeIps, None), s)"
| "free_on_interfaces e index updateRegistry assigned (intf # intfs) freeIps s =
     (if ifNumber intf < index then free_on_interfaces e index updateRegistry assigned intfs freeIps s
      else (let ((freeIps, err), s) = free_on_interface e updateRegistry assigned intf (ifIPv4s intf) freeIps s
            in case err of
                 Some x \<Rightarrow> ((freeIps, Some x), s)
               | None \<Rightarrow> free_on_interfaces e index updateRegistry assigned intfs freeIps s))"

definition FindFreeIPsAtIndex ::
    "'w env \<Rightarrow> int \<Rightarrow> bool \<Rightarrow> 'w st \<Rightarrow> (AllocationResult list \<times> error option) \<times> 'w st" where
  "FindFreeIPsAtIndex e index updateRegistry s =
     (let (r, s) = GetInterfaces e s
      in case r of
           Inl err \<Rightarrow> (([], Some err), s)
         | Inr interfaces \<Rightarrow>
             (let (r, s) = GetIPs e s
              in case r of
                   Inl err \<Rightarrow> (([], Some err), s)
                 | Inr assigned \<Rightarrow>
                     free_on_interfaces e index updateRegistry (map biIP assigned) interfaces [] s))"

section \<open>Without the registry\<close>

lemma free_on_interface_read:
  "free_on_interface e False assigned intf ips free s =
     ((free @ map (\<lambda>x. \<lparr>arIP = x, arInterface = intf\<rparr>) (filter (\<lambda>x. x \<notin> set assigned) ips), None), s)"
  by (induction ips arbitrary: free) (simp_all add: Let_def)

lemma free_on_interfaces_read:
  "free_on_interfaces e index False assigned intfs free s = ((free @ scan_free index assigned intfs, None), s)"
  by (induction intfs arbitrary: free)
     (simp_all add: free_on_interface_read scan_free_def free_of_interface_def)

text \<open>\<^verbatim>\<open>load\<close> calls this function when it fills a new registry, and this function calls \<^verbatim>\<open>load\<close> when it updates
  the registry. \<open>FindFreeIPsAtIndex0\<close> breaks the circle; it is this function at the arguments \<^verbatim>\<open>load\<close> gives.\<close>

lemma FindFree_scan: "FindFreeIPsAtIndex e 0 False s = FindFreeIPsAtIndex0 e s"
  by (simp add: FindFreeIPsAtIndex_def FindFreeIPsAtIndex0_def free_on_interfaces_read
      cong: sum.case_cong prod.case_cong)

section \<open>With the registry\<close>

lemma sync_all_append:
  "sync_all h t f u (xs @ ys) s =
     (case sync_all h t f u xs s of (Some err, s) \<Rightarrow> (Some err, s) | (None, s) \<Rightarrow> sync_all h t f u ys s)"
  by (induction xs arbitrary: s) (auto simp: case_prod_unfold Let_def split: option.splits)

lemma free_on_interface_sync:
  "sync_all (HasIP e) (TrackIP e) (ForgetIP e) (\<lambda>x. x \<in> set assigned) ips s = (None, s') \<Longrightarrow>
     free_on_interface e True assigned intf ips free s =
       ((free @ map (\<lambda>x. \<lparr>arIP = x, arInterface = intf\<rparr>) (filter (\<lambda>x. x \<notin> set assigned) ips), None), s')"
proof (induction ips arbitrary: free s)
  case (Cons a ips)
  then show ?case by (cases "a \<in> set assigned") (auto simp: case_prod_unfold Let_def split: option.splits)
qed simp

definition ips_at_index :: "int \<Rightarrow> Interface list \<Rightarrow> ip list" where
  "ips_at_index index intfs = concat (map ifIPv4s (filter (\<lambda>i. \<not> ifNumber i < index) intfs))"

lemma free_on_interfaces_sync:
  "sync_all (HasIP e) (TrackIP e) (ForgetIP e) (\<lambda>x. x \<in> set assigned) (ips_at_index index intfs) s = (None, s') \<Longrightarrow>
     free_on_interfaces e index True assigned intfs free s = ((free @ scan_free index assigned intfs, None), s')"
proof (induction intfs arbitrary: free s)
  case (Cons i intfs)
  show ?case
  proof (cases "ifNumber i < index")
    case True
    with Cons show ?thesis by (simp add: ips_at_index_def scan_free_def)
  next
    case False
    with Cons.prems obtain s1 where
      s1: "sync_all (HasIP e) (TrackIP e) (ForgetIP e) (\<lambda>x. x \<in> set assigned) (ifIPv4s i) s = (None, s1)"
      "sync_all (HasIP e) (TrackIP e) (ForgetIP e) (\<lambda>x. x \<in> set assigned) (ips_at_index index intfs) s1 = (None, s')"
      by (auto simp: ips_at_index_def sync_all_append split: prod.splits option.splits)
    from Cons.IH [OF s1(2)] False free_on_interface_sync [OF s1(1)] show ?thesis
      by (simp add: scan_free_def free_of_interface_def)
  qed
qed (simp add: ips_at_index_def scan_free_def)

definition is_V4 :: "ip \<Rightarrow> bool" where
  "is_V4 x = (case x of V4 _ _ _ _ \<Rightarrow> True | V6 _ \<Rightarrow> False)"

lemma ip_key_inj: "is_V4 x \<Longrightarrow> is_V4 y \<Longrightarrow> ip_key e x = ip_key e y \<Longrightarrow> x = y"
  by (cases x; cases y) (simp_all add: is_V4_def ip_key_V4)

lemma set_scan_free:
  "set (scan_free index assigned intfs) =
     {a. arInterface a \<in> set intfs \<and> index \<le> ifNumber (arInterface a) \<and>
         arIP a \<in> set (ifIPv4s (arInterface a)) \<and> arIP a \<notin> set assigned}"
proof -
  have eta: "(\<exists>x. P x \<and> a = \<lparr>arIP = x, arInterface = i\<rparr>) \<longleftrightarrow> arInterface a = i \<and> P (arIP a)"
    for a :: AllocationResult and P i by (cases a) auto
  have "a \<in> set (free_of_interface assigned i) \<longleftrightarrow>
      arInterface a = i \<and> arIP a \<in> set (ifIPv4s i) \<and> arIP a \<notin> set assigned" for a i
    using eta [of "\<lambda>x. x \<in> set (ifIPv4s i) \<and> x \<notin> set assigned" a i]
    by (auto simp: free_of_interface_def image_iff)
  then show ?thesis by (auto simp: scan_free_def not_less)
qed

text \<open>C30: \<^verbatim>\<open>FindFreeIPsAtIndex\<close> without \<^verbatim>\<open>updateRegistry\<close>, as the tool's listing of free addresses calls it,
  in every state and with every outcome. It writes no file, so the registry stays as it is. When the
  metadata service or netlink fails, it answers no address and their error; otherwise it answers, without
  an error, exactly the addresses of the interfaces from the given index on that no link of the node has.\<close>

theorem FindFree_read_only:
  "\<exists>free err s'. FindFreeIPsAtIndex e index False s = ((free, err), s') \<and>
     fs_files s' = fs_files s \<and> fs_dirs s' = fs_dirs s \<and> client s' = client s \<and>
     (case GetInterfaces e s of
        (Inl x, s1) \<Rightarrow> free = [] \<and> err = Some x \<and> s' = s1
      | (Inr ifs, s1) \<Rightarrow>
          (case GetIPs e s1 of
             (Inl x, s2) \<Rightarrow> free = [] \<and> err = Some x \<and> s' = s2
           | (Inr assigned, s2) \<Rightarrow>
               err = None \<and> s' = s2 \<and>
               set free = {a. arInterface a \<in> set ifs \<and> index \<le> ifNumber (arInterface a) \<and>
                              arIP a \<in> set (ifIPv4s (arInterface a)) \<and> arIP a \<notin> biIP ` set assigned}))"
proof -
  obtain r s1 where i: "GetInterfaces e s = (r, s1)" by fastforce
  obtain r' s2 where a: "GetIPs e s1 = (r', s2)" by fastforce
  have fr: "fs_files s1 = fs_files s" "fs_dirs s1 = fs_dirs s" "client s1 = client s"
    "fs_files s2 = fs_files s1" "fs_dirs s2 = fs_dirs s1" "client s2 = client s1"
    using GetInterfaces_frame [of e s] GetIPs_frame [of e s1] i a by simp_all
  then show ?thesis
    using i a by (cases r; cases r') (simp_all add: FindFreeIPsAtIndex_def free_on_interfaces_read set_scan_free)
qed

lemma FindFree_law:
  assumes "registry_ok e s" and "GetInterfaces e s = (Inr ifs, s1)" and "GetIPs e s1 = (Inr assigned, s2)"
    and "\<forall>i \<in> set ifs. \<forall>x \<in> set (ifIPv4s i). is_V4 x"
  obtains s' where "FindFreeIPsAtIndex e index True s = ((scan_free index (map biIP assigned) ifs, None), s')"
    and "registry_ok e s'" and "registry_rest e s' = registry_rest e s"
    and "\<forall>x \<in> set (ips_at_index index ifs). if x \<in> biIP ` set assigned then registry_view e s' (ip_key e x) = None
         else registry_view e s' (ip_key e x) \<noteq> None \<and>
           (registry_view e s (ip_key e x) \<noteq> None \<longrightarrow> registry_view e s' (ip_key e x) = registry_view e s (ip_key e x))"
    and "\<forall>k. k \<notin> ip_key e ` set (ips_at_index index ifs) \<longrightarrow> registry_view e s' k = registry_view e s k"
proof -
  let ?used = "\<lambda>x. x \<in> set (map biIP assigned)"
  let ?xs = "ips_at_index index ifs"
  have fr: "fs_files s2 = fs_files s" "fs_dirs s2 = fs_dirs s" "client s2 = client s"
    using GetInterfaces_frame [of e s] GetIPs_frame [of e s1] assms(2,3) by simp_all
  then have ok: "registry_ok e s2" and view: "registry_view e s2 = registry_view e s"
    using registry_footprint assms(1) by metis+
  have "x \<in> set ?xs \<Longrightarrow> is_V4 x" for x using assms(4) by (auto simp: ips_at_index_def)
  then have inj: "\<forall>x \<in> set ?xs. \<forall>y \<in> set ?xs. ip_key e x = ip_key e y \<longrightarrow> ?used x = ?used y"
    using ip_key_inj by metis
  obtain s' where s': "sync_all (HasIP e) (TrackIP e) (ForgetIP e) ?used ?xs s2 = (None, s')" "registry_ok e s'"
      "registry_rest e s' = registry_rest e s2"
      "\<forall>k. k \<notin> ip_key e ` set ?xs \<longrightarrow> registry_view e s' k = registry_view e s2 k"
      "\<forall>x \<in> set ?xs. if ?used x then registry_view e s' (ip_key e x) = None
         else registry_view e s' (ip_key e x) \<noteq> None \<and>
           (registry_view e s2 (ip_key e x) \<noteq> None \<longrightarrow> registry_view e s' (ip_key e x) = registry_view e s2 (ip_key e x))"
    using reg.sync_all_law [OF ok inj] by (elim exE conjE)
  have run: "FindFreeIPsAtIndex e index True s = ((scan_free index (map biIP assigned) ifs, None), s')"
    using assms(2,3) free_on_interfaces_sync [OF s'(1), of "[]"] by (simp add: FindFreeIPsAtIndex_def)
  have "registry_rest e s' = registry_rest e s" using s'(3) fr by (simp add: registry_rest_def)
  with run s'(2,4,5) view show thesis by (intro that) simp_all
qed

text \<open>C3: finding the free addresses and synchronising the registry. When the metadata service lists
  the interfaces \<open>ifs\<close> and netlink the addresses \<open>assigned\<close>, \<^verbatim>\<open>FindFreeIPsAtIndex\<close> with
  \<^verbatim>\<open>updateRegistry\<close> on a working registry succeeds and returns exactly the addresses of the interfaces
  from the given index on that are not assigned; afterwards each of these interfaces' addresses is
  tracked if it is free, still with its old release time if it was tracked before, and not tracked if
  it is in use, while the registry's other entries are as they were.\<close>

theorem FindFree_synchronises:
  assumes "registry_ok e s" and "GetInterfaces e s = (Inr ifs, s1)" and "GetIPs e s1 = (Inr assigned, s2)"
    and "\<forall>i \<in> set ifs. \<forall>x \<in> set (ifIPv4s i). is_V4 x"
  shows "\<exists>free s'. FindFreeIPsAtIndex e index True s = ((free, None), s') \<and> registry_ok e s' \<and>
    set free = {a. arInterface a \<in> set ifs \<and> index \<le> ifNumber (arInterface a) \<and>
                   arIP a \<in> set (ifIPv4s (arInterface a)) \<and> arIP a \<notin> biIP ` set assigned} \<and>
    (\<forall>i \<in> set ifs. index \<le> ifNumber i \<longrightarrow> (\<forall>x \<in> set (ifIPv4s i).
       (if x \<in> biIP ` set assigned then registry_view e s' (ip_key e x) = None
        else registry_view e s' (ip_key e x) \<noteq> None \<and>
             (registry_view e s (ip_key e x) \<noteq> None \<longrightarrow>
                registry_view e s' (ip_key e x) = registry_view e s (ip_key e x))))) \<and>
    (\<forall>k. k \<notin> ip_key e ` set (ips_at_index index ifs) \<longrightarrow> registry_view e s' k = registry_view e s k)"
proof -
  obtain s' where s': "FindFreeIPsAtIndex e index True s = ((scan_free index (map biIP assigned) ifs, None), s')"
      "registry_ok e s'"
      "\<forall>x \<in> set (ips_at_index index ifs). if x \<in> biIP ` set assigned then registry_view e s' (ip_key e x) = None
         else registry_view e s' (ip_key e x) \<noteq> None \<and>
           (registry_view e s (ip_key e x) \<noteq> None \<longrightarrow> registry_view e s' (ip_key e x) = registry_view e s (ip_key e x))"
      "\<forall>k. k \<notin> ip_key e ` set (ips_at_index index ifs) \<longrightarrow> registry_view e s' k = registry_view e s k"
    by (rule FindFree_law [OF assms])
  have "x \<in> set (ips_at_index index ifs)" if "i \<in> set ifs" "index \<le> ifNumber i" "x \<in> set (ifIPv4s i)" for i x
    using that by (auto simp: ips_at_index_def)
  with s'(3) have "\<forall>i \<in> set ifs. index \<le> ifNumber i \<longrightarrow> (\<forall>x \<in> set (ifIPv4s i).
       (if x \<in> biIP ` set assigned then registry_view e s' (ip_key e x) = None
        else registry_view e s' (ip_key e x) \<noteq> None \<and>
             (registry_view e s (ip_key e x) \<noteq> None \<longrightarrow>
                registry_view e s' (ip_key e x) = registry_view e s (ip_key e x))))"
    by blast
  with s' show ?thesis by (simp add: set_scan_free)
qed

theorem FindFree_synchronises_witness:
  "\<exists>free s'. FindFreeIPsAtIndex demo 1 True (demo_registry []) = ((free, None), s') \<and> registry_ok demo s' \<and>
     registry_view demo s' (ip_key demo (V4 10 0 1 7)) \<noteq> None"
proof -
  let ?s = "demo_registry []"
  let ?b = "\<lparr>biIP = V4 10 0 0 4, biPrefix = 24, biLabel = ''eth1''\<rparr>"
  have w: "world ?s = demo_w" by (simp add: demo_registry_def demo_s_def)
  have ok: "registry_ok demo ?s" by (rule demo_registry_ok) (simp add: wf_entries_def)
  have p: "ParseIP (os_txt6 (os demo)) ''10.0.1.7'' = Some (V4 10 0 1 7)" by code_simp
  have i: "GetInterfaces demo ?s = (Inr [demo_if0, demo_if1 [V4 10 0 1 7]], ?s)"
    using demo_GetInterfaces [of ?s] by (simp add: w demo_w_def p map_filter_simps newline_def)
  have a: "GetIPs demo ?s = (Inr [?b], ?s)"
    by (simp add: demo_GetIPs w) (simp add: demo_w_def)
  have v: "\<forall>i \<in> set [demo_if0, demo_if1 [V4 10 0 1 7]]. \<forall>x \<in> set (ifIPv4s i). is_V4 x"
    by (simp add: demo_if0_def demo_if1_def is_V4_def)
  show ?thesis
    using FindFree_synchronises [OF ok i a v, of 1] by (auto simp: demo_if1_def)
qed

end
