(* ===== verification/CachedQuery.thy ===== *)
theory CachedQuery
  imports Cache
begin

text \<open>
  The shape that the cached clients share (\<^verbatim>\<open>ENILimits\<close> in \<^verbatim>\<open>aws/limits.go\<close>, \<^verbatim>\<open>subnetsCacheClient\<close>
  in \<^verbatim>\<open>aws/subnets.go\<close>, \<^verbatim>\<open>vpcCacheClient\<close> in \<^verbatim>\<open>aws/vpc.go\<close>): answer from the cache file when it holds
  an unexpired value, otherwise ask the API and store a successful answer. The locale \<open>json_codec\<close> is
  what a cached type owes the cache; every cached type of the program interprets it.
\<close>

definition cached ::
    "'w env \<Rightarrow> string \<Rightarrow> int \<Rightarrow> ('a \<Rightarrow> json) \<Rightarrow> (json \<Rightarrow> 'a \<Rightarrow> 'a option) \<Rightarrow> 'a \<Rightarrow>
     ('w st \<Rightarrow> ('a res \<times> 'w st) option) \<Rightarrow> 'w st \<Rightarrow> ('a res \<times> 'w st) option" where
  "cached e key lifetime enc dec zero fetch s =
     (let ((state, x), s) = cache_Get e key dec zero s
      in if state = CacheFound then Some (Inr x, s)
         else do { (r, s) \<leftarrow> fetch s;
                   case r of
                     Inl err \<Rightarrow> Some (Inl err, s)
                   | Inr x \<Rightarrow> (let (_, s) = cache_Store e key lifetime enc x s in Some (Inr x, s)) })"

lemma cached_hit:
  "fst (cache_Get e key dec zero s) = (CacheFound, x) \<Longrightarrow>
     cached e key lifetime enc dec zero fetch s = Some (Inr x, snd (cache_Get e key dec zero s))"
  by (simp add: cached_def case_prod_unfold)

lemma cached_miss:
  "fst (fst (cache_Get e key dec zero s)) \<noteq> CacheFound \<Longrightarrow> fetch (snd (cache_Get e key dec zero s)) = Some (Inr x, s1) \<Longrightarrow>
     cached e key lifetime enc dec zero fetch s = Some (Inr x, snd (cache_Store e key lifetime enc x s1))"
  by (simp add: cached_def case_prod_unfold)

lemma cached_cases:
  assumes "cached e key lifetime enc dec zero fetch s = Some (r, s')"
  obtains x where "fst (cache_Get e key dec zero s) = (CacheFound, x)" and "r = Inr x"
      and "s' = snd (cache_Get e key dec zero s)"
  | s1 where "fst (fst (cache_Get e key dec zero s)) \<noteq> CacheFound"
      and "fetch (snd (cache_Get e key dec zero s)) = Some (r, s1)"
      and "s' = s1 \<or> (\<exists>x. s' = snd (cache_Store e key lifetime enc x s1))"
proof -
  obtain state x sg where g: "cache_Get e key dec zero s = ((state, x), sg)" by (metis prod.collapse)
  show thesis
  proof (cases "state = CacheFound")
    case True
    with assms g have "r = Inr x" "s' = sg" by (simp_all add: cached_def)
    with True g show ?thesis by (intro that(1) [of x]) simp_all
  next
    case False
    obtain r1 s1 where f: "fetch sg = Some (r1, s1)"
      using assms g False by (cases "fetch sg") (auto simp: cached_def)
    have "r = r1 \<and> (s' = s1 \<or> (\<exists>x. s' = snd (cache_Store e key lifetime enc x s1)))"
      using assms g False f by (cases r1) (auto simp: cached_def case_prod_unfold)
    with g False f show ?thesis by (intro that(2) [of s1]) simp_all
  qed
qed

lemma cached_client:
  assumes "cached e key lifetime enc dec zero fetch s = Some (r, s')" and "P (client s)"
    and "\<And>s r s'. fetch s = Some (r, s') \<Longrightarrow> P (client s) \<Longrightarrow> P (client s')"
  shows "P (client s')"
  using assms(1)
proof (cases rule: cached_cases)
  case (1 x)
  with assms(2) show ?thesis by simp
next
  case (2 s1)
  then have "client s' = client s1" by auto
  with assms(3) [OF 2(2)] assms(2) show ?thesis by simp
qed

text \<open>The files a cached query touches: only its own cache file, besides what the fetch touches.\<close>

lemma cached_files:
  assumes "cached e key lifetime enc dec zero fetch s = Some (r, s')" and "p \<noteq> path_Join (cachePath e) key"
    and "\<And>s r s'. fetch s = Some (r, s') \<Longrightarrow> fs_files s' p = fs_files s p"
  shows "fs_files s' p = fs_files s p"
  using assms(1)
proof (cases rule: cached_cases)
  case (1 x)
  then show ?thesis by simp
next
  case (2 s1)
  then have "fs_files s' p = fs_files s1 p" using cache_Store_other [OF assms(2)] by auto
  with assms(3) [OF 2(2)] show ?thesis by simp
qed

lemma cache_dirs:
  "set (fs_dirs s) \<subseteq> set (fs_dirs (snd (ensureDirectory e s)))"
  "set (fs_dirs s) \<subseteq> set (fs_dirs (snd (cache_Get e key dec zero s)))"
  "set (fs_dirs s) \<subseteq> set (fs_dirs (snd (cache_Store e key lifetime enc x s)))"
proof -
  have m: "set (fs_dirs s) \<subseteq> set (fs_dirs (snd (os_MkdirAll e p s)))" for p s
    by (auto simp: os_MkdirAll_def ext_def split: option.splits)
  then show d: "set (fs_dirs s) \<subseteq> set (fs_dirs (snd (ensureDirectory e s)))" for s
    using m [of "snd (os_Stat e (cachePath e) s)"] by (simp add: ensureDirectory_def case_prod_unfold Let_def)
  have o: "fs_dirs (snd (os_OpenFile e p s)) = fs_dirs s" "fs_dirs (snd (json_Encode e p j s)) = fs_dirs s" for p j s
    by (simp_all add: os_OpenFile_def json_Encode_def ext_def split: option.splits)
  show "set (fs_dirs s) \<subseteq> set (fs_dirs (snd (cache_Get e key dec zero s)))"
    using d [of s] by (simp add: cache_Get_def case_prod_unfold Let_def split: sum.splits option.splits)
  show "set (fs_dirs s) \<subseteq> set (fs_dirs (snd (cache_Store e key lifetime enc x s)))"
    using d [of s] by (simp add: cache_Store_def case_prod_unfold Let_def o)
qed

lemma cached_dirs:
  assumes "cached e key lifetime enc dec zero fetch s = Some (r, s')"
    and "\<And>s r s'. fetch s = Some (r, s') \<Longrightarrow> set (fs_dirs s) \<subseteq> set (fs_dirs s')"
  shows "set (fs_dirs s) \<subseteq> set (fs_dirs s')"
  using assms(1)
proof (cases rule: cached_cases)
  case (1 x)
  with cache_dirs(2) show ?thesis by metis
next
  case (2 s1)
  have "set (fs_dirs s) \<subseteq> set (fs_dirs s1)"
    using assms(2) [OF 2(2)] cache_dirs(2) [of s e key dec zero] by blast
  moreover have "set (fs_dirs s1) \<subseteq> set (fs_dirs s')"
    using 2(3) cache_dirs(3) [of s1 e key lifetime enc] by auto
  ultimately show ?thesis by blast
qed

lemma cached_returns:
  assumes "\<exists>r s1. fetch (snd (cache_Get e key dec zero s)) = Some (r, s1)"
  shows "\<exists>r s'. cached e key lifetime enc dec zero fetch s = Some (r, s')"
proof -
  obtain r s1 where "fetch (snd (cache_Get e key dec zero s)) = Some (r, s1)" using assms by blast
  then show ?thesis by (cases r) (simp_all add: cached_def case_prod_unfold Let_def)
qed

locale json_codec =
  fixes enc :: "'a \<Rightarrow> json"
    and dec :: "json \<Rightarrow> 'a \<Rightarrow> 'a option"
    and zero :: 'a
    and valid :: "'a \<Rightarrow> bool"
  assumes dec_enc: "valid x \<Longrightarrow> dec (enc x) zero = Some x"
begin

text \<open>An answer that was stored is served again, without asking, until the lifetime is over; after that
  it is not.\<close>

lemma stored_state:
  assumes "cache_Store e key lifetime enc x s = (CacheFound, s1)" and "valid x" and "fs_ok e"
    and "representable (time_Add (store_clock e key s) lifetime)"
    and "fs_files s2 (path_Join (cachePath e) key) = fs_files s1 (path_Join (cachePath e) key)"
    and "cachePath e \<in> set (fs_dirs s2)"
  shows "t_ns (get_clock e key s2) \<le> t_ns (store_clock e key s) + lifetime - ns_per_s \<Longrightarrow>
           fst (cache_Get e key dec zero s2) = (CacheFound, x)"
    and "t_ns (store_clock e key s) + lifetime < t_ns (get_clock e key s2) \<Longrightarrow>
           fst (fst (cache_Get e key dec zero s2)) \<noteq> CacheFound"
proof -
  let ?t = "time_Add (store_clock e key s) lifetime"
  have doc: "fs_files s2 (path_Join (cachePath e) key) = Some (Some (encode_cacheable enc ?t x))"
    using cache_Store_file(1) [OF assms(1)] assms(5) by simp
  have dc: "decode_cacheable dec (encode_cacheable enc ?t x) zero = Some (trunc_s ?t, x)"
    using assms(2,4) by (intro decode_encode_cacheable dec_enc)
  note get = cache_Get_file [OF assms(3,6) doc dc]
  show "fst (cache_Get e key dec zero s2) = (CacheFound, x)"
    if "t_ns (get_clock e key s2) \<le> t_ns (store_clock e key s) + lifetime - ns_per_s"
    using jt.norm_gt [of ?t] that get by (simp add: time_Before_def time_Add_def)
  show "fst (fst (cache_Get e key dec zero s2)) \<noteq> CacheFound"
    if "t_ns (store_clock e key s) + lifetime < t_ns (get_clock e key s2)"
    using jt.norm_le [of ?t] that get by (simp add: time_Before_def time_Add_def)
qed

end

end
