(* ===== verification/Limits.thy ===== *)
theory Limits
  imports CachedQuery
begin

text \<open>
  \<^verbatim>\<open>aws/limits.go\<close>: how many interfaces and addresses the instance type allows, from EC2 or from the
  cache, with a fixed fallback. The limits are never absent: an error comes with the fallback.
\<close>

definition ENILimitsForInstanceType :: "'w env \<Rightarrow> string \<Rightarrow> 'w st \<Rightarrow> (ENILimit res \<times> 'w st) option" where
  "ENILimitsForInstanceType e itype s =
     do { ((present, err), s) \<leftarrow> newEC2 e s;
          case err of
            Some x \<Rightarrow> Some (Inl x, s)
          | None \<Rightarrow>
              do { (r, s) \<leftarrow> ec2call present (ec2_DescribeInstanceTypes (ec2 e) [itype]) s;
                   Some (case r of
                           Inl x \<Rightarrow> Inl x
                         | Inr [] \<Rightarrow> Inl (Errorf (''empty answer from DescribeInstanceTypes for '' @ itype))
                         | Inr (netInfo # _) \<Rightarrow>
                             Inr \<lparr>limAdapters = nfMaximumNetworkInterfaces netInfo,
                                  limIPv4 = nfIpv4AddressesPerInterface netInfo,
                                  limIPv6 = nfIpv6AddressesPerInterface netInfo\<rparr>, s) } }"

definition encode_ENILimit :: "ENILimit \<Rightarrow> json" where
  "encode_ENILimit l =
     JObj [(''Adapters'', JNum (limAdapters l)), (''IPv4'', JNum (limIPv4 l)), (''IPv6'', JNum (limIPv6 l))]"

definition ENILimit_field :: "string \<Rightarrow> json \<Rightarrow> ENILimit \<Rightarrow> ENILimit option" where
  "ENILimit_field k v l =
     (if eq_fold k ''Adapters'' then map_option (\<lambda>i. l\<lparr>limAdapters := i\<rparr>) (decode_int v (limAdapters l))
      else if eq_fold k ''IPv4'' then map_option (\<lambda>i. l\<lparr>limIPv4 := i\<rparr>) (decode_int v (limIPv4 l))
      else if eq_fold k ''IPv6'' then map_option (\<lambda>i. l\<lparr>limIPv6 := i\<rparr>) (decode_int v (limIPv6 l))
      else Some l)"

definition decode_ENILimit :: "json \<Rightarrow> ENILimit \<Rightarrow> ENILimit option" where
  "decode_ENILimit js l = decode_struct ENILimit_field js l"

definition zero_ENILimit :: ENILimit where
  "zero_ENILimit = \<lparr>limAdapters = 0, limIPv4 = 0, limIPv6 = 0\<rparr>"

definition limits_key :: "string \<Rightarrow> string" where
  "limits_key itype = ''eni_limits_for_'' @ itype"

definition ENILimits :: "'w env \<Rightarrow> 'w st \<Rightarrow> ((ENILimit \<times> error option) \<times> 'w st) option" where
  "ENILimits e s =
     (let ((idd, err), s) = getIDDoc e s
      in case (err, idd) of
           (None, Some d) \<Rightarrow>
             do { (r, s) \<leftarrow> cached e (limits_key (idInstanceType d)) (24 * 3600 * ns_per_s) encode_ENILimit
                               decode_ENILimit zero_ENILimit (ENILimitsForInstanceType e (idInstanceType d)) s;
                  Some (case r of
                          Inl err \<Rightarrow> (defaultLimit, errors_Wrap (Some err) ''unable get instance network limits'')
                        | Inr limit \<Rightarrow> (limit, None), s) }
         | _ \<Rightarrow> Some ((defaultLimit, errors_Wrap err ''unable get instance identity doc''), s))"

section \<open>The limits as a cached type\<close>

definition limit_valid :: "ENILimit \<Rightarrow> bool" where
  "limit_valid l = (in_int64 (limAdapters l) \<and> in_int64 (limIPv4 l) \<and> in_int64 (limIPv6 l))"

lemma eq_fold_limits [simp]:
  "eq_fold ''Adapters'' ''Adapters''" "\<not> eq_fold ''IPv4'' ''Adapters''" "eq_fold ''IPv4'' ''IPv4''"
  "\<not> eq_fold ''IPv6'' ''Adapters''" "\<not> eq_fold ''IPv6'' ''IPv4''" "eq_fold ''IPv6'' ''IPv6''"
  by code_simp+

interpretation lim: json_codec encode_ENILimit decode_ENILimit zero_ENILimit limit_valid
  by unfold_locales
     (simp add: encode_ENILimit_def decode_ENILimit_def decode_struct_def ENILimit_field_def limit_valid_def)

section \<open>Frame and totality\<close>

lemma newEC2_files [frame]:
  assumes "newEC2 e s = Some (r, s')"
  shows "fs_files s' = fs_files s" and "fs_dirs s' = fs_dirs s"
proof -
  let ?s = "s\<lparr>client := (client s)\<lparr>cl_onceEc2 := True\<rparr>\<rparr>"
  obtain idd err s1 where g: "getIDDoc e ?s = ((idd, err), s1)" by (metis prod.collapse)
  have "fs_files s1 = fs_files s" "fs_dirs s1 = fs_dirs s"
    using getIDDoc_frame [of e ?s] g by simp_all
  with assms g show "fs_files s' = fs_files s" and "fs_dirs s' = fs_dirs s"
    by (auto simp: newEC2_def split: if_splits option.splits)
qed

lemma ENILimitsForInstanceType_files [frame]:
  assumes "ENILimitsForInstanceType e t s = Some (r, s')"
  shows "fs_files s' = fs_files s" and "fs_dirs s' = fs_dirs s"
proof -
  obtain present err s1 where n: "newEC2 e s = Some ((present, err), s1)"
    using assms by (auto simp: ENILimitsForInstanceType_def bind_eq_Some_conv)
  then have "fs_files s' = fs_files s1 \<and> fs_dirs s' = fs_dirs s1"
    using assms by (cases err; cases present)
       (simp_all add: ENILimitsForInstanceType_def ec2call_def case_prod_unfold, auto)
  with newEC2_files [OF n] show "fs_files s' = fs_files s" and "fs_dirs s' = fs_dirs s" by simp_all
qed

text \<open>A ready client stays ready and gets an answer.\<close>

lemma ENILimitsForInstanceType_ready:
  assumes "client_ready e (client s)"
  shows "\<exists>r s'. ENILimitsForInstanceType e t s = Some (r, s') \<and> client_ready e (client s')"
proof -
  obtain s1 where "newEC2 e s = Some ((True, None), s1)" "client_ready e (client s1)"
    using assms by (rule newEC2_ready)
  then show ?thesis by (simp add: ENILimitsForInstanceType_def ec2call_def ext_def)
qed

lemma ENILimitsForInstanceType_client:
  "ENILimitsForInstanceType e t s = Some (r, s') \<Longrightarrow> client_ready e (client s) \<Longrightarrow> client_ready e (client s')"
  using ENILimitsForInstanceType_ready [of e s t] by auto

definition limits_query :: "'w env \<Rightarrow> string \<Rightarrow> 'w st \<Rightarrow> (ENILimit res \<times> 'w st) option" where
  "limits_query e t = cached e (limits_key t) (24 * 3600 * ns_per_s) encode_ENILimit decode_ENILimit zero_ENILimit
     (ENILimitsForInstanceType e t)"

lemma ENILimits_run:
  assumes "getIDDoc e s = ((Some d, None), s1)"
  shows "ENILimits e s = map_option (\<lambda>(r, s).
      (case r of Inl err \<Rightarrow> (defaultLimit, errors_Wrap (Some err) ''unable get instance network limits'')
       | Inr limit \<Rightarrow> (limit, None), s)) (limits_query e (idInstanceType d) s1)"
  using assms by (cases "limits_query e (idInstanceType d) s1") (auto simp: ENILimits_def limits_query_def)

lemma limits_query_ready:
  assumes "client_ready e (client s)"
  obtains r s' where "limits_query e t s = Some (r, s')" and "client_ready e (client s')"
    and "\<And>p. p \<noteq> path_Join (cachePath e) (limits_key t) \<Longrightarrow> fs_files s' p = fs_files s p"
    and "set (fs_dirs s) \<subseteq> set (fs_dirs s')"
proof -
  obtain r s' where q: "limits_query e t s = Some (r, s')"
    using cached_returns [of "ENILimitsForInstanceType e t" e "limits_key t" decode_ENILimit zero_ENILimit s]
      ENILimitsForInstanceType_ready [of e "snd (cache_Get e (limits_key t) decode_ENILimit zero_ENILimit s)" t] assms
    unfolding limits_query_def by fastforce
  note c = q [unfolded limits_query_def]
  have "client_ready e (client s')"
    by (rule cached_client [where P = "client_ready e", OF c assms]) (rule ENILimitsForInstanceType_client)
  moreover have "p \<noteq> path_Join (cachePath e) (limits_key t) \<Longrightarrow> fs_files s' p = fs_files s p" for p
    using cached_files [OF c] ENILimitsForInstanceType_files(1) by fastforce
  moreover have "set (fs_dirs s) \<subseteq> set (fs_dirs s')"
    using cached_dirs [OF c] ENILimitsForInstanceType_files(2) by fastforce
  ultimately show thesis using that q by blast
qed

text \<open>A ready client always gets limits, and stays ready; an error comes with the fallback.\<close>

lemma ENILimits_ready:
  assumes "client_ready e (client s)"
  obtains limit err s' where "ENILimits e s = Some ((limit, err), s')" and "client_ready e (client s')"
    and "err \<noteq> None \<Longrightarrow> limit = defaultLimit"
    and "\<And>p. (\<And>t. p \<noteq> path_Join (cachePath e) (limits_key t)) \<Longrightarrow> fs_files s' p = fs_files s p"
    and "set (fs_dirs s) \<subseteq> set (fs_dirs s')"
proof -
  obtain d s1 where g: "getIDDoc e s = ((Some d, None), s1)" "client_ready e (client s1)"
    "fs_files s1 = fs_files s" "fs_dirs s1 = fs_dirs s"
    using assms by (rule getIDDoc_ready)
  obtain r s' where q: "limits_query e (idInstanceType d) s1 = Some (r, s')" "client_ready e (client s')"
    "\<And>p. p \<noteq> path_Join (cachePath e) (limits_key (idInstanceType d)) \<Longrightarrow> fs_files s' p = fs_files s1 p"
    "set (fs_dirs s1) \<subseteq> set (fs_dirs s')"
    using limits_query_ready [OF g(2)] by metis
  let ?a = "case r of Inl err \<Rightarrow> (defaultLimit, errors_Wrap (Some err) ''unable get instance network limits'') | Inr l \<Rightarrow> (l, None)"
  obtain limit err where a: "?a = (limit, err)" by fastforce
  have "ENILimits e s = Some ((limit, err), s')" using ENILimits_run [OF g(1)] q(1) a by simp
  moreover have "err \<noteq> None \<Longrightarrow> limit = defaultLimit" using a by (cases r) simp_all
  ultimately show thesis using q(2-4) g(3,4) by (intro that [of limit err s']) simp_all
qed

text \<open>The cache does not depend on EC2.\<close>

lemma os_ec2: "os (e\<lparr>ec2 := any\<rparr>) = os e"
  by simp

lemma fs_ec2:
  "os_Stat (e\<lparr>ec2 := any\<rparr>) = os_Stat e" "os_MkdirAll (e\<lparr>ec2 := any\<rparr>) = os_MkdirAll e"
  "os_Open (e\<lparr>ec2 := any\<rparr>) = os_Open e" "os_OpenFile (e\<lparr>ec2 := any\<rparr>) = os_OpenFile e"
  "json_Encode (e\<lparr>ec2 := any\<rparr>) = json_Encode e" "cachePath (e\<lparr>ec2 := any\<rparr>) = cachePath e"
  unfolding fun_eq_iff os_Stat_def os_MkdirAll_def os_Open_def os_OpenFile_def json_Encode_def cachePath_def
    run_path_def os_ec2
  by blast+

lemma cache_ec2:
  "cache_Get (e\<lparr>ec2 := any\<rparr>) = cache_Get e" "cache_Store (e\<lparr>ec2 := any\<rparr>) = cache_Store e"
  unfolding fun_eq_iff cache_Get_def cache_Store_def ensureDirectory_def fs_ec2 os_ec2 by blast+

lemma md_ec2: "md (e\<lparr>ec2 := any\<rparr>) = md e"
  by simp

lemma getIDDoc_ec2: "getIDDoc (e\<lparr>ec2 := any\<rparr>) = getIDDoc e"
  unfolding fun_eq_iff getIDDoc_def md_ec2 by blast

lemma limits_query_ec2:
  "limits_query (e\<lparr>ec2 := any\<rparr>) t s =
     cached e (limits_key t) (24 * 3600 * ns_per_s) encode_ENILimit decode_ENILimit zero_ENILimit
       (ENILimitsForInstanceType (e\<lparr>ec2 := any\<rparr>) t) s"
  unfolding limits_query_def cached_def cache_ec2 by (rule refl)

lemma cache_Store_works:
  assumes "fs_ok e" and "fs_files s (cachePath e) = None"
  shows "fst (cache_Store e key lifetime enc x s) = CacheFound"
  using assms
  by (simp add: cache_Store_def ensureDirectory_def os_Stat_def os_MkdirAll_def os_OpenFile_def json_Encode_def
      ext_def case_prod_unfold Let_def fs_okD)

text \<open>Without a cache file the answer comes from EC2, and is stored.\<close>

lemma limits_query_miss:
  assumes "limits_query e t s = Some (Inr limit, s1)" and "fs_ok e" and "fs_files s (cachePath e) = None"
    and "fs_files s (path_Join (cachePath e) (limits_key t)) = None"
  obtains sf where "ENILimitsForInstanceType e t (snd (cache_Get e (limits_key t) decode_ENILimit zero_ENILimit s)) = Some (Inr limit, sf)"
    and "cache_Store e (limits_key t) (24 * 3600 * ns_per_s) encode_ENILimit limit sf = (CacheFound, s1)"
proof -
  let ?g = "cache_Get e (limits_key t) decode_ENILimit zero_ENILimit s"
  have miss: "fst (fst ?g) \<noteq> CacheFound"
    using assms(4) by (simp add: cache_Get_def os_Open_def ext_def case_prod_unfold Let_def split: option.splits)
  obtain sf where f: "ENILimitsForInstanceType e t (snd ?g) = Some (Inr limit, sf)"
      "s1 = snd (cache_Store e (limits_key t) (24 * 3600 * ns_per_s) encode_ENILimit limit sf)"
    using assms(1) miss unfolding limits_query_def
    by (cases "ENILimitsForInstanceType e t (snd ?g)")
       (auto simp: cached_def case_prod_unfold Let_def split: sum.splits)
  have "fs_files sf (cachePath e) = None" using ENILimitsForInstanceType_files(1) [OF f(1)] assms(3) by simp
  from cache_Store_works [OF assms(2) this] f show thesis using that by (metis prod.collapse)
qed

lemma ENILimits_stored:
  assumes "cache_Store e (limits_key (idInstanceType d)) (24 * 3600 * ns_per_s) encode_ENILimit limit sf = (CacheFound, s1)"
    and "limit_valid limit" "fs_ok e"
    and "representable (time_Add (store_clock e (limits_key (idInstanceType d)) sf) (24 * 3600 * ns_per_s))"
    and "fs_files s2 (path_Join (cachePath e) (limits_key (idInstanceType d))) =
           fs_files s1 (path_Join (cachePath e) (limits_key (idInstanceType d)))"
    and "set (fs_dirs s1) \<subseteq> set (fs_dirs s2)" and "getIDDoc e s2 = ((Some d, None), s3)" and "client_ready e (client s3)"
  shows "t_ns (get_clock e (limits_key (idInstanceType d)) s3) \<le>
           t_ns (store_clock e (limits_key (idInstanceType d)) sf) + 24 * 3600 * ns_per_s - ns_per_s \<Longrightarrow>
         \<exists>s'. ENILimits (e\<lparr>ec2 := any\<rparr>) s2 = Some ((limit, None), s')"
    and "t_ns (store_clock e (limits_key (idInstanceType d)) sf) + 24 * 3600 * ns_per_s <
           t_ns (get_clock e (limits_key (idInstanceType d)) s3) \<Longrightarrow>
         \<exists>sg r sf s'. ENILimitsForInstanceType (e\<lparr>ec2 := any\<rparr>) (idInstanceType d) sg = Some (r, sf) \<and>
           ENILimits (e\<lparr>ec2 := any\<rparr>) s2 = Some (case r of
               Inl err \<Rightarrow> (defaultLimit, errors_Wrap (Some err) ''unable get instance network limits'')
             | Inr l \<Rightarrow> (l, None), s')"
proof -
  let ?key = "limits_key (idInstanceType d)" and ?e = "e\<lparr>ec2 := any\<rparr>"
  let ?g = "cache_Get e ?key decode_ENILimit zero_ENILimit s3"
  have s3: "fs_files s3 (path_Join (cachePath e) ?key) = fs_files s1 (path_Join (cachePath e) ?key)" "cachePath e \<in> set (fs_dirs s3)"
    using getIDDoc_frame [of e s2] assms(5-7) cache_Store_file(2) [OF assms(1)] by auto
  note state = lim.stored_state [OF assms(1-4) s3]
    and run = ENILimits_run [of ?e s2 d s3, unfolded getIDDoc_ec2 limits_query_ec2, OF assms(7)]
  show "\<exists>s'. ENILimits ?e s2 = Some ((limit, None), s')"
    if "t_ns (get_clock e ?key s3) \<le> t_ns (store_clock e ?key sf) + 24 * 3600 * ns_per_s - ns_per_s"
    using cached_hit [OF state(1) [OF that]] run by simp
  obtain r s4 where q: "ENILimitsForInstanceType ?e (idInstanceType d) (snd ?g) = Some (r, s4)"
    using ENILimitsForInstanceType_ready [of ?e "snd ?g" "idInstanceType d"] assms(8) by auto
  show "\<exists>sg r sf s'. ENILimitsForInstanceType ?e (idInstanceType d) sg = Some (r, sf) \<and>
      ENILimits ?e s2 = Some (case r of
          Inl err \<Rightarrow> (defaultLimit, errors_Wrap (Some err) ''unable get instance network limits'')
        | Inr l \<Rightarrow> (l, None), s')"
    if "t_ns (store_clock e ?key sf) + 24 * 3600 * ns_per_s < t_ns (get_clock e ?key s3)"
    using state(2) [OF that] q run
    by (cases r) (auto simp: cached_def case_prod_unfold Let_def intro!: exI [of _ "snd ?g"])
qed

text \<open>C24: the limits are asked for once a day. When \<^verbatim>\<open>ENILimits\<close> finds no cache file for the instance's type,
  a successful answer is one that EC2 gave. As long as the cache file stays as that call left it, every further
  \<^verbatim>\<open>ENILimits\<close> on the node, also of another process, answers the same limits without an error until one second
  before 24 hours have passed since the answer was stored, whatever EC2 would answer now; after the 24 hours it asks
  EC2 again.\<close>

theorem ENILimits_cached:
  assumes "ENILimits e s = Some ((limit, None), s1)" and "fst (getIDDoc e s) = (Some d, None)"
    and "fs_files s (path_Join (cachePath e) (limits_key (idInstanceType d))) = None" and "fs_files s (cachePath e) = None"
    and "limit_valid limit" and "fs_ok e" and "\<forall>w. representable (time_Add (fst (os_Now (os e) w)) (24 * 3600 * ns_per_s))"
  shows "\<exists>sf. ENILimitsForInstanceType e (idInstanceType d)
        (snd (cache_Get e (limits_key (idInstanceType d)) decode_ENILimit zero_ENILimit (snd (getIDDoc e s)))) = Some (Inr limit, sf) \<and>
    (\<forall>any s2. let key = limits_key (idInstanceType d); file = path_Join (cachePath e) key;
                  e' = e\<lparr>ec2 := any\<rparr>;
                  stored = t_ns (store_clock e key sf);
                  now = t_ns (get_clock e key (snd (getIDDoc e s2)))
       in fs_files s2 file = fs_files s1 file \<and> set (fs_dirs s1) \<subseteq> set (fs_dirs s2) \<and>
          client_ready e (client s2) \<and> fst (getIDDoc e s2) = (Some d, None) \<longrightarrow>
            (now \<le> stored + 24 * 3600 * ns_per_s - ns_per_s \<longrightarrow> (\<exists>s'. ENILimits e' s2 = Some ((limit, None), s'))) \<and>
            (stored + 24 * 3600 * ns_per_s < now \<longrightarrow>
               (\<exists>sg r sf s'. ENILimitsForInstanceType e' (idInstanceType d) sg = Some (r, sf) \<and>
                  ENILimits e' s2 = Some (case r of
                      Inl err \<Rightarrow> (defaultLimit, errors_Wrap (Some err) ''unable get instance network limits'')
                    | Inr l \<Rightarrow> (l, None), s'))))"
proof -
  let ?t = "idInstanceType d"
  let ?key = "limits_key ?t"
  let ?file = "path_Join (cachePath e) ?key"
  obtain s0 where g: "getIDDoc e s = ((Some d, None), s0)" using assms(2) by (metis prod.collapse)
  then have snd_g: "snd (getIDDoc e s) = s0" by simp
  have f0: "fs_files s0 = fs_files s" using getIDDoc_frame(1) [of e s] g by simp
  have "limits_query e ?t s0 = Some (Inr limit, s1)"
    using assms(1) unfolding ENILimits_run [OF g]
    by (cases "limits_query e ?t s0"; cases "fst (the (limits_query e ?t s0))") (auto simp: errors_Wrap_def)
  then obtain sf where f: "ENILimitsForInstanceType e ?t (snd (cache_Get e ?key decode_ENILimit zero_ENILimit s0)) = Some (Inr limit, sf)"
      "cache_Store e ?key (24 * 3600 * ns_per_s) encode_ENILimit limit sf = (CacheFound, s1)"
    by (rule limits_query_miss) (use assms(3,4,6) f0 in simp_all)
  have rep: "representable (time_Add (store_clock e ?key sf) (24 * 3600 * ns_per_s))"
    using assms(7) by (simp add: store_clock_def)
  have s3: "\<exists>s3. getIDDoc e s2 = ((Some d, None), s3) \<and> snd (getIDDoc e s2) = s3 \<and> client_ready e (client s3)"
    if "client_ready e (client s2)" "fst (getIDDoc e s2) = (Some d, None)" for s2
    using getIDDoc_ready [OF that(1)] that(2) by (metis prod.collapse snd_conv)
  show ?thesis
    unfolding Let_def
  proof (rule exI [of _ sf], rule conjI [OF f(1) [folded snd_g]], intro allI impI, elim conjE)
    fix any s2
    assume s2: "fs_files s2 ?file = fs_files s1 ?file" "set (fs_dirs s1) \<subseteq> set (fs_dirs s2)"
      "client_ready e (client s2)" "fst (getIDDoc e s2) = (Some d, None)"
    obtain s3 where s3: "getIDDoc e s2 = ((Some d, None), s3)" "snd (getIDDoc e s2) = s3" "client_ready e (client s3)"
      using s3 [OF s2(3,4)] by blast
    show "(t_ns (get_clock e ?key (snd (getIDDoc e s2))) \<le> t_ns (store_clock e ?key sf) + 24 * 3600 * ns_per_s - ns_per_s \<longrightarrow>
          (\<exists>s'. ENILimits (e\<lparr>ec2 := any\<rparr>) s2 = Some ((limit, None), s'))) \<and>
        (t_ns (store_clock e ?key sf) + 24 * 3600 * ns_per_s < t_ns (get_clock e ?key (snd (getIDDoc e s2))) \<longrightarrow>
          (\<exists>sg r sf s'. ENILimitsForInstanceType (e\<lparr>ec2 := any\<rparr>) ?t sg = Some (r, sf) \<and>
             ENILimits (e\<lparr>ec2 := any\<rparr>) s2 = Some (case r of
                 Inl err \<Rightarrow> (defaultLimit, errors_Wrap (Some err) ''unable get instance network limits'')
               | Inr l \<Rightarrow> (l, None), s')))"
      unfolding s3(2) using ENILimits_stored [OF f(2) assms(5,6) rep s2(1,2) s3(1,3)] by blast
  qed
qed

definition demo_iddoc :: IDDoc where
  "demo_iddoc = \<lparr>idInstanceID = ''i-1'', idAvailabilityZone = ''az'', idRegion = ''r'', idInstanceType = ''c5.large''\<rparr>"

text \<open>The scenario's files and its identity service leave the outside world as it is.\<close>

lemma demo_world:
  "world (snd (os_OpenFile demo p s)) = world s" "world (snd (os_Open demo p s)) = world s"
  "world (snd (ensureDirectory demo s)) = world s" "world (snd (cache_Get demo k dec z s)) = world s"
  "world (snd (cache_Store demo k life enc x s)) = world s" "world (snd (getIDDoc demo s)) = world s"
  "newEC2 demo s = Some (r, s') \<Longrightarrow> world s' = world s"
  "ENILimitsForInstanceType demo t s = Some (q, s') \<Longrightarrow> world s' = world s"
proof -
  show io: "world (snd (os_OpenFile demo p s)) = world s" "world (snd (os_Open demo p s)) = world s"
    "world (snd (ensureDirectory demo s)) = world s" for p s
    by (simp_all add: ensureDirectory_def os_OpenFile_def os_Stat_def os_MkdirAll_def os_Open_def ext_def
        case_prod_unfold Let_def demo_def demo_os_def split: option.splits)
  show "world (snd (cache_Get demo k dec z s)) = world s"
    using io(2,3) by (simp add: cache_Get_def case_prod_unfold Let_def split: sum.splits option.splits)
      (simp add: ext_def demo_def demo_os_def)
  show "world (snd (cache_Store demo k life enc x s)) = world s"
    using io(1,3) by (simp add: cache_Store_def case_prod_unfold Let_def json_Encode_def split: option.splits)
      (simp add: ext_def demo_def demo_os_def)
  show doc: "world (snd (getIDDoc demo s)) = world s" for s
    by (simp add: getIDDoc_def ext_def case_prod_unfold Let_def demo_def demo_md_def)
  show ec2: "world s' = world s" if "newEC2 demo s = Some (r, s')" for r s'
    using that doc [of "s\<lparr>client := (client s)\<lparr>cl_onceEc2 := True\<rparr>\<rparr>"]
    by (auto simp: newEC2_def case_prod_unfold Let_def split: if_splits option.splits)
  show "world s' = world s" if run: "ENILimitsForInstanceType demo t s = Some (q, s')"
  proof -
    obtain present err s1 where n: "newEC2 demo s = Some ((present, err), s1)"
      using run by (auto simp: ENILimitsForInstanceType_def bind_eq_Some_conv)
    then have "world s' = world s1"
      using run by (cases err; cases present)
        (auto simp: ENILimitsForInstanceType_def ec2call_def ext_def demo_def demo_ec2_def)
    with ec2 [OF n] show ?thesis by simp
  qed
qed

lemma demo_ENILimits:
  assumes "client_ready demo (client s)" and "\<And>t. fs_files s (path_Join (cachePath demo) (limits_key t)) = None"
  obtains s' where "ENILimits demo s = Some ((\<lparr>limAdapters = 3, limIPv4 = 10, limIPv6 = 10\<rparr>, None), s')"
    and "world s' = world s" and "client_ready demo (client s')"
    and "\<And>p. (\<And>t. p \<noteq> path_Join (cachePath demo) (limits_key t)) \<Longrightarrow> fs_files s' p = fs_files s p"
proof -
  obtain d s1 where g: "getIDDoc demo s = ((Some d, None), s1)" "client_ready demo (client s1)" "fs_files s1 = fs_files s"
    using assms(1) by (rule getIDDoc_ready)
  let ?k = "limits_key (idInstanceType d)"
  let ?g = "cache_Get demo ?k decode_ENILimit zero_ENILimit s1"
  have miss: "fst (fst ?g) \<noteq> CacheFound"
    using assms(2) g(3) by (simp add: cache_Get_def os_Open_def ext_def case_prod_unfold Let_def split: option.splits)
  have "client_ready demo (client (snd ?g))" using g(2) by simp
  then obtain s2 where n: "newEC2 demo (snd ?g) = Some ((True, None), s2)" "client_ready demo (client s2)"
    "fs_files s2 = fs_files (snd ?g)" by (rule newEC2_ready)
  have f: "ENILimitsForInstanceType demo (idInstanceType d) (snd ?g) = Some (Inr \<lparr>limAdapters = 3, limIPv4 = 10, limIPv6 = 10\<rparr>, s2)"
    using n(1) by (simp add: ENILimitsForInstanceType_def ec2call_def ext_def demo_def demo_ec2_def)
  have w: "world s2 = world s"
    using demo_world(7) [OF n(1)] demo_world(4) [of ?k decode_ENILimit zero_ENILimit s1] demo_world(6) [of s] g(1) by simp
  show thesis
    by (rule that [of "snd (cache_Store demo ?k (24 * 3600 * ns_per_s) encode_ENILimit \<lparr>limAdapters = 3, limIPv4 = 10, limIPv6 = 10\<rparr> s2)"])
       (use ENILimits_run [OF g(1)] cached_miss [OF miss, of "ENILimitsForInstanceType demo (idInstanceType d)", OF f] w n(2,3) g(3) in
         \<open>simp_all add: limits_query_def demo_world cache_Store_other\<close>)
qed

theorem ENILimits_cached_witness:
  "\<exists>s1 s'. ENILimits demo demo_s = Some ((\<lparr>limAdapters = 3, limIPv4 = 10, limIPv6 = 10\<rparr>, None), s1) \<and>
     ENILimits (demo\<lparr>ec2 := demo_ec2\<lparr>ec2_DescribeInstanceTypes := \<lambda>_ w. (Inl (Ext ''down''), w)\<rparr>\<rparr>) (s1\<lparr>client := fresh_client\<rparr>) =
       Some ((\<lparr>limAdapters = 3, limIPv4 = 10, limIPv6 = 10\<rparr>, None), s')"
proof -
  let ?l = "\<lparr>limAdapters = 3, limIPv4 = 10, limIPv6 = 10\<rparr>"
  let ?k = "limits_key (idInstanceType demo_iddoc)"
  have files: "fs_files demo_s p = None" and c: "client demo_s = fresh_client" for p by (simp_all add: demo_s_def)
  obtain s1 where run: "ENILimits demo demo_s = Some ((?l, None), s1)" "world s1 = world demo_s"
    by (rule demo_ENILimits [of demo_s]) (use files c in simp_all)
  let ?s2 = "s1\<lparr>client := fresh_client\<rparr>"
  have doc: "fst (getIDDoc demo s) = (Some demo_iddoc, None)" if "client s = fresh_client" for s
    using that by (simp add: getIDDoc_def ext_def demo_def demo_md_def fresh_client_def demo_iddoc_def)
  have now: "\<forall>w. representable (time_Add (fst (os_Now (os demo) w)) (24 * 3600 * ns_per_s))"
  proof
    fix w show "representable (time_Add (fst (os_Now (os demo) w)) (24 * 3600 * ns_per_s))"
      using pos_mod_bound [of 100000000000 "d_sec w"]
      by (simp add: demo_def demo_os_def representable_def time_Add_def ns_per_s_def days_before_year_def)
  qed
  have v: "limit_valid ?l" by (simp add: limit_valid_def in_int64_def)
  obtain sf where sf: "ENILimitsForInstanceType demo (idInstanceType demo_iddoc)
      (snd (cache_Get demo ?k decode_ENILimit zero_ENILimit (snd (getIDDoc demo demo_s)))) = Some (Inr ?l, sf)"
    and later: "\<And>any. t_ns (get_clock demo ?k (snd (getIDDoc demo ?s2))) \<le> t_ns (store_clock demo ?k sf) + 24 * 3600 * ns_per_s - ns_per_s \<Longrightarrow>
      \<exists>s'. ENILimits (demo\<lparr>ec2 := any\<rparr>) ?s2 = Some ((?l, None), s')"
    using ENILimits_cached [OF run(1) doc [OF c] files files v demo_fs_ok now] doc [of ?s2]
    unfolding Let_def by auto
  have "store_clock demo ?k sf = get_clock demo ?k (snd (getIDDoc demo ?s2))"
    using demo_world(8) [OF sf] run(2) by (simp add: store_clock_def get_clock_def demo_world)
  then show ?thesis using run(1) later by (auto simp: ns_per_s_def)
qed

end
