(* ===== verification/Subnets.thy ===== *)
theory Subnets
  imports Limits Metadata
begin

text \<open>
  \<^verbatim>\<open>aws/subnets.go\<close>: the subnets of the instance's VPC and availability zone, from EC2 or from the
  cache, with the lifetime that \<^verbatim>\<open>init\<close> of \<^verbatim>\<open>aws/client.go\<close> sets.
\<close>

section \<open>From EC2\<close>

text \<open>Tags: \<^verbatim>\<open>Name\<close> sets the name, every other key goes into the tag map.\<close>

fun subnet_tags :: "(string \<times> string) list \<Rightarrow> Subnet \<Rightarrow> Subnet" where
  "subnet_tags [] subnet = subnet"
| "subnet_tags ((k, v) # ts) subnet =
     subnet_tags ts (if k = ''Name'' then subnet\<lparr>snName := v\<rparr> else subnet\<lparr>snTags := map_put k v (snTags subnet)\<rparr>)"

definition subnet_of :: "ec2_Subnet \<Rightarrow> Subnet" where
  "subnet_of awsSub =
     subnet_tags (esTags awsSub)
       \<lparr>snID = esSubnetId awsSub, snCidr = esCidrBlock awsSub, snIsDefault = esDefaultForAz awsSub,
        snAvailableAddressCount = esAvailableIpAddressCount awsSub, snName = [], snTags = []\<rparr>"

text \<open>The call panics when the identity document is \<^verbatim>\<open>nil\<close> or the instance has no interface.\<close>

definition GetSubnetsForInstance_aws :: "'w env \<Rightarrow> 'w st \<Rightarrow> (Subnet list res \<times> 'w st) option" where
  "GetSubnetsForInstance_aws e s =
     (let ((idd, err), s) = getIDDoc e s
      in case err of
           Some x \<Rightarrow> Some (Inl x, s)
         | None \<Rightarrow>
             do { d \<leftarrow> idd;
                  let az = idAvailabilityZone d;
                  ((present, err), s) \<leftarrow> newEC2 e s;
                  case err of
                    Some x \<Rightarrow> Some (Inl x, s)
                  | None \<Rightarrow>
                      (let (r, s) = GetInterfaces e s
                       in case r of
                            Inl x \<Rightarrow> Some (Inl (Wrap ''failed to get interfaces associated with this EC2 machine'' x), s)
                          | Inr [] \<Rightarrow> None
                          | Inr (eth0 # _) \<Rightarrow>
                              do { (r, s) \<leftarrow> ec2call present
                                      (ec2_DescribeSubnets (ec2 e) [newEc2Filter ''vpc-id'' [ifVpcID eth0],
                                                                    newEc2Filter ''availabilityZone'' [az]]) s;
                                   Some (case r of Inl x \<Rightarrow> Inl x | Inr subs \<Rightarrow> Inr (map subnet_of subs), s) }) })"

section \<open>Through the cache\<close>

definition encode_Subnet :: "Subnet \<Rightarrow> json" where
  "encode_Subnet n =
     JObj [(''ID'', JStr (snID n)), (''Cidr'', JStr (snCidr n)), (''IsDefault'', JBool (snIsDefault n)),
           (''AvailableAddressCount'', JNum (snAvailableAddressCount n)), (''Name'', JStr (snName n)),
           (''Tags'', JObj (map (\<lambda>(k, v). (k, JStr v)) (snTags n)))]"

definition Subnet_field :: "string \<Rightarrow> json \<Rightarrow> Subnet \<Rightarrow> Subnet option" where
  "Subnet_field k v n =
     (if eq_fold k ''ID'' then map_option (\<lambda>x. n\<lparr>snID := x\<rparr>) (decode_string v (snID n))
      else if eq_fold k ''Cidr'' then map_option (\<lambda>x. n\<lparr>snCidr := x\<rparr>) (decode_string v (snCidr n))
      else if eq_fold k ''IsDefault'' then map_option (\<lambda>x. n\<lparr>snIsDefault := x\<rparr>) (decode_bool v (snIsDefault n))
      else if eq_fold k ''AvailableAddressCount'' then
        map_option (\<lambda>x. n\<lparr>snAvailableAddressCount := x\<rparr>) (decode_int v (snAvailableAddressCount n))
      else if eq_fold k ''Name'' then map_option (\<lambda>x. n\<lparr>snName := x\<rparr>) (decode_string v (snName n))
      else if eq_fold k ''Tags'' then map_option (\<lambda>x. n\<lparr>snTags := x\<rparr>) (decode_string_map v (snTags n))
      else Some n)"

definition zero_Subnet :: Subnet where
  "zero_Subnet = \<lparr>snID = [], snCidr = [], snIsDefault = False, snAvailableAddressCount = 0, snName = [], snTags = []\<rparr>"

text \<open>A \<^verbatim>\<open>nil\<close> slice is written as \<^verbatim>\<open>null\<close>, and \<^verbatim>\<open>null\<close> leaves the target slice as it is.\<close>

definition encode_subnets :: "Subnet list \<Rightarrow> json" where
  "encode_subnets ns = (if ns = [] then JNull else JArr (map encode_Subnet ns))"

definition decode_subnets :: "json \<Rightarrow> Subnet list \<Rightarrow> Subnet list option" where
  "decode_subnets js ns =
     (case js of
        JNull \<Rightarrow> Some ns
      | JArr xs \<Rightarrow> decode_list (\<lambda>j. decode_struct Subnet_field j zero_Subnet) xs
      | _ \<Rightarrow> None)"

definition subnets_expiration :: int where
  "subnets_expiration = 5 * 60 * ns_per_s"

definition GetSubnetsForInstance :: "'w env \<Rightarrow> 'w st \<Rightarrow> (Subnet list res \<times> 'w st) option" where
  "GetSubnetsForInstance e s =
     cached e ''subnets_for_instance'' subnets_expiration encode_subnets decode_subnets [] (GetSubnetsForInstance_aws e) s"

section \<open>The subnets as a cached type\<close>

definition subnet_valid :: "Subnet \<Rightarrow> bool" where
  "subnet_valid n = (in_int64 (snAvailableAddressCount n) \<and> distinct (map fst (snTags n)))"

lemma eq_fold_subnet [simp]:
  "eq_fold ''ID'' ''ID''" "\<not> eq_fold ''Cidr'' ''ID''" "eq_fold ''Cidr'' ''Cidr''"
  "\<not> eq_fold ''IsDefault'' ''ID''" "\<not> eq_fold ''IsDefault'' ''Cidr''" "eq_fold ''IsDefault'' ''IsDefault''"
  "\<not> eq_fold ''AvailableAddressCount'' ''ID''" "\<not> eq_fold ''AvailableAddressCount'' ''Cidr''"
  "\<not> eq_fold ''AvailableAddressCount'' ''IsDefault''" "eq_fold ''AvailableAddressCount'' ''AvailableAddressCount''"
  "\<not> eq_fold ''Name'' ''ID''" "\<not> eq_fold ''Name'' ''Cidr''" "\<not> eq_fold ''Name'' ''IsDefault''"
  "\<not> eq_fold ''Name'' ''AvailableAddressCount''" "eq_fold ''Name'' ''Name''"
  "\<not> eq_fold ''Tags'' ''ID''" "\<not> eq_fold ''Tags'' ''Cidr''" "\<not> eq_fold ''Tags'' ''IsDefault''"
  "\<not> eq_fold ''Tags'' ''AvailableAddressCount''" "\<not> eq_fold ''Tags'' ''Name''" "eq_fold ''Tags'' ''Tags''"
  by code_simp+

lemma decode_encode_Subnet:
  "subnet_valid n \<Longrightarrow> decode_struct Subnet_field (encode_Subnet n) zero_Subnet = Some n"
  by (cases n) (simp add: encode_Subnet_def decode_struct_def Subnet_field_def subnet_valid_def zero_Subnet_def
      decode_string_map_enc)

interpretation sub: json_codec encode_subnets decode_subnets "[]" "list_all subnet_valid"
proof
  fix ns assume "list_all subnet_valid ns"
  then have "decode_list (\<lambda>j. decode_struct Subnet_field j zero_Subnet) (map encode_Subnet ns) = Some ns"
    by (intro decode_list_map decode_encode_Subnet) (simp add: list_all_iff)
  then show "decode_subnets (encode_subnets ns) [] = Some ns"
    by (simp add: encode_subnets_def decode_subnets_def)
qed

lemma subnet_tags_distinct: "distinct (map fst (snTags n)) \<Longrightarrow> distinct (map fst (snTags (subnet_tags ts n)))"
  by (induction ts n rule: subnet_tags.induct) (simp_all add: distinct_put)

lemma subnet_tags_fields [simp]:
  "snID (subnet_tags ts n) = snID n" "snCidr (subnet_tags ts n) = snCidr n"
  "snIsDefault (subnet_tags ts n) = snIsDefault n"
  "snAvailableAddressCount (subnet_tags ts n) = snAvailableAddressCount n"
  by (induction ts n rule: subnet_tags.induct) simp_all

lemma subnet_tags_lookup:
  "k \<noteq> ''Name'' \<Longrightarrow> map_of (snTags (subnet_tags ts n)) k =
     (case map_of (rev ts) k of Some v \<Rightarrow> Some v | None \<Rightarrow> map_of (snTags n) k)"
proof (induction ts n rule: subnet_tags.induct)
  case (2 k' v ts subnet)
  then show ?case
    by (auto simp: map_add_def split: option.splits)
qed simp

section \<open>Frame and totality\<close>

lemma GetSubnetsForInstance_aws_files [frame]:
  assumes "GetSubnetsForInstance_aws e s = Some (r, s')"
  shows "fs_files s' = fs_files s \<and> fs_dirs s' = fs_dirs s"
proof -
  obtain idd err s1 where g: "getIDDoc e s = ((idd, err), s1)" by (metis prod.collapse)
  have f1: "fs_files s1 = fs_files s" "fs_dirs s1 = fs_dirs s" using getIDDoc_frame [of e s] g by simp_all
  show ?thesis
  proof (cases err)
    case (Some x)
    with assms g f1 show ?thesis by (simp add: GetSubnetsForInstance_aws_def)
  next
    case None
    obtain d where d: "idd = Some d" using assms g None by (cases idd) (simp_all add: GetSubnetsForInstance_aws_def)
    obtain present err2 s2 where n: "newEC2 e s1 = Some ((present, err2), s2)"
      using assms g None d by (cases "newEC2 e s1") (auto simp: GetSubnetsForInstance_aws_def)
    obtain ifs s3 where i: "GetInterfaces e s2 = (ifs, s3)" by fastforce
    have f3: "fs_files s3 = fs_files s2" "fs_dirs s3 = fs_dirs s2" using GetInterfaces_frame [of e s2] i by simp_all
    have "fs_files s' = fs_files s2 \<and> fs_dirs s' = fs_dirs s2"
      using assms g None d n i f3
      by (cases err2; cases present)
         (auto simp: GetSubnetsForInstance_aws_def ec2call_def ext_def split: sum.splits list.splits)
    with newEC2_files [OF n] f1 show ?thesis by simp
  qed
qed

text \<open>On a ready client the call returns unless the instance has no interface at all.\<close>

lemma GetSubnetsForInstance_aws_client:
  assumes "GetSubnetsForInstance_aws e s = Some (r, s')" and "client_ready e (client s)"
  shows "client_ready e (client s')"
proof -
  obtain d s1 where g: "getIDDoc e s = ((Some d, None), s1)" "client_ready e (client s1)"
    using assms(2) by (rule getIDDoc_ready)
  obtain s2 where n: "newEC2 e s1 = Some ((True, None), s2)" "client_ready e (client s2)"
    using g(2) by (rule newEC2_ready)
  obtain ifs s3 where i: "GetInterfaces e s2 = (ifs, s3)" by fastforce
  have "client s3 = client s2" using GetInterfaces_frame(3) [of e s2] i by simp
  then have "client s' = client s2"
    using assms(1) g(1) n(1) i
    by (auto simp: GetSubnetsForInstance_aws_def ec2call_def ext_def split: sum.splits list.splits)
  with n show ?thesis by simp
qed

lemma GetSubnetsForInstance_aws_returns:
  assumes "client_ready e (client s)" and "\<And>s. fst (GetInterfaces e s) \<noteq> Inr []"
  shows "\<exists>r s'. GetSubnetsForInstance_aws e s = Some (r, s')"
proof -
  obtain d s1 where g: "getIDDoc e s = ((Some d, None), s1)" "client_ready e (client s1)"
    using assms(1) by (rule getIDDoc_ready)
  obtain s2 where n: "newEC2 e s1 = Some ((True, None), s2)"
    using g(2) by (rule newEC2_ready)
  obtain ifs s3 where i: "GetInterfaces e s2 = (ifs, s3)" by fastforce
  then have "ifs \<noteq> Inr []" using assms(2) [of s2] by simp
  with g(1) n i show ?thesis
    by (auto simp: GetSubnetsForInstance_aws_def ec2call_def ext_def split: sum.splits list.splits)
qed

lemma GetSubnetsForInstance_returns:
  assumes "client_ready e (client s)" and "\<And>s. fst (GetInterfaces e s) \<noteq> Inr []"
  shows "\<exists>r s'. GetSubnetsForInstance e s = Some (r, s')"
  unfolding GetSubnetsForInstance_def
  by (intro cached_returns GetSubnetsForInstance_aws_returns) (use assms in simp_all)

lemma GetSubnetsForInstance_client:
  assumes "GetSubnetsForInstance e s = Some (r, s')" and "client_ready e (client s)"
  shows "client_ready e (client s')"
  by (rule cached_client [where P = "client_ready e", OF assms(1) [unfolded GetSubnetsForInstance_def] assms(2)])
     (rule GetSubnetsForInstance_aws_client)

lemma GetSubnetsForInstance_files [frame]:
  assumes "GetSubnetsForInstance e s = Some (r, s')"
  shows "p \<noteq> path_Join (cachePath e) ''subnets_for_instance'' \<Longrightarrow> fs_files s' p = fs_files s p"
    and "set (fs_dirs s) \<subseteq> set (fs_dirs s')"
proof -
  note q = assms [unfolded GetSubnetsForInstance_def]
  show "p \<noteq> path_Join (cachePath e) ''subnets_for_instance'' \<Longrightarrow> fs_files s' p = fs_files s p"
    by (rule cached_files [OF q]) (simp_all add: GetSubnetsForInstance_aws_files)
  show "set (fs_dirs s) \<subseteq> set (fs_dirs s')"
    by (rule cached_dirs [OF q]) (simp add: GetSubnetsForInstance_aws_files)
qed

text \<open>Subnets keep what EC2 says of them. Every subnet of the answer carries the identifier, block,
  default flag and free address count of its EC2 subnet; each tag key other than \<^verbatim>\<open>Name\<close> maps to the
  last value given for it and to nothing if there is none, and no key occurs twice.\<close>

lemma subnet_of_faithful:
  "snID (subnet_of a) = esSubnetId a \<and> snCidr (subnet_of a) = esCidrBlock a \<and>
   snIsDefault (subnet_of a) = esDefaultForAz a \<and>
   snAvailableAddressCount (subnet_of a) = esAvailableIpAddressCount a \<and>
   distinct (map fst (snTags (subnet_of a))) \<and>
   (\<forall>k. map_of (snTags (subnet_of a)) k = (if k = ''Name'' then None else map_of (rev (esTags a)) k))"
proof -
  have "map_of (snTags (subnet_tags ts n)) ''Name'' = map_of (snTags n) ''Name''" for ts n
    by (induction ts n rule: subnet_tags.induct) simp_all
  then show ?thesis
    by (auto simp: subnet_of_def subnet_tags_lookup intro: subnet_tags_distinct split: option.splits)
qed

end
