(* ===== verification/Allocate.thy ===== *)
theory Allocate
  imports FreeIP Subnets
begin

text \<open>
  \<^verbatim>\<open>aws/allocate.go\<close>: assigning new secondary addresses to an interface and waiting until the
  metadata service shows them, choosing the interface whose subnet has the most room, and returning an
  address to EC2.
\<close>

section \<open>Allocation on one interface\<close>

text \<open>How many addresses to ask for: a batch size of 0, or one above the room that is left, means all
  the room.\<close>

definition assign_count :: "ENILimit \<Rightarrow> Interface \<Rightarrow> int \<Rightarrow> int" where
  "assign_count limits intf batchSize =
     (let available = wrap64 (limIPv4 limits - int (length (ifIPv4s intf)))
      in if batchSize = 0 \<or> available < batchSize then available else batchSize)"

text \<open>The inner loop: addresses that the interface did not have and the registry does not know.\<close>

fun claim_new_ips ::
    "'w env \<Rightarrow> Interface \<Rightarrow> Interface \<Rightarrow> ip list \<Rightarrow> AllocationResult list \<Rightarrow> 'w st \<Rightarrow>
     (AllocationResult list \<times> error option) \<times> 'w st" where
  "claim_new_ips e intf newIntf [] results s = ((results, None), s)"
| "claim_new_ips e intf newIntf (newip # ips) results s =
     (if newip \<in> set (ifIPv4s intf) then claim_new_ips e intf newIntf ips results s
      else (let ((new, err), s) = claim_ip (HasIP e) (TrackIP e) newip s;
                results = (if new then results @ [\<lparr>arIP = newip, arInterface = newIntf\<rparr>] else results)
            in case err of
                 Some x \<Rightarrow> ((results, Some (Wrap ''failed to track ip'' x)), s)
               | None \<Rightarrow> claim_new_ips e intf newIntf ips results s))"

fun await_ips ::
    "'w env \<Rightarrow> Interface \<Rightarrow> nat \<Rightarrow> AllocationResult list \<Rightarrow> 'w st \<Rightarrow> (AllocationResult list \<times> error option) \<times> 'w st" where
  "await_ips e intf 0 results s = (([], Some (Errorf ''Can't locate new IP address from AWS'')), s)"
| "await_ips e intf (Suc attempts) results s =
     (let (r, s) = getInterface e (ifMac intf) s
      in case r of
           Inl _ \<Rightarrow> await_ips e intf attempts results (time_Sleep e ns_per_s s)
         | Inr newIntf \<Rightarrow>
             if length (ifIPv4s newIntf) \<noteq> length (ifIPv4s intf) then
               (let ((results, err), s) = claim_new_ips e intf newIntf (ifIPv4s newIntf) results s
                in case err of
                     Some x \<Rightarrow> ((results, Some x), s)
                   | None \<Rightarrow>
                       if results \<noteq> [] then ((results, None), s)
                       else await_ips e intf attempts results (time_Sleep e ns_per_s s))
             else await_ips e intf attempts results (time_Sleep e ns_per_s s))"

definition AllocateIPsOn ::
    "'w env \<Rightarrow> Interface \<Rightarrow> int \<Rightarrow> 'w st \<Rightarrow> ((AllocationResult list \<times> error option) \<times> 'w st) option" where
  "AllocateIPsOn e intf batchSize s =
     do { ((present, err), s) \<leftarrow> newEC2 e s;
          case err of
            Some x \<Rightarrow> Some (([], Some x), s)
          | None \<Rightarrow>
              do { ((limits, _), s) \<leftarrow> ENILimits e s;
                   (err, s) \<leftarrow> ec2call present
                      (ec2_AssignPrivateIpAddresses (ec2 e) (ifID intf) (assign_count limits intf batchSize)) s;
                   case err of
                     Some x \<Rightarrow> Some (([], Some x), s)
                   | None \<Rightarrow> Some (await_ips e intf 10 [] s) } }"

section \<open>Choosing the interface\<close>

definition candidates_at :: "int \<Rightarrow> ENILimit \<Rightarrow> Interface list \<Rightarrow> Interface list" where
  "candidates_at index limits interfaces =
     filter (\<lambda>i. \<not> ifNumber i < index \<and> int (length (ifIPv4s i)) < limIPv4 limits) interfaces"

fun pick_interface :: "Subnet list \<Rightarrow> Interface list \<Rightarrow> Interface option" where
  "pick_interface [] candidates = None"
| "pick_interface (subnet # subnets) candidates =
     (if snAvailableAddressCount subnet \<le> 0 then pick_interface subnets candidates
      else (case find (\<lambda>i. ifSubnetID i = snID subnet) candidates of
              Some intf \<Rightarrow> Some intf
            | None \<Rightarrow> pick_interface subnets candidates))"

definition AllocateIPsFirstAvailableAtIndex ::
    "'w env \<Rightarrow> int \<Rightarrow> int \<Rightarrow> 'w st \<Rightarrow> ((AllocationResult list \<times> error option) \<times> 'w st) option" where
  "AllocateIPsFirstAvailableAtIndex e index batchSize s =
     (let (r, s) = GetInterfaces e s
      in case r of
           Inl x \<Rightarrow> Some (([], Some x), s)
         | Inr interfaces \<Rightarrow>
             do { ((limits, _), s) \<leftarrow> ENILimits e s;
                  let candidates = candidates_at index limits interfaces;
                  (r, s) \<leftarrow> GetSubnetsForInstance e s;
                  case r of
                    Inl x \<Rightarrow> Some (([], Some x), s)
                  | Inr subnets \<Rightarrow>
                      (case pick_interface (os_sort_subnets (os e) subnets) candidates of
                         Some intf \<Rightarrow> AllocateIPsOn e intf batchSize s
                       | None \<Rightarrow>
                           Some (([], Some (Errorf ''Unable to allocate - no IPs available on any interfaces'')), s)) })"

definition AllocateIPsFirstAvailable ::
    "'w env \<Rightarrow> int \<Rightarrow> 'w st \<Rightarrow> ((AllocationResult list \<times> error option) \<times> 'w st) option" where
  "AllocateIPsFirstAvailable e batchSize s = AllocateIPsFirstAvailableAtIndex e 0 batchSize s"

section \<open>Deallocation\<close>

definition DeallocateIP :: "'w env \<Rightarrow> ip \<Rightarrow> 'w st \<Rightarrow> (error option \<times> 'w st) option" where
  "DeallocateIP e ipToRelease s =
     do { ((present, err), s) \<leftarrow> newEC2 e s;
          case err of
            Some x \<Rightarrow> Some (Some x, s)
          | None \<Rightarrow>
              (let (r, s) = GetInterfaces e s
               in case r of
                    Inl x \<Rightarrow> Some (Some x, s)
                  | Inr interfaces \<Rightarrow>
                      (case find (\<lambda>i. ipToRelease \<in> set (ifIPv4s i)) interfaces of
                         Some intf \<Rightarrow>
                           ec2call present (ec2_UnassignPrivateIpAddresses (ec2 e) (ifID intf) [ip_key e ipToRelease]) s
                       | None \<Rightarrow> Some (Some (Errorf ''IP not found - can't release''), s))) }"

section \<open>New addresses\<close>

text \<open>Steps that leave the registry file alone keep a working registry and its view.\<close>

definition same_registry :: "'w env \<Rightarrow> 'w st \<Rightarrow> 'w st \<Rightarrow> bool" where
  "same_registry e s s' =
     (fs_files s' (registry_json e) = fs_files s (registry_json e) \<and> set (fs_dirs s) \<subseteq> set (fs_dirs s'))"

lemma same_registryD:
  assumes "same_registry e s s'"
  shows "registry_ok e s \<Longrightarrow> registry_ok e s'" and "registry_view e s' = registry_view e s"
  using assms by (auto simp: same_registry_def registry_ok_def registry_view_def fun_eq_iff)

lemma same_registry_trans [trans]:
  "same_registry e s s1 \<Longrightarrow> same_registry e s1 s2 \<Longrightarrow> same_registry e s s2"
  by (auto simp: same_registry_def)

lemma same_registryI:
  "fs_files s' = fs_files s \<Longrightarrow> fs_dirs s' = fs_dirs s \<Longrightarrow> same_registry e s s'"
  by (simp add: same_registry_def)

lemma cache_file_neq:
  "registry_json e \<noteq> path_Join (cachePath e) (limits_key t)"
  "registry_json e \<noteq> path_Join (cachePath e) ''subnets_for_instance''"
  by (simp_all add: registry_json_def registryPath_def cachePath_def path_Join_def limits_key_def)

lemma ENILimits_registry:
  assumes "client_ready e (client s)"
  obtains limit err s' where "ENILimits e s = Some ((limit, err), s')" and "client_ready e (client s')"
    and "same_registry e s s'"
proof -
  obtain limit err s' where l: "ENILimits e s = Some ((limit, err), s')" "client_ready e (client s')"
      "set (fs_dirs s) \<subseteq> set (fs_dirs s')"
      "\<And>p. (\<And>t. p \<noteq> path_Join (cachePath e) (limits_key t)) \<Longrightarrow> fs_files s' p = fs_files s p"
    using ENILimits_ready [OF assms] by metis
  with l(4) [OF cache_file_neq(1)] have "same_registry e s s'" by (simp add: same_registry_def)
  with l that show thesis by blast
qed

text \<open>An allocation result is fresh: an address of the interface that was neither on it before nor in
  the registry, and that is in the registry now.\<close>

definition fresh_result :: "'w env \<Rightarrow> Interface \<Rightarrow> 'w st \<Rightarrow> 'w st \<Rightarrow> AllocationResult \<Rightarrow> bool" where
  "fresh_result e intf s s' a =
     (ifMac (arInterface a) = ifMac intf \<and> arIP a \<in> set (ifIPv4s (arInterface a)) \<and>
      arIP a \<notin> set (ifIPv4s intf) \<and> registry_view e s (ip_key e (arIP a)) = None \<and>
      registry_view e s' (ip_key e (arIP a)) \<noteq> None)"

definition grows :: "'w env \<Rightarrow> 'w st \<Rightarrow> 'w st \<Rightarrow> bool" where
  "grows e s s' = (\<forall>k. registry_view e s k \<noteq> None \<longrightarrow> registry_view e s' k = registry_view e s k)"

lemma claim_new_ips_law:
  assumes "registry_ok e s" and "ifMac newIntf = ifMac intf" and "set ips \<subseteq> set (ifIPv4s newIntf)"
  shows "\<exists>new s'. claim_new_ips e intf newIntf ips results s = ((results @ new, None), s') \<and>
    registry_ok e s' \<and> registry_rest e s' = registry_rest e s \<and> grows e s s' \<and>
    list_all (fresh_result e intf s s') new \<and>
    (\<forall>x \<in> set ips. x \<notin> set (ifIPv4s intf) \<longrightarrow> registry_view e s' (ip_key e x) \<noteq> None)"
  using assms
proof (induction ips arbitrary: results s)
  case Nil
  then show ?case by (simp add: grows_def)
next
  case (Cons x ips)
  show ?case
  proof (cases "x \<in> set (ifIPv4s intf)")
    case True
    with Cons show ?thesis by simp
  next
    case False
    let ?new = "registry_view e s (ip_key e x) = None"
    let ?a = "\<lparr>arIP = x, arInterface = newIntf\<rparr>"
    obtain s1 where c: "claim_ip (HasIP e) (TrackIP e) x s = ((?new, None), s1)" "registry_ok e s1"
        "registry_rest e s1 = registry_rest e s"
        "\<forall>k. k \<noteq> ip_key e x \<longrightarrow> registry_view e s1 k = registry_view e s k"
        "registry_view e s1 (ip_key e x) \<noteq> None"
        "registry_view e s (ip_key e x) \<noteq> None \<longrightarrow> registry_view e s1 (ip_key e x) = registry_view e s (ip_key e x)"
      using reg.claim_law [OF Cons.prems(1), of x] by (elim exE conjE)
    let ?r = "if ?new then results @ [?a] else results"
    obtain new s2 where r: "claim_new_ips e intf newIntf ips ?r s1 = ((?r @ new, None), s2)" "registry_ok e s2"
        "registry_rest e s2 = registry_rest e s1" "grows e s1 s2" "list_all (fresh_result e intf s1 s2) new"
        "\<forall>y \<in> set ips. y \<notin> set (ifIPv4s intf) \<longrightarrow> registry_view e s2 (ip_key e y) \<noteq> None"
      using Cons.IH [OF c(2) Cons.prems(2), of ?r] Cons.prems(3) by (auto simp del: not_None_eq)
    have g: "grows e s s1" using c(4,6) by (metis grows_def)
    have g2: "grows e s s2" using g r(4) by (simp add: grows_def)
    have old: "registry_view e s1 k = None \<Longrightarrow> registry_view e s k = None" for k
      using g by (metis grows_def)
    have seen: "registry_view e s2 (ip_key e x) \<noteq> None" using r(4) c(5) by (simp add: grows_def)
    have "fresh_result e intf s1 s2 a \<Longrightarrow> fresh_result e intf s s2 a" for a
      using old by (simp add: fresh_result_def)
    then have f: "list_all (fresh_result e intf s s2) new" using r(5) by (auto simp: list_all_iff)
    have "list_all (fresh_result e intf s s2) (if ?new then ?a # new else new)"
      using f seen False Cons.prems(2,3) by (simp add: fresh_result_def)
    moreover have "claim_new_ips e intf newIntf (x # ips) results s =
        ((results @ (if ?new then ?a # new else new), None), s2)"
      using False c(1) r(1) by simp
    ultimately show ?thesis using r g2 seen c(3) by auto
  qed
qed

text \<open>What the allocator answers: fresh addresses, or no address and an error.\<close>

definition allocated :: "'w env \<Rightarrow> Interface \<Rightarrow> 'w st \<Rightarrow> 'w st \<Rightarrow> AllocationResult list \<Rightarrow> error option \<Rightarrow> bool" where
  "allocated e intf s s' results err =
     (registry_ok e s' \<and> grows e s s' \<and>
      (if err = None then results \<noteq> [] \<and> list_all (fresh_result e intf s s') results else results = []))"

lemma grows_eq: "registry_view e s1 = registry_view e s \<Longrightarrow> grows e s s1"
  by (simp add: grows_def)

lemma grows_trans: "grows e s s1 \<Longrightarrow> grows e s1 s2 \<Longrightarrow> grows e s s2"
  by (simp add: grows_def)

lemma fresh_weaken:
  assumes "grows e s s1" and "list_all (fresh_result e intf s1 s') results"
  shows "list_all (fresh_result e intf s s') results"
  using assms(2)
proof (rule list.pred_mono_strong)
  fix a assume "fresh_result e intf s1 s' a"
  moreover have "registry_view e s1 k = None \<Longrightarrow> registry_view e s k = None" for k
    using assms(1) by (metis grows_def)
  ultimately show "fresh_result e intf s s' a" by (simp add: fresh_result_def)
qed

lemma allocated_grows:
  assumes "grows e s s1" and "allocated e intf s1 s' results err"
  shows "allocated e intf s s' results err"
proof (cases "err = None")
  case True
  with assms fresh_weaken [OF assms(1)] grows_trans [OF assms(1)] show ?thesis by (simp add: allocated_def)
next
  case False
  with assms grows_trans [OF assms(1)] show ?thesis by (simp add: allocated_def)
qed

lemma await_ips_law:
  "registry_ok e s \<Longrightarrow> \<exists>results err s'. await_ips e intf n [] s = ((results, err), s') \<and>
     allocated e intf s s' results err \<and> client s' = client s"
proof (induction n arbitrary: s)
  case 0
  then show ?case by (simp add: allocated_def grows_def)
next
  case (Suc n)
  obtain r s1 where g: "getInterface e (ifMac intf) s = (r, s1)" by fastforce
  have f1: "fs_files s1 = fs_files s" "fs_dirs s1 = fs_dirs s" "client s1 = client s"
    using getInterface_frame [of e "ifMac intf" s] g by simp_all
  note ok1 = registry_footprint(1) [OF f1(1,2) Suc.prems] and v1 = registry_footprint(2) [OF f1(1)]
  have retry: "\<exists>results err s'. await_ips e intf n [] (time_Sleep e ns_per_s s2) = ((results, err), s') \<and>
      allocated e intf s s' results err \<and> client s' = client s"
    if s2: "registry_ok e s2" "grows e s s2" "client s2 = client s" for s2
  proof -
    have sl: "registry_ok e (time_Sleep e ns_per_s s2)" "registry_view e (time_Sleep e ns_per_s s2) = registry_view e s2"
      using registry_footprint [of "time_Sleep e ns_per_s s2" s2] s2(1) by simp_all
    obtain results err s' where a: "await_ips e intf n [] (time_Sleep e ns_per_s s2) = ((results, err), s')"
        "allocated e intf (time_Sleep e ns_per_s s2) s' results err" "client s' = client s2"
      using Suc.IH [OF sl(1)] by auto
    with allocated_grows [OF grows_trans [OF s2(2) grows_eq [OF sl(2)]] a(2)] s2(3) show ?thesis by auto
  qed
  have same: "registry_ok e s1 \<and> grows e s s1 \<and> client s1 = client s" using ok1 v1 f1 by (simp add: grows_def)
  show ?case
  proof (cases r)
    case (Inl err)
    with g retry [of s1] same show ?thesis by simp
  next
    case (Inr newIntf)
    have mac: "ifMac newIntf = ifMac intf" using getInterface_mac [of e "ifMac intf" s] g Inr by simp
    show ?thesis
    proof (cases "length (ifIPv4s newIntf) = length (ifIPv4s intf)")
      case True
      with g Inr retry [of s1] same show ?thesis by simp
    next
      case False
      obtain new s2 where c: "claim_new_ips e intf newIntf (ifIPv4s newIntf) [] s1 = ((new, None), s2)"
          "registry_ok e s2" "registry_rest e s2 = registry_rest e s1" "grows e s1 s2"
          "list_all (fresh_result e intf s1 s2) new"
        using claim_new_ips_law [OF ok1 mac order_refl, of "[]"] by auto
      have s2: "client s2 = client s" "grows e s s2" "list_all (fresh_result e intf s s2) new"
        using c(3) f1(3) grows_trans [OF grows_eq [OF v1] c(4)] fresh_weaken [OF grows_eq [OF v1] c(5)]
        by (simp_all add: registry_rest_def)
      show ?thesis
      proof (cases "new = []")
        case True
        with g Inr False c(1) retry [of s2] c(2) s2 show ?thesis by simp
      next
        case nonempty: False
        with g Inr False c(1,2) s2 show ?thesis by (simp add: allocated_def)
      qed
    qed
  qed
qed

lemma AllocateIPsOn_law:
  assumes "registry_ok e s" and "client_ready e (client s)"
  shows "\<exists>results err s'. AllocateIPsOn e intf batchSize s = Some ((results, err), s') \<and>
    client_ready e (client s') \<and> allocated e intf s s' results err"
proof -
  obtain s1 where n: "newEC2 e s = Some ((True, None), s1)" "client_ready e (client s1)"
      "fs_files s1 = fs_files s" "fs_dirs s1 = fs_dirs s"
    using assms(2) by (rule newEC2_ready)
  obtain limits lerr s2 where l: "ENILimits e s1 = Some ((limits, lerr), s2)" "client_ready e (client s2)"
      "same_registry e s1 s2"
    using ENILimits_registry [OF n(2)] by metis
  let ?c = "ext (ec2_AssignPrivateIpAddresses (ec2 e) (ifID intf) (assign_count limits intf batchSize)) s2"
  have same: "same_registry e s (snd ?c)"
    using same_registry_trans [OF same_registryI [OF n(3,4)] l(3)] same_registryI [of "snd ?c" s2]
      same_registry_trans by fastforce
  note ok = same_registryD(1) [OF same assms(1)] and view = same_registryD(2) [OF same]
  have cl: "client (snd ?c) = client s2" by simp
  show ?thesis
  proof (cases "fst ?c")
    case (Some x)
    with n(1) l(1,2) ok view cl show ?thesis
      by (simp add: AllocateIPsOn_def ec2call_def case_prod_unfold grows_def allocated_def)
  next
    case None
    obtain results err s' where a: "await_ips e intf 10 [] (snd ?c) = ((results, err), s')"
        "allocated e intf (snd ?c) s' results err" "client s' = client (snd ?c)"
      using await_ips_law [OF ok] by metis
    have "AllocateIPsOn e intf batchSize s = Some ((results, err), s')"
      using n(1) l(1) None a(1) by (simp add: AllocateIPsOn_def ec2call_def case_prod_unfold)
    with allocated_grows [OF grows_eq [OF view] a(2)] a(3) l(2) cl show ?thesis by simp
  qed
qed

text \<open>C28: the allocator asks for the right number of addresses. With a ready client, and for an interface below
  the limit in force and a batch size that is not negative, \<^verbatim>\<open>AllocateIPsOn\<close> makes one request to EC2, for that
  interface and for \<open>n\<close> addresses: at least one and never more than the room that is left, exactly the batch size
  when that is positive and fits, and all the room when the batch size is 0 or does not fit. A failed request is answered
  with its error; after a successful one it waits for the addresses.\<close>

theorem AllocateIPsOn_request:
  assumes "client_ready e (client s)" and "newEC2 e s = Some (r, s1)" and "ENILimits e s1 = Some ((limits, lerr), s2)"
    and "int (length (ifIPv4s intf)) < limIPv4 limits" and "limIPv4 limits < 2 ^ 63" and "0 \<le> batchSize"
  shows "\<exists>n. 1 \<le> n \<and> int (length (ifIPv4s intf)) + n \<le> limIPv4 limits \<and>
    (if 0 < batchSize \<and> int (length (ifIPv4s intf)) + batchSize \<le> limIPv4 limits
     then n = batchSize else int (length (ifIPv4s intf)) + n = limIPv4 limits) \<and>
    AllocateIPsOn e intf batchSize s =
      (case ext (ec2_AssignPrivateIpAddresses (ec2 e) (ifID intf) n) s2 of
         (Some x, s3) \<Rightarrow> Some (([], Some x), s3)
       | (None, s3) \<Rightarrow> Some (await_ips e intf 10 [] s3))"
proof -
  let ?n = "assign_count limits intf batchSize"
  have wrap: "wrap64 (limIPv4 limits - int (length (ifIPv4s intf))) = limIPv4 limits - int (length (ifIPv4s intf))"
    using assms(4,5) by (intro wrap64_id) simp_all
  have "newEC2 e s = Some ((True, None), s1)"
    by (rule newEC2_ready [OF assms(1)]) (use assms(2) in simp)
  then have "AllocateIPsOn e intf batchSize s =
      (case ext (ec2_AssignPrivateIpAddresses (ec2 e) (ifID intf) ?n) s2 of
         (Some x, s3) \<Rightarrow> Some (([], Some x), s3)
       | (None, s3) \<Rightarrow> Some (await_ips e intf 10 [] s3))"
    using assms(3) by (simp add: AllocateIPsOn_def ec2call_def case_prod_unfold split: option.splits)
  then show ?thesis
    using assms(4,6) wrap by (intro exI [of _ ?n]) (auto simp: assign_count_def Let_def)
qed

text \<open>C14: allocation hands out new addresses only. With a ready client and a working registry,
  \<^verbatim>\<open>AllocateIPsOn\<close> returns. Without an error it answers at least one address, and every address it
  answers belongs to the interface according to the metadata service, was neither on the interface nor
  in the registry before, and is tracked in the registry now; with an error it answers none. In both
  cases the registry still works and the addresses it tracked before keep their times.\<close>

theorem AllocateIPsOn_fresh:
  assumes "registry_ok e s" and "client_ready e (client s)"
  shows "\<exists>results err s'. AllocateIPsOn e intf batchSize s = Some ((results, err), s') \<and>
    client_ready e (client s') \<and> registry_ok e s' \<and> grows e s s' \<and>
    (if err = None then results \<noteq> [] \<and> list_all (fresh_result e intf s s') results else results = [])"
  using AllocateIPsOn_law [OF assms, of intf batchSize] by (simp add: allocated_def)

definition demo_ready :: "(string \<times> registryIP option) list \<Rightarrow> dw st" where
  "demo_ready m = (demo_registry m)\<lparr>client := fresh_client\<rparr>"

lemma demo_ready_ok:
  "wf_entries m \<Longrightarrow> registry_ok demo (demo_ready m)" "client_ready demo (client (demo_ready m))"
  "wf_entries m \<Longrightarrow> registry_view demo (demo_ready m) = view_of (norm_entries m)"
  "world (demo_ready m) = demo_w"
  using demo_registry_ok [of m] registry_footprint [of "demo_ready m" "demo_registry m" demo] demo_registry_view [of m]
  by (simp_all add: demo_ready_def demo_registry_def demo_s_def)

lemma demo_ready_files:
  "fs_files (demo_ready m) (path_Join (cachePath demo) (limits_key t)) = None"
  "fs_files (demo_ready m) (path_Join (cachePath demo) ''subnets_for_instance'') = None"
  by (simp_all add: demo_ready_def demo_registry_def demo_s_def registry_json_def registryPath_def cachePath_def
      path_Join_def limits_key_def)

theorem AllocateIPsOn_request_witness:
  "\<exists>s2. AllocateIPsOn demo (demo_if1 [V4 10 0 1 7]) 100 (demo_ready []) =
      (case ext (ec2_AssignPrivateIpAddresses (ec2 demo) ''eni-1'' 9) s2 of
         (Some x, s3) \<Rightarrow> Some (([], Some x), s3)
       | (None, s3) \<Rightarrow> Some (await_ips demo (demo_if1 [V4 10 0 1 7]) 10 [] s3))"
proof -
  obtain s1 where n: "newEC2 demo (demo_ready []) = Some ((True, None), s1)" "client_ready demo (client s1)"
    "fs_files s1 = fs_files (demo_ready [])"
    using demo_ready_ok(2) by (rule newEC2_ready)
  obtain s2 where l: "ENILimits demo s1 = Some ((\<lparr>limAdapters = 3, limIPv4 = 10, limIPv6 = 10\<rparr>, None), s2)"
    by (rule demo_ENILimits [OF n(2)]) (simp add: n(3) demo_ready_files)
  from AllocateIPsOn_request [OF demo_ready_ok(2) n(1) l, of "demo_if1 [V4 10 0 1 7]" 100] show ?thesis
    by (intro exI [of _ s2]) (auto simp: demo_if1_def)
qed

theorem AllocateIPsOn_fresh_witness:
  "\<exists>results err s'. AllocateIPsOn demo (demo_if1 [V4 10 0 1 7]) 1 (demo_ready []) = Some ((results, err), s') \<and>
    (if err = None then results \<noteq> [] \<and> list_all (fresh_result demo (demo_if1 [V4 10 0 1 7]) (demo_ready []) s') results
     else results = [])"
proof -
  have "wf_entries []" by (simp add: wf_entries_def)
  from AllocateIPsOn_fresh [OF demo_ready_ok(1) [OF this] demo_ready_ok(2), of "demo_if1 [V4 10 0 1 7]" 1]
  show ?thesis by blast
qed

section \<open>The best interface\<close>

lemma pick_interface_Some:
  assumes "pick_interface subnets candidates = Some intf"
  obtains before subnet after where "subnets = before @ subnet # after" and "intf \<in> set candidates"
    and "ifSubnetID intf = snID subnet" and "0 < snAvailableAddressCount subnet"
    and "\<forall>n \<in> set before. snAvailableAddressCount n \<le> 0 \<or> (\<forall>i \<in> set candidates. ifSubnetID i \<noteq> snID n)"
  using assms
proof (induction subnets arbitrary: thesis)
  case (Cons n subnets)
  show ?case
  proof (cases "0 < snAvailableAddressCount n \<and> find (\<lambda>i. ifSubnetID i = snID n) candidates \<noteq> None")
    case True
    then have f: "find (\<lambda>i. ifSubnetID i = snID n) candidates = Some intf" using Cons.prems(2) by auto
    then have "intf \<in> set candidates" "ifSubnetID intf = snID n" by (auto simp: find_Some_iff)
    with True Cons.prems(1) [of "[]" n subnets] show ?thesis by simp
  next
    case False
    then have skip: "snAvailableAddressCount n \<le> 0 \<or> (\<forall>i \<in> set candidates. ifSubnetID i \<noteq> snID n)"
      by (auto simp: find_None_iff)
    have rest: "pick_interface subnets candidates = Some intf"
      using False Cons.prems(2) by (auto split: if_splits)
    obtain before subnet after where "subnets = before @ subnet # after" "intf \<in> set candidates"
        "ifSubnetID intf = snID subnet" "0 < snAvailableAddressCount subnet"
        "\<forall>n \<in> set before. snAvailableAddressCount n \<le> 0 \<or> (\<forall>i \<in> set candidates. ifSubnetID i \<noteq> snID n)"
      using Cons.IH [OF _ rest] by blast
    with skip Cons.prems(1) [of "n # before" subnet after] show ?thesis by simp
  qed
qed simp

lemma pick_interface_None:
  "pick_interface subnets candidates = None \<longleftrightarrow>
     (\<forall>n \<in> set subnets. snAvailableAddressCount n \<le> 0 \<or> (\<forall>i \<in> set candidates. ifSubnetID i \<noteq> snID n))"
proof (induction subnets)
  case (Cons n subnets)
  show ?case
  proof (cases "find (\<lambda>i. ifSubnetID i = snID n) candidates")
    case None
    then have "\<forall>i \<in> set candidates. ifSubnetID i \<noteq> snID n" by (simp add: find_None_iff)
    with Cons None show ?thesis by simp
  next
    case (Some i)
    then have "i \<in> set candidates" "ifSubnetID i = snID n" by (auto simp: find_Some_iff)
    with Cons Some show ?thesis by auto
  qed
qed simp

lemma pick_interface_best:
  assumes "go_sort Subnets_Less sort_Sort"
  shows "case pick_interface (sort_Sort subnets) (candidates_at index limits ifs) of
      Some intf \<Rightarrow> intf \<in> set ifs \<and> index \<le> ifNumber intf \<and> int (length (ifIPv4s intf)) < limIPv4 limits \<and>
        (\<exists>n \<in> set subnets. snID n = ifSubnetID intf \<and> 0 < snAvailableAddressCount n \<and>
           (\<forall>m \<in> set subnets. \<forall>i \<in> set (candidates_at index limits ifs).
              snID m = ifSubnetID i \<longrightarrow> snAvailableAddressCount m \<le> snAvailableAddressCount n))
    | None \<Rightarrow> \<forall>i \<in> set ifs. index \<le> ifNumber i \<and> int (length (ifIPv4s i)) < limIPv4 limits \<longrightarrow>
        (\<forall>n \<in> set subnets. snID n = ifSubnetID i \<longrightarrow> snAvailableAddressCount n \<le> 0)"
proof (cases "pick_interface (sort_Sort subnets) (candidates_at index limits ifs)")
  case None
  then have none: "\<forall>n \<in> set subnets. snAvailableAddressCount n \<le> 0 \<or>
      (\<forall>i \<in> set (candidates_at index limits ifs). ifSubnetID i \<noteq> snID n)"
    using go_sort.sort_set [OF assms, of subnets] by (simp add: pick_interface_None)
  have "snAvailableAddressCount n \<le> 0" if "i \<in> set ifs" "index \<le> ifNumber i" "int (length (ifIPv4s i)) < limIPv4 limits"
      "n \<in> set subnets" "snID n = ifSubnetID i" for i n
    using none that by (force simp: candidates_at_def)
  with None show ?thesis by auto
next
  case (Some intf)
  obtain before n after where n: "sort_Sort subnets = before @ n # after" "intf \<in> set (candidates_at index limits ifs)"
      "ifSubnetID intf = snID n" "0 < snAvailableAddressCount n"
      "\<forall>m \<in> set before. snAvailableAddressCount m \<le> 0 \<or>
         (\<forall>i \<in> set (candidates_at index limits ifs). ifSubnetID i \<noteq> snID m)"
    using pick_interface_Some [OF Some] by blast
  have set: "set subnets = set before \<union> {n} \<union> set after"
    using go_sort.sort_set [OF assms, of subnets] n(1) by auto
  have "\<forall>m \<in> set after. snAvailableAddressCount m \<le> snAvailableAddressCount n"
    using go_sort.sort_sorted [OF assms, of subnets] n(1)
    by (simp add: no_descent_def Subnets_Less_def sorted_wrt_append not_less)
  then have "snAvailableAddressCount m \<le> snAvailableAddressCount n"
    if "m \<in> set subnets" "i \<in> set (candidates_at index limits ifs)" "snID m = ifSubnetID i" for m i
    using that n(4,5) set by fastforce
  then have "\<exists>n \<in> set subnets. snID n = ifSubnetID intf \<and> 0 < snAvailableAddressCount n \<and>
       (\<forall>m \<in> set subnets. \<forall>i \<in> set (candidates_at index limits ifs).
          snID m = ifSubnetID i \<longrightarrow> snAvailableAddressCount m \<le> snAvailableAddressCount n)"
    using n(3,4) set by (intro bexI [of _ n]) auto
  moreover have "intf \<in> set ifs \<and> index \<le> ifNumber intf \<and> int (length (ifIPv4s intf)) < limIPv4 limits"
    using n(2) by (auto simp: candidates_at_def)
  ultimately show ?thesis using Some by simp
qed

text \<open>C22: new addresses go where there is the most room. Of the interfaces that the metadata service lists, those from
  the given index on that are below the address limit in force have room. When one of them is on a subnet with
  free addresses, \<^verbatim>\<open>AllocateIPsFirstAvailableAtIndex\<close> allocates on such an interface, and none of the others is on a subnet
  with more free addresses; otherwise it answers an error and asks EC2 for nothing. \<open>go_sort\<close> is the contract of
  \<^verbatim>\<open>sort.Sort\<close>.\<close>

theorem AllocateIPsFirstAvailableAtIndex_best:
  assumes "go_sort Subnets_Less (os_sort_subnets (os e))" and "GetInterfaces e s = (Inr ifs, s1)"
    and "ENILimits e s1 = Some ((limits, lerr), s2)" and "GetSubnetsForInstance e s2 = Some (Inr subnets, s3)"
  shows "let room = (\<lambda>i. i \<in> set ifs \<and> index \<le> ifNumber i \<and> int (length (ifIPv4s i)) < limIPv4 limits);
             on = (\<lambda>i n. n \<in> set subnets \<and> snID n = ifSubnetID i \<and> 0 < snAvailableAddressCount n)
    in if \<exists>i n. room i \<and> on i n
       then \<exists>intf n. room intf \<and> on intf n \<and>
         (\<forall>i m. room i \<and> on i m \<longrightarrow> snAvailableAddressCount m \<le> snAvailableAddressCount n) \<and>
         AllocateIPsFirstAvailableAtIndex e index batchSize s = AllocateIPsOn e intf batchSize s3
       else AllocateIPsFirstAvailableAtIndex e index batchSize s =
         Some (([], Some (Errorf ''Unable to allocate - no IPs available on any interfaces'')), s3)"
proof -
  let ?pick = "pick_interface (os_sort_subnets (os e) subnets) (candidates_at index limits ifs)"
  let ?room = "\<lambda>i. i \<in> set ifs \<and> index \<le> ifNumber i \<and> int (length (ifIPv4s i)) < limIPv4 limits"
  let ?on = "\<lambda>i n. n \<in> set subnets \<and> snID n = ifSubnetID i \<and> 0 < snAvailableAddressCount n"
  have run: "AllocateIPsFirstAvailableAtIndex e index batchSize s =
      (case ?pick of
         Some intf \<Rightarrow> AllocateIPsOn e intf batchSize s3
       | None \<Rightarrow> Some (([], Some (Errorf ''Unable to allocate - no IPs available on any interfaces'')), s3))"
    using assms(2-4) by (simp add: AllocateIPsFirstAvailableAtIndex_def)
  note best = pick_interface_best [OF assms(1), where subnets = subnets and index = index and limits = limits and ifs = ifs]
  have cand: "i \<in> set (candidates_at index limits ifs) \<longleftrightarrow>
      i \<in> set ifs \<and> index \<le> ifNumber i \<and> int (length (ifIPv4s i)) < limIPv4 limits" for i
    by (auto simp: candidates_at_def)
  show ?thesis
  proof (cases ?pick)
    case None
    have none: "\<not> (\<exists>i n. ?room i \<and> ?on i n)" using best unfolding None by fastforce
    show ?thesis unfolding Let_def if_not_P [OF none] using run None by simp
  next
    case (Some intf)
    then have "?room intf" using best by simp
    moreover obtain n where n: "?on intf n"
      "\<forall>i m. ?room i \<and> ?on i m \<longrightarrow> snAvailableAddressCount m \<le> snAvailableAddressCount n"
      using best Some cand by fastforce
    moreover have "AllocateIPsFirstAvailableAtIndex e index batchSize s = AllocateIPsOn e intf batchSize s3" using run Some by simp
    ultimately have some: "\<exists>i n. ?room i \<and> ?on i n" and res: "\<exists>intf n. ?room intf \<and> ?on intf n \<and>
         (\<forall>i m. ?room i \<and> ?on i m \<longrightarrow> snAvailableAddressCount m \<le> snAvailableAddressCount n) \<and>
         AllocateIPsFirstAvailableAtIndex e index batchSize s = AllocateIPsOn e intf batchSize s3"
      by blast+
    show ?thesis unfolding Let_def if_P [OF some] by (rule res)
  qed
qed

lemma demo_sort_subnets: "go_sort Subnets_Less (os_sort_subnets (os demo))"
  using isort_subnets.go_sort_axioms by (simp add: demo_def demo_os_def)

lemma demo_GetSubnets:
  assumes "client_ready demo (client s)" and "world s = demo_w"
    and "fs_files s (path_Join (cachePath demo) ''subnets_for_instance'') = None"
  obtains n s' where "GetSubnetsForInstance demo s = Some (Inr [n], s')" and "snID n = ''subnet-1''"
    and "0 < snAvailableAddressCount n"
proof -
  let ?n = "subnet_of \<lparr>esSubnetId = ''subnet-1'', esCidrBlock = ''10.0.1.0/24'', esDefaultForAz = False,
               esAvailableIpAddressCount = 200, esTags = [(''Name'', ''pods''), (''k8s'', ''true'')]\<rparr>"
  let ?g = "snd (cache_Get demo ''subnets_for_instance'' decode_subnets [] s)"
  have miss: "fst (fst (cache_Get demo ''subnets_for_instance'' decode_subnets [] s)) \<noteq> CacheFound"
    using assms(3) by (simp add: cache_Get_def os_Open_def ext_def case_prod_unfold Let_def split: option.splits)
  obtain d s1 where g: "getIDDoc demo ?g = ((Some d, None), s1)" "client_ready demo (client s1)"
    by (rule getIDDoc_ready [of demo ?g]) (use assms(1) in simp_all)
  obtain s2 where n: "newEC2 demo s1 = Some ((True, None), s2)" using g(2) by (rule newEC2_ready)
  have w: "world s2 = demo_w"
    using demo_world(7) [OF n] demo_world(6) [of ?g] g(1) assms(2) by (simp add: demo_world)
  have p: "ParseIP (os_txt6 (os demo)) ''10.0.1.7'' = Some (V4 10 0 1 7)" by code_simp
  have i: "GetInterfaces demo s2 = (Inr [demo_if0, demo_if1 [V4 10 0 1 7]], s2)"
    using demo_GetInterfaces [of s2] by (simp add: w demo_w_def p map_filter_simps newline_def)
  have "GetSubnetsForInstance_aws demo ?g = Some (Inr [?n], s2)"
    using g(1) n i by (simp add: GetSubnetsForInstance_aws_def ec2call_def ext_def demo_def demo_ec2_def)
  from cached_miss [OF miss, of "GetSubnetsForInstance_aws demo", OF this] show thesis
    by (intro that [of ?n]) (simp_all add: GetSubnetsForInstance_def subnet_of_faithful)
qed

theorem AllocateIPsFirstAvailableAtIndex_best_witness:
  "\<exists>intf s3. ifNumber intf = 1 \<and> ifSubnetID intf = ''subnet-1'' \<and>
     AllocateIPsFirstAvailableAtIndex demo 1 1 (demo_ready []) = AllocateIPsOn demo intf 1 s3"
proof -
  have p: "ParseIP (os_txt6 (os demo)) ''10.0.1.7'' = Some (V4 10 0 1 7)" by code_simp
  have i: "GetInterfaces demo (demo_ready []) = (Inr [demo_if0, demo_if1 [V4 10 0 1 7]], demo_ready [])"
    using demo_GetInterfaces [of "demo_ready []"] by (simp add: demo_ready_ok(4) demo_w_def p map_filter_simps newline_def)
  obtain s2 where l: "ENILimits demo (demo_ready []) = Some ((\<lparr>limAdapters = 3, limIPv4 = 10, limIPv6 = 10\<rparr>, None), s2)"
    "world s2 = demo_w" "client_ready demo (client s2)"
    "fs_files s2 (path_Join (cachePath demo) ''subnets_for_instance'') = None"
    by (rule demo_ENILimits [OF demo_ready_ok(2) [of "[]"] demo_ready_files(1)])
       (use demo_ready_ok(4) demo_ready_files(2) in \<open>simp add: limits_key_def path_Join_def\<close>)
  obtain n s3 where n: "GetSubnetsForInstance demo s2 = Some (Inr [n], s3)" "snID n = ''subnet-1''" "0 < snAvailableAddressCount n"
    using l(3,2,4) by (rule demo_GetSubnets)
  let ?ifs = "[demo_if0, demo_if1 [V4 10 0 1 7]]" and ?l = "\<lparr>limAdapters = 3, limIPv4 = 10, limIPv6 = 10\<rparr>"
  have "demo_if1 [V4 10 0 1 7] \<in> set ?ifs \<and> 1 \<le> ifNumber (demo_if1 [V4 10 0 1 7]) \<and>
      int (length (ifIPv4s (demo_if1 [V4 10 0 1 7]))) < limIPv4 ?l"
    "n \<in> set [n] \<and> snID n = ifSubnetID (demo_if1 [V4 10 0 1 7]) \<and> 0 < snAvailableAddressCount n"
    using n(2,3) by (simp_all add: demo_if1_def)
  then have some: "\<exists>i n'. (i \<in> set ?ifs \<and> 1 \<le> ifNumber i \<and> int (length (ifIPv4s i)) < limIPv4 ?l) \<and>
      n' \<in> set [n] \<and> snID n' = ifSubnetID i \<and> 0 < snAvailableAddressCount n'" by blast
  have "AllocateIPsFirstAvailableAtIndex demo 1 1 (demo_ready []) = AllocateIPsOn demo (demo_if1 [V4 10 0 1 7]) 1 s3"
    using AllocateIPsFirstAvailableAtIndex_best [OF demo_sort_subnets i l(1) n(1), of 1 1]
    unfolding Let_def if_P [OF some] by (auto simp: demo_if0_def)
  then show ?thesis by (intro exI [of _ "demo_if1 [V4 10 0 1 7]"] exI [of _ s3]) (simp add: demo_if1_def)
qed

lemma FirstAvailable_result:
  assumes "registry_ok e s" and "client_ready e (client s)"
    and "AllocateIPsFirstAvailableAtIndex e index batchSize s = Some ((results, err), s')"
  shows "registry_ok e s' \<and> client_ready e (client s') \<and> grows e s s' \<and>
    (if err = None
     then results \<noteq> [] \<and>
       (\<exists>ifs limits lerr s2 intf. fst (GetInterfaces e s) = Inr ifs \<and>
          ENILimits e (snd (GetInterfaces e s)) = Some ((limits, lerr), s2) \<and> intf \<in> set ifs \<and> index \<le> ifNumber intf \<and>
          int (length (ifIPv4s intf)) < limIPv4 limits \<and> list_all (fresh_result e intf s s') results)
     else results = [])"
proof -
  obtain r s1 where g: "GetInterfaces e s = (r, s1)" by fastforce
  have f1: "fs_files s1 = fs_files s" "fs_dirs s1 = fs_dirs s" "client s1 = client s"
    using GetInterfaces_frame [of e s] g by simp_all
  have same1: "same_registry e s s1" using same_registryI [OF f1(1,2)] .
  show ?thesis
  proof (cases r)
    case (Inl x)
    with assms(1,2,3) g f1(3) same_registryD [OF same1] show ?thesis
      by (auto simp: AllocateIPsFirstAvailableAtIndex_def intro: grows_eq)
  next
    case (Inr ifs)
    obtain limits lerr s2 where l: "ENILimits e s1 = Some ((limits, lerr), s2)" "client_ready e (client s2)"
        "same_registry e s1 s2"
      using ENILimits_registry [of e s1] f1(3) assms(2) by metis
    obtain r3 s3 where sn: "GetSubnetsForInstance e s2 = Some (r3, s3)"
      using assms(3) g Inr l(1)
      by (cases "GetSubnetsForInstance e s2") (auto simp: AllocateIPsFirstAvailableAtIndex_def)
    have c3: "client_ready e (client s3)" using GetSubnetsForInstance_client [OF sn l(2)] .
    have "same_registry e s2 s3"
      using GetSubnetsForInstance_files(1) [OF sn cache_file_neq(2)] GetSubnetsForInstance_files(2) [OF sn]
      by (simp add: same_registry_def)
    then have same3: "same_registry e s s3" using same_registry_trans same1 l(3) by blast
    note ok3 = same_registryD(1) [OF same3 assms(1)] and v3 = same_registryD(2) [OF same3]
    let ?none = "(registry_ok e s3 \<and> client_ready e (client s3) \<and> grows e s s3)"
    have none: ?none using ok3 c3 grows_eq [OF v3] by simp
    show ?thesis
    proof (cases r3)
      case (Inl x)
      with assms(3) g Inr l(1) sn have "results = [] \<and> err = Some x \<and> s' = s3"
        by (simp add: AllocateIPsFirstAvailableAtIndex_def)
      with none show ?thesis by simp
    next
      case subnets: (Inr subnets)
      let ?pick = "pick_interface (os_sort_subnets (os e) subnets) (candidates_at index limits ifs)"
      show ?thesis
      proof (cases ?pick)
        case None
        with assms(3) g Inr l(1) sn subnets have "results = [] \<and> err \<noteq> None \<and> s' = s3"
          by (auto simp: AllocateIPsFirstAvailableAtIndex_def)
        with none show ?thesis by simp
      next
        case (Some intf)
        then have a: "AllocateIPsOn e intf batchSize s3 = Some ((results, err), s')"
          using assms(3) g Inr l(1) sn subnets by (simp add: AllocateIPsFirstAvailableAtIndex_def)
        have "intf \<in> set (candidates_at index limits ifs)" using pick_interface_Some [OF Some] by metis
        then have intf: "intf \<in> set ifs" "index \<le> ifNumber intf" "int (length (ifIPv4s intf)) < limIPv4 limits"
          by (auto simp: candidates_at_def)
        have res: "client_ready e (client s') \<and> allocated e intf s3 s' results err"
          using AllocateIPsOn_law [OF ok3 c3, of intf batchSize] a by simp
        then have "allocated e intf s s' results err" using allocated_grows [OF grows_eq [OF v3]] by blast
        with res have "registry_ok e s' \<and> client_ready e (client s') \<and> grows e s s' \<and>
            (if err = None then results \<noteq> [] \<and> list_all (fresh_result e intf s s') results else results = [])"
          by (simp add: allocated_def)
        moreover have "fst (GetInterfaces e s) = Inr ifs" "ENILimits e (snd (GetInterfaces e s)) = Some ((limits, lerr), s2)"
          using g Inr l(1) by simp_all
        ultimately show ?thesis using intf by (cases "err = None") (simp, blast, simp)
      qed
    qed
  qed
qed

lemma FirstAvailable_returns:
  assumes "registry_ok e s" and "client_ready e (client s)" and "\<And>s. fst (GetInterfaces e s) \<noteq> Inr []"
  shows "\<exists>results err s'. AllocateIPsFirstAvailableAtIndex e index batchSize s = Some ((results, err), s')"
proof -
  obtain r s1 where g: "GetInterfaces e s = (r, s1)" by fastforce
  have f1: "fs_files s1 = fs_files s" "fs_dirs s1 = fs_dirs s" "client s1 = client s"
    using GetInterfaces_frame [of e s] g by simp_all
  have same1: "same_registry e s s1" using same_registryI [OF f1(1,2)] .
  obtain limits lerr s2 where l: "ENILimits e s1 = Some ((limits, lerr), s2)" "client_ready e (client s2)"
      "same_registry e s1 s2"
    using ENILimits_registry [of e s1] f1(3) assms(2) by metis
  obtain r3 s3 where sn: "GetSubnetsForInstance e s2 = Some (r3, s3)"
    using GetSubnetsForInstance_returns [OF l(2) assms(3)] by blast
  have c3: "client_ready e (client s3)" using GetSubnetsForInstance_client [OF sn l(2)] .
  have "same_registry e s2 s3"
    using GetSubnetsForInstance_files(1) [OF sn cache_file_neq(2)] GetSubnetsForInstance_files(2) [OF sn]
    by (simp add: same_registry_def)
  then have ok3: "registry_ok e s3" using same_registryD(1) same1 l(3) assms(1) by metis
  have "\<exists>results err s'. AllocateIPsOn e intf batchSize s3 = Some ((results, err), s')" for intf
    using AllocateIPsOn_law [OF ok3 c3] by blast
  with g l(1) sn show ?thesis
    by (cases r; cases r3) (auto simp: AllocateIPsFirstAvailableAtIndex_def split: option.splits)
qed

text \<open>C8: a successful allocation respects the index and the limit. With a ready client, a working
  registry and a metadata service that never answers an empty list of interfaces (an instance has its
  boot interface), \<^verbatim>\<open>AllocateIPsFirstAvailableAtIndex\<close> returns. Without an error it answers at least one
  address, and all of them are fresh addresses of one interface from the given index on whose address
  count was below the limit in force; with an error it answers none.\<close>

theorem AllocateIPsFirstAvailableAtIndex_fresh:
  assumes "registry_ok e s" and "client_ready e (client s)" and "\<And>s. fst (GetInterfaces e s) \<noteq> Inr []"
  shows "\<exists>results err s'. AllocateIPsFirstAvailableAtIndex e index batchSize s = Some ((results, err), s') \<and>
    registry_ok e s' \<and> client_ready e (client s') \<and> grows e s s' \<and>
    (if err = None
     then results \<noteq> [] \<and>
       (\<exists>ifs limits lerr s2 intf. fst (GetInterfaces e s) = Inr ifs \<and>
          ENILimits e (snd (GetInterfaces e s)) = Some ((limits, lerr), s2) \<and> intf \<in> set ifs \<and> index \<le> ifNumber intf \<and>
          int (length (ifIPv4s intf)) < limIPv4 limits \<and> list_all (fresh_result e intf s s') results)
     else results = [])"
proof -
  obtain results err s' where run: "AllocateIPsFirstAvailableAtIndex e index batchSize s = Some ((results, err), s')"
    using FirstAvailable_returns [OF assms] by blast
  from run FirstAvailable_result [OF assms(1,2) run] show ?thesis by blast
qed

lemma get_each_interface_nonempty:
  "fst (get_each_interface e ms is s) = Inr ifs \<Longrightarrow> is \<noteq> [] \<Longrightarrow> ifs \<noteq> []"
  using get_each_interface_macs [of e ms "is" s ifs] by auto

lemma demo_interfaces: "fst (GetInterfaces demo s) \<noteq> Inr []"
proof -
  have av: "Available demo s = (True, s)" by (simp add: Available_def ext_def demo_defs)
  have m: "ext (md_GetMetadata (md demo) ''network/interfaces/macs/'') s = (Inr (''a0/'' @ newline # ''a1/''), s)"
    by (simp add: ext_def demo_defs demo_meta_def newline_def)
  have sp: "split_on newline (''a0/'' @ newline # ''a1/'') = [''a0/'', ''a1/'']" by (simp add: newline_def)
  obtain r s1 where g: "get_each_interface demo [''a0/'', ''a1/''] [] s = (r, s1)" by fastforce
  have "r \<noteq> Inr []" using get_each_interface_macs [of demo "[''a0/'', ''a1/'']" "[]" s] g by auto
  then have "r = Inr ifs \<Longrightarrow> os_sort_ifaces (os demo) ifs \<noteq> []" for ifs
    using go_sort.sort_Nil_iff [OF demo_sort_ifaces] by auto
  with av m sp g show ?thesis by (cases r) (simp_all add: GetInterfaces_def)
qed

theorem AllocateIPsFirstAvailableAtIndex_fresh_witness:
  "\<exists>results err s'. AllocateIPsFirstAvailableAtIndex demo 1 1 (demo_ready []) = Some ((results, err), s') \<and>
    registry_ok demo s' \<and> (err = None \<longleftrightarrow> results \<noteq> [])"
proof -
  have "wf_entries []" by (simp add: wf_entries_def)
  from AllocateIPsFirstAvailableAtIndex_fresh [OF demo_ready_ok(1) [OF this] demo_ready_ok(2) demo_interfaces, of 1 1]
  obtain results err s' where run: "AllocateIPsFirstAvailableAtIndex demo 1 1 (demo_ready []) = Some ((results, err), s')"
      "registry_ok demo s'" and res: "if err = None then results \<noteq> [] else results = []"
    by (auto split: if_splits)
  from res have "err = None \<longleftrightarrow> results \<noteq> []" by (simp split: if_splits)
  with run show ?thesis by blast
qed

section \<open>Deallocation\<close>

text \<open>C29: \<^verbatim>\<open>DeallocateIP\<close> releases the address it is given, where it is. With a ready client and the
  interface list \<open>ifs\<close>, it makes exactly one EC2 call, the unassignment of just that address from an
  interface that has it, and answers what EC2 answers; when no interface has the address it answers an
  error and leaves EC2 alone.\<close>

theorem DeallocateIP_exact:
  assumes "client_ready e (client s)" and "newEC2 e s = Some (r1, s1)" and "GetInterfaces e s1 = (Inr ifs, s2)"
  shows "if \<exists>i \<in> set ifs. x \<in> set (ifIPv4s i)
    then \<exists>i \<in> set ifs. x \<in> set (ifIPv4s i) \<and>
      DeallocateIP e x s = Some (ext (ec2_UnassignPrivateIpAddresses (ec2 e) (ifID i) [ip_key e x]) s2)
    else DeallocateIP e x s = Some (Some (Errorf ''IP not found - can't release''), s2)"
proof -
  have n: "newEC2 e s = Some ((True, None), s1)"
    by (rule newEC2_ready [OF assms(1)]) (use assms(2) in simp)
  show ?thesis
  proof (cases "find (\<lambda>i. x \<in> set (ifIPv4s i)) ifs")
    case None
    then have "\<not> (\<exists>i \<in> set ifs. x \<in> set (ifIPv4s i))" by (simp add: find_None_iff)
    with n assms(3) None show ?thesis by (simp add: DeallocateIP_def)
  next
    case (Some i)
    then have i: "i \<in> set ifs" "x \<in> set (ifIPv4s i)" by (auto simp: find_Some_iff)
    have "DeallocateIP e x s = Some (ext (ec2_UnassignPrivateIpAddresses (ec2 e) (ifID i) [ip_key e x]) s2)"
      using n assms(3) Some by (simp add: DeallocateIP_def ec2call_def)
    with i show ?thesis by auto
  qed
qed

theorem DeallocateIP_exact_witness:
  "\<exists>s2. world s2 = demo_w \<and> DeallocateIP demo (V4 10 0 1 7) (demo_ready []) =
     Some (ext (ec2_UnassignPrivateIpAddresses (ec2 demo) ''eni-1'' [ip_key demo (V4 10 0 1 7)]) s2)"
proof -
  obtain s1 where n: "newEC2 demo (demo_ready []) = Some ((True, None), s1)" "world s1 = demo_w"
    using newEC2_fresh [of "demo_ready []" demo] demo_ready_ok(4) [of "[]"]
    by (simp add: demo_ready_def ext_def demo_def demo_md_def)
  have p: "ParseIP (os_txt6 (os demo)) ''10.0.1.7'' = Some (V4 10 0 1 7)" by code_simp
  have i: "GetInterfaces demo s1 = (Inr [demo_if0, demo_if1 [V4 10 0 1 7]], s1)"
    using demo_GetInterfaces [of s1] by (simp add: n(2) demo_w_def p map_filter_simps newline_def)
  show ?thesis
    using DeallocateIP_exact [OF demo_ready_ok(2) n(1) i, of "V4 10 0 1 7"] n(2)
    by (auto simp: demo_if0_def demo_if1_def)
qed

end
