(* ===== verification/InterfaceMgr.thy ===== *)
theory InterfaceMgr
  imports Allocate
begin

text \<open>
  \<^verbatim>\<open>aws/interface.go\<close>: creating an elastic network interface, attaching it and waiting until the host
  sees it; detaching and deleting interfaces. Log messages and diagnostics on standard error are left
  out.
\<close>

section \<open>A new interface on a given subnet\<close>

definition interfacePollWaitTime :: int where
  "interfacePollWaitTime = ns_per_s"

definition interfaceSettleTime :: int where
  "interfaceSettleTime = 30 * ns_per_s"

text \<open>The request: a batch size of 0, or one above the limit, means the limit, and one of the addresses
  is the primary one.\<close>

definition create_request :: "IDDoc \<Rightarrow> string list \<Rightarrow> Subnet \<Rightarrow> ENILimit \<Rightarrow> int \<Rightarrow> CreateNetworkInterfaceInput" where
  "create_request idDoc secGrps subnet limits ipBatchSize =
     (let batch = wrap64 ((if ipBatchSize = 0 \<or> limIPv4 limits < ipBatchSize then limIPv4 limits else ipBatchSize) - 1)
      in \<lparr>crDescription = ''CNI-ENI '' @ idInstanceID idDoc, crGroups = secGrps, crSubnetId = snID subnet,
          crSecondaryPrivateIpAddressCount = (if 0 < batch then Some batch else None)\<rparr>)"

fun track_at_epoch :: "'w env \<Rightarrow> string list \<Rightarrow> 'w st \<Rightarrow> 'w st" where
  "track_at_epoch e [] s = s"
| "track_at_epoch e (a # as) s =
     (case ParseIP (os_txt6 (os e)) a of
        None \<Rightarrow> track_at_epoch e as s
      | Some x \<Rightarrow> track_at_epoch e as (snd (TrackIPAtEpoch e x s)))"

definition configureInterface :: "'w env \<Rightarrow> Interface \<Rightarrow> string \<Rightarrow> 'w st \<Rightarrow> 'w st option" where
  "configureInterface e intf mainIf s =
     do { (err, s) \<leftarrow> UpInterfacePoll e (LocalName intf) s;
          if err \<noteq> None then Some s
          else (let (baseMtu, s) = GetMtu e mainIf s
                in case baseMtu of
                     Inl _ \<Rightarrow> Some s
                   | Inr mtu \<Rightarrow>
                       if mtu < 1000 \<or> 9001 < mtu then Some s
                       else Some (snd (SetMtu e (LocalName intf) mtu s))) }"

text \<open>One round of the loop that waits for the interface: errors of the metadata service are ignored.\<close>

definition settle_round ::
    "'w env \<Rightarrow> NetworkInterface \<Rightarrow> 'w st \<Rightarrow> (Interface option \<times> 'w st) option" where
  "settle_round e ni s =
     (let (r, s) = GetInterfaces e s
      in case r of
           Inl _ \<Rightarrow> Some (None, s)
         | Inr newInterfaces \<Rightarrow>
             (case find (\<lambda>i. ifMac i = niMacAddress ni) newInterfaces of
                None \<Rightarrow> Some (None, s)
              | Some intf \<Rightarrow>
                  (let s = track_at_epoch e (niPrivateIpAddresses ni) s;
                       mainIf = ifIfName (hd newInterfaces)
                   in do { s \<leftarrow> configureInterface e intf mainIf s;
                           Some (Some intf, s) })))"

definition NewInterfaceOnSubnetAtIndex ::
    "'w env \<Rightarrow> int \<Rightarrow> string list \<Rightarrow> Subnet \<Rightarrow> int \<Rightarrow> 'w st \<Rightarrow> (Interface res \<times> 'w st) option" where
  "NewInterfaceOnSubnetAtIndex e index secGrps subnet ipBatchSize s =
     do { ((present, err), s) \<leftarrow> newEC2 e s;
          case err of
            Some x \<Rightarrow> Some (Inl x, s)
          | None \<Rightarrow>
              (let ((idd, err), s) = getIDDoc e s
               in case err of
                    Some x \<Rightarrow> Some (Inl x, s)
                  | None \<Rightarrow>
                      do { idDoc \<leftarrow> idd;
                           ((limits, _), s) \<leftarrow> ENILimits e s;
                           (r, s) \<leftarrow> ec2call present (ec2_CreateNetworkInterface (ec2 e)
                              (create_request idDoc secGrps subnet limits ipBatchSize)) s;
                           case r of
                             Inl x \<Rightarrow> Some (Inl x, s)
                           | Inr ni \<Rightarrow>
                               do { (r, s) \<leftarrow> ec2call present (ec2_AttachNetworkInterface (ec2 e) index
                                       (idInstanceID idDoc) (niNetworkInterfaceId ni)) s;
                                    case r of
                                      Inl x \<Rightarrow>
                                        do { (delErr, s) \<leftarrow> ec2call present
                                               (ec2_DeleteNetworkInterface (ec2 e) (niNetworkInterfaceId ni)) s;
                                             Some (Inl (case delErr of Some d \<Rightarrow> d | None \<Rightarrow> x), s) }
                                    | Inr attachmentId \<Rightarrow>
                                        do { (_, s) \<leftarrow> ec2call present (ec2_ModifyNetworkInterfaceAttribute (ec2 e)
                                               (niNetworkInterfaceId ni) attachmentId True) s;
                                             let (start, s) = ext (os_Mono (os e)) s;
                                             (r, s) \<leftarrow> poll e interfaceSettleTime interfacePollWaitTime start
                                                         (settle_round e ni) s;
                                             Some (case r of
                                                     Some intf \<Rightarrow> Inr intf
                                                   | None \<Rightarrow> Inl (Errorf ''interface did not attach in time''), s) } } }) }"

section \<open>A new interface on the best subnet\<close>

definition has_tags :: "(string \<times> string) list \<Rightarrow> Subnet \<Rightarrow> bool" where
  "has_tags requiredTags n = list_all (\<lambda>(k, v). map_of (snTags n) k = Some v) requiredTags"

definition NewInterface ::
    "'w env \<Rightarrow> string list \<Rightarrow> (string \<times> string) list \<Rightarrow> int \<Rightarrow> 'w st \<Rightarrow> (Interface res \<times> 'w st) option" where
  "NewInterface e secGrps requiredTags ipBatchSize s =
     do { (r, s) \<leftarrow> GetSubnetsForInstance e s;
          case r of
            Inl x \<Rightarrow> Some (Inl x, s)
          | Inr subnets \<Rightarrow>
              (let (r, s) = GetInterfaces e s
               in case r of
                    Inl x \<Rightarrow> Some (Inl x, s)
                  | Inr existing \<Rightarrow>
                      do { ((limits, _), s) \<leftarrow> ENILimits e s;
                           if limAdapters limits \<le> int (length existing)
                           then Some (Inl (Errorf ''too many adapters on this instance already''), s)
                           else (case os_sort_subnets (os e) (filter (has_tags requiredTags) subnets) of
                                   [] \<Rightarrow> Some (Inl (Errorf
                                          ''No subnets are available which haven't already been used''), s)
                                 | subnet # _ \<Rightarrow>
                                     NewInterfaceOnSubnetAtIndex e (int (length existing)) secGrps subnet ipBatchSize s) }) }"

section \<open>Removal\<close>

definition interfaceDetachAttempts :: nat where
  "interfaceDetachAttempts = 20"

definition interfaceDetachWaitTime :: int where
  "interfaceDetachWaitTime = ns_per_s"

definition interfacePostDetachSettleTime :: int where
  "interfacePostDetachSettleTime = 5 * ns_per_s"

definition describeNetworkInterface :: "'w env \<Rightarrow> string \<Rightarrow> 'w st \<Rightarrow> (NetworkInterface res \<times> 'w st) option" where
  "describeNetworkInterface e interfaceID s =
     do { ((present, err), s) \<leftarrow> newEC2 e s;
          case err of
            Some x \<Rightarrow> Some (Inl x, s)
          | None \<Rightarrow>
              do { (r, s) \<leftarrow> ec2call present (ec2_DescribeNetworkInterfaces (ec2 e) [interfaceID]) s;
                   Some (case r of
                           Inl x \<Rightarrow> Inl x
                         | Inr [] \<Rightarrow> Inl (Errorf ''Cannot describe interface, it might not exist'')
                         | Inr (ni # _) \<Rightarrow> Inr ni, s) } }"

definition deleteInterface :: "'w env \<Rightarrow> string \<Rightarrow> 'w st \<Rightarrow> (error option \<times> 'w st) option" where
  "deleteInterface e interfaceID s =
     do { ((present, err), s) \<leftarrow> newEC2 e s;
          case err of
            Some x \<Rightarrow> Some (Some x, s)
          | None \<Rightarrow> ec2call present (ec2_DeleteNetworkInterface (ec2 e) interfaceID) s }"

definition not_detached :: "string \<Rightarrow> error" where
  "not_detached interfaceID =
     Errorf (''Interface '' @ interfaceID @ '' has not detached yet, use --force to override this check'')"

text \<open>The loop of \<^verbatim>\<open>waitUtilInterfaceDetaches\<close>: \<open>left\<close> is \<^verbatim>\<open>interfaceDetachAttempts - attempt\<close>. The
  attempt count is tested after the description is fetched and before its status is looked at.\<close>

fun wait_detached ::
    "'w env \<Rightarrow> string \<Rightarrow> nat \<Rightarrow> NetworkInterface \<Rightarrow> 'w st \<Rightarrow> (error option \<times> 'w st) option" where
  "wait_detached e interfaceID left desc s =
     (if niStatus desc = ''available'' then Some (None, s)
      else do { (r, s) \<leftarrow> describeNetworkInterface e interfaceID s;
                case r of
                  Inl x \<Rightarrow> Some (Some x, s)
                | Inr desc \<Rightarrow>
                    (case left of
                       0 \<Rightarrow> Some (Some (not_detached interfaceID), s)
                     | Suc l \<Rightarrow> wait_detached e interfaceID l desc (time_Sleep e interfaceDetachWaitTime s)) })"

declare wait_detached.simps [simp del]

definition waitUtilInterfaceDetaches :: "'w env \<Rightarrow> string \<Rightarrow> 'w st \<Rightarrow> (error option \<times> 'w st) option" where
  "waitUtilInterfaceDetaches e interfaceID s =
     do { (r, s) \<leftarrow> describeNetworkInterface e interfaceID s;
          case r of
            Inl x \<Rightarrow> Some (Some x, s)
          | Inr desc \<Rightarrow> wait_detached e interfaceID interfaceDetachAttempts desc s }"

text \<open>One interface; an interface without attachment is a \<^verbatim>\<open>nil\<close> dereference.\<close>

definition remove_one :: "'w env \<Rightarrow> bool \<Rightarrow> string \<Rightarrow> 'w st \<Rightarrow> (error option \<times> 'w st) option" where
  "remove_one e present interfaceID s =
     do { (r, s) \<leftarrow> describeNetworkInterface e interfaceID s;
          case r of
            Inl x \<Rightarrow> Some (Some x, s)
          | Inr desc \<Rightarrow>
              do { attachmentId \<leftarrow> niAttachmentId desc;
                   (err, s) \<leftarrow> ec2call present (ec2_DetachNetworkInterface (ec2 e) attachmentId) s;
                   case err of
                     Some x \<Rightarrow> Some (Some x, s)
                   | None \<Rightarrow>
                       do { (err, s) \<leftarrow> waitUtilInterfaceDetaches e interfaceID s;
                            case err of
                              Some x \<Rightarrow> Some (Some x, s)
                            | None \<Rightarrow> deleteInterface e interfaceID (time_Sleep e interfacePostDetachSettleTime s) } } }"

fun remove_each :: "'w env \<Rightarrow> bool \<Rightarrow> string list \<Rightarrow> 'w st \<Rightarrow> (error option \<times> 'w st) option" where
  "remove_each e present [] s = Some (None, s)"
| "remove_each e present (i # is) s =
     do { (err, s) \<leftarrow> remove_one e present i s;
          case err of Some x \<Rightarrow> Some (Some x, s) | None \<Rightarrow> remove_each e present is s }"

definition RemoveInterface :: "'w env \<Rightarrow> string list \<Rightarrow> 'w st \<Rightarrow> (error option \<times> 'w st) option" where
  "RemoveInterface e interfaceIDs s =
     do { ((present, err), s) \<leftarrow> newEC2 e s;
          case err of
            Some x \<Rightarrow> Some (Some x, s)
          | None \<Rightarrow> remove_each e present interfaceIDs s }"

section \<open>Removal is orderly\<close>

lemma wait_detached_step:
  assumes "wait_detached e i n desc s = Some (None, s')" and "niStatus desc \<noteq> ''available''"
  obtains m d s1 where "n = Suc m" and "describeNetworkInterface e i s = Some (Inr d, s1)"
    and "wait_detached e i m d (time_Sleep e interfaceDetachWaitTime s1) = Some (None, s')"
proof -
  obtain r s1 where r: "describeNetworkInterface e i s = Some (r, s1)"
    using assms by (cases "describeNetworkInterface e i s") (auto simp: wait_detached.simps [of e i n])
  obtain d where d: "r = Inr d" using assms r by (cases r) (simp_all add: wait_detached.simps [of e i n])
  obtain m where "n = Suc m" using assms r d by (cases n) (simp_all add: wait_detached.simps [of e i 0])
  with assms r d show thesis by (intro that [of m d s1]) (simp_all add: wait_detached.simps [of e i "Suc m"])
qed

lemma wait_detached_available:
  "wait_detached e i n desc s = Some (None, s') \<Longrightarrow>
     (niStatus desc = ''available'' \<and> s' = s) \<or>
     (\<exists>s1 s2 d. describeNetworkInterface e i s1 = Some (Inr d, s2) \<and> niStatus d = ''available'' \<and>
        s' = time_Sleep e interfaceDetachWaitTime s2)"
proof (induction n arbitrary: desc s rule: less_induct)
  case (less n)
  show ?case
  proof (cases "niStatus desc = ''available''")
    case True
    with less.prems show ?thesis by (simp add: wait_detached.simps [of e i n])
  next
    case False
    obtain m d s1 where d: "n = Suc m" "describeNetworkInterface e i s = Some (Inr d, s1)"
        "wait_detached e i m d (time_Sleep e interfaceDetachWaitTime s1) = Some (None, s')"
      using wait_detached_step [OF less.prems False] .
    from less.IH [OF _ d(3)] d(1,2) show ?thesis by blast
  qed
qed

lemma waitUtil_available:
  assumes "waitUtilInterfaceDetaches e i s = Some (None, s')"
  shows "\<exists>s1 s2 d. describeNetworkInterface e i s1 = Some (Inr d, s2) \<and> niStatus d = ''available'' \<and>
    (s' = s2 \<or> s' = time_Sleep e interfaceDetachWaitTime s2)"
proof -
  obtain d s1 where d: "describeNetworkInterface e i s = Some (Inr d, s1)"
      "wait_detached e i interfaceDetachAttempts d s1 = Some (None, s')"
  proof -
    obtain r s1 where r: "describeNetworkInterface e i s = Some (r, s1)"
      using assms by (cases "describeNetworkInterface e i s") (auto simp: waitUtilInterfaceDetaches_def)
    with assms that show thesis by (cases r) (simp_all add: waitUtilInterfaceDetaches_def)
  qed
  from wait_detached_available [OF d(2)] d(1) show ?thesis by blast
qed

text \<open>C18: an interface is deleted only once it is detached. When the removal of an interface succeeds,
  it was detached through the attachment that EC2 described, EC2 then described it with the status
  \<^verbatim>\<open>available\<close>, and only after that, and after the five seconds of settling, was it deleted.\<close>

theorem remove_one_orderly:
  assumes "remove_one e present i s = Some (None, s')"
  shows "\<exists>desc att s1 s2 s3 s4 d s5.
    describeNetworkInterface e i s = Some (Inr desc, s1) \<and> niAttachmentId desc = Some att \<and>
    ext (ec2_DetachNetworkInterface (ec2 e) att) s1 = (None, s2) \<and> waitUtilInterfaceDetaches e i s2 = Some (None, s5) \<and>
    describeNetworkInterface e i s3 = Some (Inr d, s4) \<and> niStatus d = ''available'' \<and>
    (s5 = s4 \<or> s5 = time_Sleep e interfaceDetachWaitTime s4) \<and>
    deleteInterface e i (time_Sleep e (5 * ns_per_s) s5) = Some (None, s')"
proof -
  obtain desc s1 where a: "describeNetworkInterface e i s = Some (Inr desc, s1)"
  proof -
    obtain r s1 where r: "describeNetworkInterface e i s = Some (r, s1)"
      using assms by (cases "describeNetworkInterface e i s") (auto simp: remove_one_def)
    with assms that show thesis by (cases r) (simp_all add: remove_one_def)
  qed
  obtain att where b: "niAttachmentId desc = Some att"
    using assms a by (cases "niAttachmentId desc") (simp_all add: remove_one_def)
  have p: present using assms a b by (cases present) (simp_all add: remove_one_def ec2call_def)
  obtain r s2 where c: "ext (ec2_DetachNetworkInterface (ec2 e) att) s1 = (r, s2)" by fastforce
  have r: "r = None" using assms a b p c by (cases r) (simp_all add: remove_one_def ec2call_def)
  obtain r5 s5 where w: "waitUtilInterfaceDetaches e i s2 = Some (r5, s5)"
    using assms a b p c r by (cases "waitUtilInterfaceDetaches e i s2") (auto simp: remove_one_def ec2call_def)
  have r5: "r5 = None" using assms a b p c r w by (cases r5) (simp_all add: remove_one_def ec2call_def)
  have "deleteInterface e i (time_Sleep e (5 * ns_per_s) s5) = Some (None, s')"
    using assms a b p c r w r5 by (simp add: remove_one_def ec2call_def interfacePostDetachSettleTime_def)
  moreover obtain s3 s4 d where "describeNetworkInterface e i s3 = Some (Inr d, s4)" "niStatus d = ''available''"
      "s5 = s4 \<or> s5 = time_Sleep e interfaceDetachWaitTime s4"
    using waitUtil_available [of e i s2 s5] w r5 by blast
  ultimately show ?thesis using a b c r w r5 by blast
qed

lemma demo_describe:
  assumes "client_ready demo (client s)"
  shows "\<exists>s'. describeNetworkInterface demo i s = Some (Inr \<lparr>niNetworkInterfaceId = i, niMacAddress = ''a1'',
     niPrivateIpAddresses = [], niAttachmentId = Some ''attach-9'', niStatus = ''available''\<rparr>, s') \<and>
     client_ready demo (client s')"
proof -
  obtain s1 where n: "newEC2 demo s = Some ((True, None), s1)" "client_ready demo (client s1)"
    using assms by (rule newEC2_ready)
  then show ?thesis
    by (simp add: describeNetworkInterface_def ec2call_def ext_def) (simp add: demo_defs)
qed

theorem remove_one_orderly_witness:
  "\<exists>s' s3 d s4. remove_one demo True ''eni-1'' (demo_ready []) = Some (None, s') \<and>
     describeNetworkInterface demo ''eni-1'' s3 = Some (Inr d, s4) \<and> niStatus d = ''available''"
proof -
  obtain s1 d where d: "describeNetworkInterface demo ''eni-1'' (demo_ready []) = Some (Inr d, s1)"
      "niAttachmentId d = Some ''attach-9''" "client_ready demo (client s1)"
    using demo_describe [OF demo_ready_ok(2), of "''eni-1''" "[]"] by auto
  obtain s2 where det: "ext (ec2_DetachNetworkInterface (ec2 demo) ''attach-9'') s1 = (None, s2)" "client s2 = client s1"
    by (simp add: ext_def demo_defs)
  have "client_ready demo (client s2)" using d(3) det(2) by simp
  then obtain s5 d2 where w: "describeNetworkInterface demo ''eni-1'' s2 = Some (Inr d2, s5)" "niStatus d2 = ''available''"
      "client_ready demo (client s5)"
    using demo_describe [of s2 "''eni-1''"] by auto
  then have wait: "waitUtilInterfaceDetaches demo ''eni-1'' s2 = Some (None, s5)"
    by (simp add: waitUtilInterfaceDetaches_def wait_detached.simps)
  have "client_ready demo (client (time_Sleep demo interfacePostDetachSettleTime s5))" using w(3) by simp
  then obtain s6 where "newEC2 demo (time_Sleep demo interfacePostDetachSettleTime s5) = Some ((True, None), s6)"
    using newEC2_ready by metis
  then obtain s' where del: "deleteInterface demo ''eni-1'' (time_Sleep demo interfacePostDetachSettleTime s5) = Some (None, s')"
    by (simp add: deleteInterface_def ec2call_def ext_def) (simp add: demo_defs)
  have run: "remove_one demo True ''eni-1'' (demo_ready []) = Some (None, s')"
    using d(1,2) det(1) wait del by (simp add: remove_one_def ec2call_def)
  from run remove_one_orderly [OF run] show ?thesis by blast
qed

section \<open>How long a removal waits\<close>

text \<open>The state before look \<open>k\<close> of the waiting loop, when every look before it was answered.\<close>

definition detach_wait :: "'w env \<Rightarrow> string \<Rightarrow> nat \<Rightarrow> 'w st \<Rightarrow> 'w st" where
  "detach_wait e i k s =
     ((\<lambda>s. time_Sleep e interfaceDetachWaitTime (snd (the (describeNetworkInterface e i s)))) ^^ k) s"

definition still_attached :: "'w env \<Rightarrow> string \<Rightarrow> 'w st \<Rightarrow> bool" where
  "still_attached e i s =
     (\<exists>d s'. describeNetworkInterface e i s = Some (Inr d, s') \<and> niStatus d \<noteq> ''available'')"

lemma detach_wait_simps [simp]:
  "detach_wait e i 0 s = s"
  "detach_wait e i (Suc k) s =
     detach_wait e i k (time_Sleep e interfaceDetachWaitTime (snd (the (describeNetworkInterface e i s))))"
  by (simp_all add: detach_wait_def funpow_swap1 del: funpow.simps add: funpow_Suc_right)

lemma wait_detached_look:
  "niStatus d = ''available'' \<Longrightarrow> wait_detached e i n d s = Some (None, s)"
  "niStatus d \<noteq> ''available'' \<Longrightarrow> wait_detached e i n d s =
     (case describeNetworkInterface e i s of
        None \<Rightarrow> None
      | Some (Inl x, s1) \<Rightarrow> Some (Some x, s1)
      | Some (Inr d', s1) \<Rightarrow>
          if n = 0 then Some (Some (not_detached i), s1)
          else wait_detached e i (n - 1) d' (time_Sleep e interfaceDetachWaitTime s1))"
proof -
  show "niStatus d = ''available'' \<Longrightarrow> wait_detached e i n d s = Some (None, s)" by (simp add: wait_detached.simps)
  show "niStatus d \<noteq> ''available'' \<Longrightarrow> wait_detached e i n d s =
     (case describeNetworkInterface e i s of
        None \<Rightarrow> None
      | Some (Inl x, s1) \<Rightarrow> Some (Some x, s1)
      | Some (Inr d', s1) \<Rightarrow>
          if n = 0 then Some (Some (not_detached i), s1)
          else wait_detached e i (n - 1) d' (time_Sleep e interfaceDetachWaitTime s1))"
    by (subst wait_detached.simps) (cases n, auto split: option.splits sum.splits)
qed

lemma wait_detached_skip:
  "k \<le> n \<Longrightarrow> \<forall>j<k. still_attached e i (detach_wait e i j s) \<Longrightarrow> niStatus desc \<noteq> ''available'' \<Longrightarrow>
     \<exists>d. niStatus d \<noteq> ''available'' \<and> wait_detached e i n desc s = wait_detached e i (n - k) d (detach_wait e i k s)"
proof (induction k arbitrary: n desc s)
  case 0
  then show ?case by auto
next
  case (Suc k)
  from Suc.prems(1) obtain m where m: "n = Suc m" "k \<le> m" by (cases n) auto
  have "still_attached e i s" using Suc.prems(2) by force
  then obtain d s1 where d: "describeNetworkInterface e i s = Some (Inr d, s1)" "niStatus d \<noteq> ''available''"
    by (auto simp: still_attached_def)
  let ?s = "time_Sleep e interfaceDetachWaitTime s1"
  have later: "\<forall>j<k. still_attached e i (detach_wait e i j ?s)"
    using Suc.prems(2) d(1) by (auto dest: spec [of _ "Suc _"])
  have "wait_detached e i n desc s = wait_detached e i m d ?s"
    using m(1) d(1) Suc.prems(3) by (simp add: wait_detached.simps [of e i "Suc m"])
  with Suc.IH [OF m(2) later d(2)] d(1) m(1) show ?case by auto
qed

text \<open>C33: how a removal waits for the detachment, and what it overlooks. \<^verbatim>\<open>waitUtilInterfaceDetaches\<close> looks
  at the interface and returns at once when it is available or the look fails. Otherwise it looks again, at most 21
  times with a second between the looks. A failed look ends the wait with its error; one of the first 20 that shows the
  interface available ends it successfully, a second later; the answer of the 21st is not used: the wait ends with
  an error even when it says that the interface is available.\<close>

theorem waitUtilInterfaceDetaches_decides:
  "case describeNetworkInterface e i s of
     None \<Rightarrow> waitUtilInterfaceDetaches e i s = None
   | Some (Inl x, s0) \<Rightarrow> waitUtilInterfaceDetaches e i s = Some (Some x, s0)
   | Some (Inr d0, s0) \<Rightarrow>
       if niStatus d0 = ''available'' then waitUtilInterfaceDetaches e i s = Some (None, s0)
       else \<forall>k\<le>20. (\<forall>j<k. still_attached e i (detach_wait e i j s0)) \<longrightarrow>
         (case describeNetworkInterface e i (detach_wait e i k s0) of
            None \<Rightarrow> waitUtilInterfaceDetaches e i s = None
          | Some (Inl x, s1) \<Rightarrow> waitUtilInterfaceDetaches e i s = Some (Some x, s1)
          | Some (Inr d, s1) \<Rightarrow>
              if k = 20 then waitUtilInterfaceDetaches e i s = Some (Some (not_detached i), s1)
              else niStatus d = ''available'' \<longrightarrow> waitUtilInterfaceDetaches e i s = Some (None, time_Sleep e ns_per_s s1))"
proof (cases "\<exists>d0 s0. describeNetworkInterface e i s = Some (Inr d0, s0) \<and> niStatus d0 \<noteq> ''available''")
  case False
  then show ?thesis
    by (cases "describeNetworkInterface e i s")
       (auto simp: waitUtilInterfaceDetaches_def wait_detached.simps split: sum.splits)
next
  case True
  then obtain d0 s0 where d0: "describeNetworkInterface e i s = Some (Inr d0, s0)" "niStatus d0 \<noteq> ''available''" by blast
  have "case describeNetworkInterface e i (detach_wait e i k s0) of
            None \<Rightarrow> waitUtilInterfaceDetaches e i s = None
          | Some (Inl x, s1) \<Rightarrow> waitUtilInterfaceDetaches e i s = Some (Some x, s1)
          | Some (Inr d, s1) \<Rightarrow>
              if k = 20 then waitUtilInterfaceDetaches e i s = Some (Some (not_detached i), s1)
              else niStatus d = ''available'' \<longrightarrow> waitUtilInterfaceDetaches e i s = Some (None, time_Sleep e ns_per_s s1)"
    if k: "k \<le> 20" "\<forall>j<k. still_attached e i (detach_wait e i j s0)" for k
  proof -
    obtain d where d: "niStatus d \<noteq> ''available''"
      "waitUtilInterfaceDetaches e i s = wait_detached e i (20 - k) d (detach_wait e i k s0)"
      using wait_detached_skip [OF k d0(2)] d0(1)
      by (auto simp: waitUtilInterfaceDetaches_def interfaceDetachAttempts_def)
    show ?thesis
      using k(1) unfolding d(2) wait_detached_look(2) [OF d(1)]
      by (auto simp: wait_detached_look(1) interfaceDetachWaitTime_def split: option.splits sum.splits)
  qed
  then show ?thesis using d0 by simp
qed

text \<open>An interface that is reported as in use for a while.\<close>

definition demo_slow :: "dw env" where
  "demo_slow = demo\<lparr>ec2 := demo_ec2\<lparr>ec2_DescribeNetworkInterfaces := (\<lambda>ids w.
     (Inr [\<lparr>niNetworkInterfaceId = ''eni-1'', niMacAddress = ''a1'', niPrivateIpAddresses = [], niAttachmentId = None,
            niStatus = (if d_busy w = 0 then ''available'' else ''in-use'')\<rparr>], w\<lparr>d_busy := d_busy w - 1\<rparr>))\<rparr>\<rparr>"

lemma demo_slow_look:
  assumes "client_ready demo (client s)"
  obtains d s' where "describeNetworkInterface demo_slow i s = Some (Inr d, s')" and "client_ready demo (client s')"
    and "d_busy (world s') = d_busy (world s) - 1" and "niStatus d = ''available'' \<longleftrightarrow> d_busy (world s) = 0"
proof -
  have same: "newEC2 demo_slow s = newEC2 demo s"
    unfolding demo_slow_def newEC2_def getIDDoc_ec2 by (rule refl)
  obtain s1 where n: "newEC2 demo s = Some ((True, None), s1)" "client_ready demo (client s1)"
    using assms by (rule newEC2_ready)
  have "world s1 = world s" using demo_world(7) [OF n(1)] .
  then show thesis
    using n that by (simp add: describeNetworkInterface_def same ec2call_def ext_def) (simp add: demo_slow_def)
qed

lemma demo_slow_wait:
  "client_ready demo (client s) \<Longrightarrow> client_ready demo (client (detach_wait demo_slow i k s)) \<and>
     d_busy (world (detach_wait demo_slow i k s)) = d_busy (world s) - k"
proof (induction k arbitrary: s)
  case (Suc k)
  obtain d s' where d: "describeNetworkInterface demo_slow i s = Some (Inr d, s')" "client_ready demo (client s')"
    "d_busy (world s') = d_busy (world s) - 1"
    using Suc.prems by (rule demo_slow_look)
  have "d_busy (world (time_Sleep demo_slow t s')) = d_busy (world s')" for t
    by (simp add: time_Sleep_def demo_slow_def demo_def demo_os_def)
  with Suc.IH [of "time_Sleep demo_slow interfaceDetachWaitTime s'"] d show ?case by simp
qed simp

theorem waitUtilInterfaceDetaches_decides_witness:
  "let s = (demo_ready [])\<lparr>world := demo_w\<lparr>d_busy := 21\<rparr>\<rparr> in
   \<exists>s' s1 d. waitUtilInterfaceDetaches demo_slow ''eni-1'' s = Some (Some (not_detached ''eni-1''), s') \<and>
     describeNetworkInterface demo_slow ''eni-1'' s1 = Some (Inr d, s') \<and> niStatus d = ''available''"
proof -
  let ?s = "(demo_ready [])\<lparr>world := demo_w\<lparr>d_busy := 21\<rparr>\<rparr>"
  have c: "client_ready demo (client ?s)" using demo_ready_ok(2) by simp
  obtain d0 s0 where d0: "describeNetworkInterface demo_slow ''eni-1'' ?s = Some (Inr d0, s0)"
    "client_ready demo (client s0)" "d_busy (world s0) = 20" "niStatus d0 \<noteq> ''available''"
    by (rule demo_slow_look [OF c]) simp
  note wait = demo_slow_wait [OF d0(2), of "''eni-1''"]
  have busy: "still_attached demo_slow ''eni-1'' (detach_wait demo_slow ''eni-1'' j s0)" if j: "j < 20" for j
  proof -
    obtain d s' where "describeNetworkInterface demo_slow ''eni-1'' (detach_wait demo_slow ''eni-1'' j s0) = Some (Inr d, s')"
      "niStatus d = ''available'' \<longleftrightarrow> d_busy (world (detach_wait demo_slow ''eni-1'' j s0)) = 0"
      using wait [of j] by (metis demo_slow_look)
    then show ?thesis using wait [of j] d0(3) j by (auto simp: still_attached_def)
  qed
  obtain d s' where d: "describeNetworkInterface demo_slow ''eni-1'' (detach_wait demo_slow ''eni-1'' 20 s0) = Some (Inr d, s')"
    "niStatus d = ''available''"
    using wait [of 20] d0(3) by (metis demo_slow_look diff_self_eq_0)
  have "waitUtilInterfaceDetaches demo_slow ''eni-1'' ?s = Some (Some (not_detached ''eni-1''), s')"
    using waitUtilInterfaceDetaches_decides [of demo_slow "''eni-1''" ?s] d0(1,4) d(1) busy by (auto dest!: spec [of _ 20])
  with d show ?thesis unfolding Let_def by blast
qed

section \<open>Creation\<close>

lemma track_at_epoch_law:
  assumes "registry_ok e s"
  shows "registry_ok e (track_at_epoch e as s) \<and> client (track_at_epoch e as s) = client s \<and>
    registry_view e (track_at_epoch e as s) =
      (\<lambda>k. if k \<in> ip_key e ` set (List.map_filter (ParseIP (os_txt6 (os e))) as) then Some zero_time
           else registry_view e s k)"
  using assms
proof (induction as arbitrary: s)
  case Nil
  then show ?case by (simp add: map_filter_simps)
next
  case (Cons a as)
  show ?case
  proof (cases "ParseIP (os_txt6 (os e)) a")
    case None
    with Cons show ?thesis by (simp add: map_filter_simps)
  next
    case (Some x)
    obtain rc s0 where l: "load e s = (Inr rc, s0)" using registry_load [OF Cons.prems] by metis
    obtain s1 where s1: "TrackIPAtEpoch e x s = (None, s1)" "registry_ok e s1"
        "registry_view e s1 = (registry_view e s)(ip_key e x \<mapsto> zero_time)" "registry_rest e s1 = registry_rest e s"
      using track_put [OF Cons.prems l, of s0 zero_time "ip_key e x"]
      by (auto simp: TrackIPAtEpoch_def l epoch_entry_def)
    have "client s1 = client s" using s1(4) by (simp add: registry_rest_def)
    with Cons.IH [OF s1(2)] s1 Some show ?thesis by (auto simp: map_filter_simps fun_eq_iff)
  qed
qed

lemma configureInterface_frame [frame]:
  assumes "configureInterface e intf mainIf s = Some s'"
  shows "fs_files s' = fs_files s" and "fs_dirs s' = fs_dirs s" and "client s' = client s"
proof -
  obtain r s1 where u: "UpInterfacePoll e (LocalName intf) s = Some (r, s1)"
    using assms by (cases "UpInterfacePoll e (LocalName intf) s") (auto simp: configureInterface_def)
  obtain m s2 where g: "GetMtu e mainIf s1 = (m, s2)" by fastforce
  have f2: "fs_files s2 = fs_files s1" "fs_dirs s2 = fs_dirs s1" "client s2 = client s1"
    using link_ops_frame(4-6) [of e mainIf s1] g by simp_all
  have "fs_files s' = fs_files s1 \<and> fs_dirs s' = fs_dirs s1 \<and> client s' = client s1"
    using assms u g f2 by (cases r; cases m) (auto simp: configureInterface_def split: if_splits)
  with UpInterfacePoll_frame [OF u] show "fs_files s' = fs_files s" and "fs_dirs s' = fs_dirs s" and "client s' = client s"
    by simp_all
qed

lemma settle_round_result:
  assumes "settle_round e ni s = Some (r, s')" and "registry_ok e s"
  shows "registry_ok e s' \<and> client s' = client s \<and>
    (case r of None \<Rightarrow> True
     | Some intf \<Rightarrow> ifMac intf = niMacAddress ni \<and> (\<exists>ifs. fst (GetInterfaces e s) = Inr ifs \<and> intf \<in> set ifs) \<and>
         (\<forall>x \<in> set (List.map_filter (ParseIP (os_txt6 (os e))) (niPrivateIpAddresses ni)).
            registry_view e s' (ip_key e x) = Some zero_time))"
proof -
  obtain g s1 where g: "GetInterfaces e s = (g, s1)" by fastforce
  have f1: "fs_files s1 = fs_files s" "fs_dirs s1 = fs_dirs s" "client s1 = client s"
    using GetInterfaces_frame [of e s] g by simp_all
  note ok1 = registry_footprint(1) [OF f1(1,2) assms(2)]
  let ?s2 = "track_at_epoch e (niPrivateIpAddresses ni) s1"
  note t = track_at_epoch_law [OF ok1, of "niPrivateIpAddresses ni"]
  show ?thesis
  proof (cases g)
    case (Inl x)
    with assms(1) g ok1 f1 show ?thesis by (auto simp: settle_round_def)
  next
    case (Inr ifs)
    show ?thesis
    proof (cases "find (\<lambda>i. ifMac i = niMacAddress ni) ifs")
      case None
      with assms(1) g Inr ok1 f1 show ?thesis by (auto simp: settle_round_def)
    next
      case (Some intf)
      then have i: "intf \<in> set ifs" "ifMac intf = niMacAddress ni" by (auto simp: find_Some_iff)
      obtain s3 where c: "configureInterface e intf (ifIfName (hd ifs)) ?s2 = Some s3" "s' = s3" "r = Some intf"
        using assms(1) g Inr Some
        by (cases "configureInterface e intf (ifIfName (hd ifs)) ?s2") (auto simp: settle_round_def Let_def)
      note f3 = configureInterface_frame [OF c(1)]
      have "registry_ok e s3" "registry_view e s3 = registry_view e ?s2"
        using registry_footprint(1) [OF f3(1,2)] registry_footprint(2) [OF f3(1)] t by auto
      with t f3(3) f1(3) c(2,3) i g Inr show ?thesis by auto
    qed
  qed
qed

text \<open>C17: a failed attachment leaves no interface behind. When EC2 creates the interface but refuses to
  attach it, \<^verbatim>\<open>NewInterfaceOnSubnetAtIndex\<close> deletes exactly that interface before it answers an error:
  EC2's answer to the attachment, or to the deletion if that failed too.\<close>

theorem attach_failure_deletes:
  assumes "client_ready e (client s)" and "newEC2 e s = Some (r1, s1)" and "getIDDoc e s1 = ((Some d, err1), s2)"
    and "ENILimits e s2 = Some ((limits, lerr), s3)"
    and "ext (ec2_CreateNetworkInterface (ec2 e) (create_request d secGrps subnet limits batch)) s3 = (Inr ni, s4)"
    and "ext (ec2_AttachNetworkInterface (ec2 e) index (idInstanceID d) (niNetworkInterfaceId ni)) s4 = (Inl aerr, s5)"
  shows "NewInterfaceOnSubnetAtIndex e index secGrps subnet batch s =
    (case ext (ec2_DeleteNetworkInterface (ec2 e) (niNetworkInterfaceId ni)) s5 of
       (None, s6) \<Rightarrow> Some (Inl aerr, s6) | (Some derr, s6) \<Rightarrow> Some (Inl derr, s6))"
proof -
  have n: "newEC2 e s = Some ((True, None), s1)" "client_ready e (client s1)"
    by (rule newEC2_ready [OF assms(1)]; use assms(2) in simp)+
  have "err1 = None" by (rule getIDDoc_ready [OF n(2)]) (use assms(3) in simp)
  with n(1) assms(3-6) show ?thesis
    by (auto simp: NewInterfaceOnSubnetAtIndex_def ec2call_def split: prod.splits option.splits)
qed

theorem attach_failure_deletes_witness:
  "\<exists>s6. NewInterfaceOnSubnetAtIndex
      (demo\<lparr>ec2 := demo_ec2\<lparr>ec2_AttachNetworkInterface := \<lambda>_ _ _ w. (Inl (Ext ''AttachmentLimitExceeded''), w)\<rparr>\<rparr>)
      1 [] zero_Subnet 1 (demo_ready []) = Some (Inl (Ext ''AttachmentLimitExceeded''), s6) \<and>
    ''eni-9'' \<notin> set (d_enis (world s6))"
proof -
  let ?e = "demo\<lparr>ec2 := demo_ec2\<lparr>ec2_AttachNetworkInterface := \<lambda>_ _ _ w. (Inl (Ext ''AttachmentLimitExceeded''), w)\<rparr>\<rparr>"
  let ?ni = "\<lparr>niNetworkInterfaceId = ''eni-9'', niMacAddress = ''a1'', niPrivateIpAddresses = [''10.0.1.7''],
     niAttachmentId = None, niStatus = ''available''\<rparr>"
  have cr: "client_ready ?e (client (demo_ready []))" using demo_ready_ok(2) by simp
  obtain s1 where n: "newEC2 ?e (demo_ready []) = Some ((True, None), s1)" "client_ready ?e (client s1)"
    using cr by (rule newEC2_ready)
  obtain d s2 where g: "getIDDoc ?e s1 = ((Some d, None), s2)" "client_ready ?e (client s2)"
    using n(2) by (rule getIDDoc_ready)
  obtain limits lerr s3 where l: "ENILimits ?e s2 = Some ((limits, lerr), s3)"
    using g(2) by (rule ENILimits_ready)
  let ?req = "create_request d [] zero_Subnet limits 1"
  obtain s4 where c: "ext (ec2_CreateNetworkInterface (ec2 ?e) ?req) s3 = (Inr ?ni, s4)"
    by (simp add: ext_def demo_ec2_def)
  have a: "ext (ec2_AttachNetworkInterface (ec2 ?e) 1 (idInstanceID d) (niNetworkInterfaceId ?ni)) s4 =
      (Inl (Ext ''AttachmentLimitExceeded''), s4)"
    by (simp add: ext_def)
  have del: "ext (ec2_DeleteNetworkInterface (ec2 ?e) ''eni-9'') s4 =
      (None, s4\<lparr>world := (world s4)\<lparr>d_enis := filter (\<lambda>x. x \<noteq> ''eni-9'') (d_enis (world s4))\<rparr>\<rparr>)"
    by (simp add: ext_def demo_ec2_def)
  show ?thesis
    using attach_failure_deletes [OF cr n(1) g(1) l c a] del by simp
qed

text \<open>A clock that the calls made while waiting for an interface do not turn back, and a standard error that takes
  the reports.\<close>

definition calm :: "'w env \<Rightarrow> ('w \<Rightarrow> int) \<Rightarrow> bool" where
  "calm e clk =
     (mono_clock e clk \<and> ticks clk (md_Available (md e)) \<and> (\<forall>p. ticks clk (md_GetMetadata (md e) p)) \<and>
      ticks clk (net_Interfaces (nl e)) \<and> (\<forall>p n. ticks clk (nl_LinkByName (nl e) p n)) \<and>
      (\<forall>l. ticks clk (nl_LinkSetUp (nl e) l)) \<and> (\<forall>n x. ticks clk (os_Stderr (os e) n x)) \<and> stderr_ok e)"

lemma metadataParser_clock:
  "calm e clk \<Longrightarrow> clk (world s) \<le> clk (world (snd (metadataParser e i k f s)))"
  using ticks_ext [of clk "md_GetMetadata (md e) _" s]
  by (auto simp: metadataParser_def case_prod_unfold Let_def calm_def split: sum.splits)

lemma run_parsers_clock:
  "calm e clk \<Longrightarrow> clk (world s) \<le> clk (world (snd (run_parsers e ps i s)))"
proof (induction ps arbitrary: i s)
  case (Cons p ps)
  obtain k f where p: "p = (k, f)" by fastforce
  let ?m = "metadataParser e i k f s"
  have "clk (world (snd ?m)) \<le> clk (world (snd (run_parsers e ps j (snd ?m))))" for j
    using Cons by blast
  with metadataParser_clock [OF Cons.prems, of s i k f] show ?case
    by (auto simp: p case_prod_unfold Let_def intro: order_trans split: sum.splits)
qed simp

lemma getInterface_clock:
  assumes "calm e clk"
  shows "clk (world s) \<le> clk (world (snd (getInterface e mac s)))"
proof -
  let ?r = "run_parsers e (interface_parsers (os_txt6 (os e))) (empty_Interface mac) s"
  have "clk (world s) \<le> clk (world (snd ?r))" by (rule run_parsers_clock [OF assms])
  moreover have "clk (world (snd ?r)) \<le> clk (world (snd (ext (net_Interfaces (nl e)) (snd ?r))))"
    using assms by (intro ticks_ext) (simp add: calm_def)
  ultimately show ?thesis
    by (auto simp: getInterface_def case_prod_unfold Let_def split: sum.splits option.splits)
qed

lemma get_each_interface_clock:
  "calm e clk \<Longrightarrow> clk (world s) \<le> clk (world (snd (get_each_interface e ms is s)))"
proof (induction ms arbitrary: "is" s)
  case (Cons m ms)
  let ?g = "getInterface e (butlast m) s"
  have "clk (world (snd ?g)) \<le> clk (world (snd (get_each_interface e ms j (snd ?g))))" for j
    using Cons by blast
  with getInterface_clock [OF Cons.prems, of s "butlast m"] Cons show ?case
    by (auto simp: case_prod_unfold Let_def intro: order_trans split: sum.splits)
qed simp

lemma GetInterfaces_clock:
  assumes "calm e clk"
  shows "clk (world s) \<le> clk (world (snd (GetInterfaces e s)))"
proof -
  let ?a = "Available e s"
  let ?m = "ext (md_GetMetadata (md e) ''network/interfaces/macs/'') (snd ?a)"
  have a: "clk (world s) \<le> clk (world (snd ?a))"
    unfolding Available_def using assms by (intro ticks_ext) (simp add: calm_def)
  have m: "clk (world (snd ?a)) \<le> clk (world (snd ?m))"
    using assms by (intro ticks_ext) (simp add: calm_def)
  have g: "clk (world s) \<le> clk (world (snd (get_each_interface e ms [] (snd ?m))))" for ms
    by (rule order_trans [OF order_trans [OF a m] get_each_interface_clock [OF assms]])
  show ?thesis
  proof (cases "fst ?a")
    case True
    show ?thesis
    proof (cases "fst ?m")
      case (Inl x)
      with True order_trans [OF a m] show ?thesis by (simp add: GetInterfaces_def case_prod_unfold Let_def)
    next
      case (Inr macs)
      with True g [of "split_on newline macs"] show ?thesis
        by (simp add: GetInterfaces_def case_prod_unfold Let_def split: sum.splits)
    qed
  qed (use a in \<open>simp add: GetInterfaces_def case_prod_unfold\<close>)
qed

lemma UpInterfacePoll_calm:
  assumes "calm e clk"
  shows "\<exists>r s'. UpInterfacePoll e name s = Some (r, s')"
  by (rule UpInterfacePoll_total [of e clk]) (use assms in \<open>simp_all add: calm_def stderr_ok_def\<close>)

lemma configureInterface_returns:
  assumes "calm e clk"
  shows "\<exists>s'. configureInterface e intf mainIf s = Some s'"
proof -
  obtain r s1 where "UpInterfacePoll e (LocalName intf) s = Some (r, s1)"
    using UpInterfacePoll_calm [OF assms] by blast
  then show ?thesis
    by (auto simp: configureInterface_def case_prod_unfold Let_def split: sum.splits)
qed

lemma settle_round_returns:
  assumes "calm e clk"
  shows "\<exists>r s'. settle_round e ni s = Some (r, s') \<and> (r = None \<longrightarrow> clk (world s) \<le> clk (world s'))"
proof -
  obtain g s1 where g: "GetInterfaces e s = (g, s1)" by fastforce
  have le: "clk (world s) \<le> clk (world s1)" using GetInterfaces_clock [OF assms, of s] g by simp
  show ?thesis
  proof (cases g)
    case (Inl x)
    with g le show ?thesis by (simp add: settle_round_def)
  next
    case (Inr ifs)
    show ?thesis
    proof (cases "find (\<lambda>i. ifMac i = niMacAddress ni) ifs")
      case None
      with g Inr le show ?thesis by (simp add: settle_round_def)
    next
      case (Some intf)
      obtain s3 where "configureInterface e intf (ifIfName (hd ifs)) (track_at_epoch e (niPrivateIpAddresses ni) s1) = Some s3"
        using configureInterface_returns [OF assms] by blast
      with g Inr Some show ?thesis by (simp add: settle_round_def Let_def)
    qed
  qed
qed

text \<open>Waiting for the interface, with a working registry.\<close>

lemma settle_poll:
  assumes "calm e clk" and "registry_ok e s"
  shows "\<exists>r s'. poll e interfaceSettleTime interfacePollWaitTime start (settle_round e ni) s = Some (r, s') \<and>
    registry_ok e s' \<and> client s' = client s \<and>
    (\<forall>intf. r = Some intf \<longrightarrow> ifMac intf = niMacAddress ni \<and>
       (\<forall>x \<in> set (List.map_filter (ParseIP (os_txt6 (os e))) (niPrivateIpAddresses ni)).
          registry_view e s' (ip_key e x) = Some zero_time))"
proof -
  have mono: "mono_clock e clk" using assms(1) by (simp add: calm_def)
  have wait: "0 < interfacePollWaitTime" by (simp add: interfacePollWaitTime_def ns_per_s_def)
  obtain r s' where p: "poll e interfaceSettleTime interfacePollWaitTime start (settle_round e ni) s = Some (r, s')"
    using poll_returns [OF mono wait settle_round_returns [OF assms(1), of ni], of interfaceSettleTime start s] by blast
  let ?G = "\<lambda>s'. registry_ok e s' \<and> client s' = client s"
  let ?P = "\<lambda>r s'. \<forall>intf. r = Some intf \<longrightarrow> ifMac intf = niMacAddress ni \<and>
       (\<forall>x \<in> set (List.map_filter (ParseIP (os_txt6 (os e))) (niPrivateIpAddresses ni)).
          registry_view e s' (ip_key e x) = Some zero_time)"
  have body: "?G s2 \<and> ?P r2 s2" if "settle_round e ni s1 = Some (r2, s2)" "?G s1" for s1 r2 s2
    using settle_round_result [OF that(1)] that(2) by (auto split: option.splits)
  have keep: "?G s1 \<Longrightarrow> ?G (time_Sleep e d s1)" "?G s1 \<Longrightarrow> ?G (snd (ext (os_Mono (os e)) s1))" for s1 d
    using registry_footprint(1) [of "time_Sleep e d s1" s1] registry_footprint(1) [of "snd (ext (os_Mono (os e)) s1)" s1]
    by simp_all
  have "?G s' \<and> ?P r s'"
    by (rule poll_pres2 [where G = ?G and Q = ?P, OF p]) (use assms(2) body keep in simp_all)
  with p show ?thesis by blast
qed

text \<open>The interface that EC2 created for a subnet, and what the program does with it.\<close>

definition created_on :: "'w env \<Rightarrow> Subnet \<Rightarrow> string list \<Rightarrow> NetworkInterface \<Rightarrow> bool" where
  "created_on e subnet secGrps ni =
     (\<exists>req w. fst (ec2_CreateNetworkInterface (ec2 e) req w) = Inr ni \<and> crSubnetId req = snID subnet \<and> crGroups req = secGrps)"

definition settled :: "'w env \<Rightarrow> Subnet \<Rightarrow> string list \<Rightarrow> 'w st \<Rightarrow> Interface \<Rightarrow> bool" where
  "settled e subnet secGrps s' intf =
     (\<exists>ni. created_on e subnet secGrps ni \<and> ifMac intf = niMacAddress ni \<and>
        (\<forall>x \<in> set (List.map_filter (ParseIP (os_txt6 (os e))) (niPrivateIpAddresses ni)).
           registry_view e s' (ip_key e x) = Some zero_time))"

lemma NewInterfaceOnSubnetAtIndex_law:
  assumes "calm e clk" and "registry_ok e s" and "client_ready e (client s)"
  shows "\<exists>r s'. NewInterfaceOnSubnetAtIndex e index secGrps subnet batch s = Some (r, s') \<and>
    registry_ok e s' \<and> client_ready e (client s') \<and> (\<forall>intf. r = Inr intf \<longrightarrow> settled e subnet secGrps s' intf)"
proof -
  obtain s1 where n: "newEC2 e s = Some ((True, None), s1)" "client_ready e (client s1)"
      "fs_files s1 = fs_files s" "fs_dirs s1 = fs_dirs s"
    using assms(3) by (rule newEC2_ready)
  obtain d s2 where g: "getIDDoc e s1 = ((Some d, None), s2)" and r2: "client_ready e (client s2)"
      and f2: "fs_files s2 = fs_files s1" "fs_dirs s2 = fs_dirs s1"
    using n(2) by (rule getIDDoc_ready)
  obtain limits lerr s3 where l: "ENILimits e s2 = Some ((limits, lerr), s3)" "client_ready e (client s3)"
      "same_registry e s2 s3"
    using ENILimits_registry [OF r2] by metis
  have "same_registry e s s2" using n(3,4) f2 by (simp add: same_registry_def)
  with l(3) have ok3: "registry_ok e s3" using assms(2) same_registryD(1) by metis
  let ?req = "create_request d secGrps subnet limits batch"
  obtain rc s4 where c: "ext (ec2_CreateNetworkInterface (ec2 e) ?req) s3 = (rc, s4)" by fastforce
  have keep: "registry_ok e (snd (ext f s)) = registry_ok e s" "client (snd (ext f s)) = client s" for f :: "_ \<Rightarrow> 'b \<times> _" and s
    by (simp_all add: registry_ok_def)
  have ok4: "registry_ok e s4" "client s4 = client s3" using keep [of _ s3] c ok3 by (metis snd_conv)+
  show ?thesis
  proof (cases rc)
    case (Inl x)
    then have "NewInterfaceOnSubnetAtIndex e index secGrps subnet batch s = Some (Inl x, s4)"
      using n(1) g l(1) c by (simp add: NewInterfaceOnSubnetAtIndex_def ec2call_def)
    with ok4 l(2) show ?thesis by simp
  next
    case (Inr ni)
    have made: "created_on e subnet secGrps ni"
      unfolding created_on_def using c Inr
      by (intro exI [of _ ?req] exI [of _ "world s3"]) (auto simp: ext_def create_request_def Let_def)
    obtain ra s5 where a: "ext (ec2_AttachNetworkInterface (ec2 e) index (idInstanceID d) (niNetworkInterfaceId ni)) s4 = (ra, s5)"
      by fastforce
    have ok5: "registry_ok e s5" "client s5 = client s3" using keep [of _ s4] a ok4 by (metis snd_conv)+
    show ?thesis
    proof (cases ra)
      case del: (Inl x)
      obtain rd s6 where dl: "ext (ec2_DeleteNetworkInterface (ec2 e) (niNetworkInterfaceId ni)) s5 = (rd, s6)" by fastforce
      have "NewInterfaceOnSubnetAtIndex e index secGrps subnet batch s =
          Some (Inl (case rd of Some z \<Rightarrow> z | None \<Rightarrow> x), s6)"
        using n(1) g l(1) c Inr a del dl by (simp add: NewInterfaceOnSubnetAtIndex_def ec2call_def)
      moreover have "registry_ok e s6" "client s6 = client s3" using keep [of _ s5] dl ok5 by (metis snd_conv)+
      ultimately show ?thesis using l(2) by simp
    next
      case att: (Inr aid)
      obtain rm s6 where m: "ext (ec2_ModifyNetworkInterfaceAttribute (ec2 e) (niNetworkInterfaceId ni) aid True) s5 = (rm, s6)"
        by fastforce
      obtain start s7 where st: "ext (os_Mono (os e)) s6 = (start, s7)" by fastforce
      have ok7: "registry_ok e s7" "client s7 = client s3"
        using keep [of _ s5] keep [of _ s6] m st ok5 by (metis snd_conv)+
      obtain r s' where p: "poll e interfaceSettleTime interfacePollWaitTime start (settle_round e ni) s7 = Some (r, s')"
          "registry_ok e s'" "client s' = client s7"
          "\<forall>intf. r = Some intf \<longrightarrow> ifMac intf = niMacAddress ni \<and>
             (\<forall>x \<in> set (List.map_filter (ParseIP (os_txt6 (os e))) (niPrivateIpAddresses ni)).
                registry_view e s' (ip_key e x) = Some zero_time)"
        using settle_poll [OF assms(1) ok7(1), of start ni] by blast
      have "NewInterfaceOnSubnetAtIndex e index secGrps subnet batch s =
          Some (case r of Some intf \<Rightarrow> Inr intf | None \<Rightarrow> Inl (Errorf ''interface did not attach in time''), s')"
        using n(1) g l(1) c Inr a att m st p(1) by (simp add: NewInterfaceOnSubnetAtIndex_def ec2call_def)
      moreover have "\<forall>intf. r = Some intf \<longrightarrow> settled e subnet secGrps s' intf"
        using p(4) made unfolding settled_def by blast
      ultimately show ?thesis using p(2,3) ok7(2) l(2) by (cases r) simp_all
    qed
  qed
qed

lemma GetSubnets_registry:
  assumes "GetSubnetsForInstance e s = Some (r, s')"
  shows "same_registry e s s'"
  using GetSubnetsForInstance_files(1) [OF assms cache_file_neq(2)] GetSubnetsForInstance_files(2) [OF assms]
  by (simp add: same_registry_def)

lemma NewInterface_law:
  assumes "calm e clk" and "registry_ok e s" and "client_ready e (client s)"
    and "\<And>s. fst (GetInterfaces e s) \<noteq> Inr []" and "go_sort Subnets_Less (os_sort_subnets (os e))"
  shows "\<exists>r s'. NewInterface e secGrps tags batch s = Some (r, s') \<and> registry_ok e s' \<and> client_ready e (client s') \<and>
    (\<forall>intf. r = Inr intf \<longrightarrow>
       (\<exists>subnets s1 ifs s2 limits lerr s3 n.
          GetSubnetsForInstance e s = Some (Inr subnets, s1) \<and> GetInterfaces e s1 = (Inr ifs, s2) \<and>
          ENILimits e s2 = Some ((limits, lerr), s3) \<and> int (length ifs) < limAdapters limits \<and>
          n \<in> set subnets \<and> has_tags tags n \<and>
          (\<forall>m \<in> set subnets. has_tags tags m \<longrightarrow> snAvailableAddressCount m \<le> snAvailableAddressCount n) \<and>
          settled e n secGrps s' intf))"
proof -
  obtain r1 s1 where sn: "GetSubnetsForInstance e s = Some (r1, s1)"
    using GetSubnetsForInstance_returns [OF assms(3,4)] by blast
  have k1: "client_ready e (client s1)" "registry_ok e s1"
    using GetSubnetsForInstance_client [OF sn assms(3)] same_registryD(1) [OF GetSubnets_registry [OF sn] assms(2)] by simp_all
  obtain r2 s2 where g: "GetInterfaces e s1 = (r2, s2)" by fastforce
  have k2: "client_ready e (client s2)" "registry_ok e s2"
    using GetInterfaces_frame [of e s1] g k1 registry_footprint(1) [of s2 s1 e] by simp_all
  obtain limits lerr s3 where l: "ENILimits e s2 = Some ((limits, lerr), s3)" "client_ready e (client s3)"
      "same_registry e s2 s3"
    using ENILimits_registry [OF k2(1)] by metis
  have ok3: "registry_ok e s3" using same_registryD(1) [OF l(3) k2(2)] .
  show ?thesis
  proof (cases "\<exists>subnets ifs n ns. r1 = Inr subnets \<and> r2 = Inr ifs \<and> int (length ifs) < limAdapters limits \<and>
        os_sort_subnets (os e) (filter (has_tags tags) subnets) = n # ns")
    case True
    then obtain subnets ifs n ns where c: "r1 = Inr subnets" "r2 = Inr ifs" "int (length ifs) < limAdapters limits"
        "os_sort_subnets (os e) (filter (has_tags tags) subnets) = n # ns" by blast
    have n: "n \<in> set subnets" "has_tags tags n"
      using go_sort.sort_set [OF assms(5), of "filter (has_tags tags) subnets"] c(4) by (auto dest: equalityD1)
    have best: "snAvailableAddressCount m \<le> snAvailableAddressCount n" if "m \<in> set subnets" "has_tags tags m" for m
      using go_sort.sort_first_min [OF assms(5) c(4), of m] that by (auto simp: Subnets_Less_def)
    obtain r s' where new: "NewInterfaceOnSubnetAtIndex e (int (length ifs)) secGrps n batch s3 = Some (r, s')"
        "registry_ok e s'" "client_ready e (client s')" "\<forall>intf. r = Inr intf \<longrightarrow> settled e n secGrps s' intf"
      using NewInterfaceOnSubnetAtIndex_law [OF assms(1) ok3 l(2)] by blast
    have run: "NewInterface e secGrps tags batch s = Some (r, s')"
      using sn g l(1) c new(1) by (simp add: NewInterface_def)
    have "\<exists>subnets s1 ifs s2 limits lerr s3 n.
          GetSubnetsForInstance e s = Some (Inr subnets, s1) \<and> GetInterfaces e s1 = (Inr ifs, s2) \<and>
          ENILimits e s2 = Some ((limits, lerr), s3) \<and> int (length ifs) < limAdapters limits \<and>
          n \<in> set subnets \<and> has_tags tags n \<and>
          (\<forall>m \<in> set subnets. has_tags tags m \<longrightarrow> snAvailableAddressCount m \<le> snAvailableAddressCount n) \<and>
          settled e n secGrps s' intf" if "r = Inr intf" for intf
      using sn g l(1) c(1,2,3) n best new(4) that by metis
    with run new(2,3) show ?thesis by blast
  next
    case False
    have "\<exists>x s'. NewInterface e secGrps tags batch s = Some (Inl x, s') \<and> registry_ok e s' \<and> client_ready e (client s')"
    proof (cases r1)
      case (Inl x)
      with sn k1 show ?thesis by (simp add: NewInterface_def)
    next
      case subs: (Inr subnets)
      show ?thesis
      proof (cases r2)
        case (Inl x)
        with sn subs g k2 show ?thesis by (simp add: NewInterface_def)
      next
        case (Inr ifs)
        then have "limAdapters limits \<le> int (length ifs) \<or> os_sort_subnets (os e) (filter (has_tags tags) subnets) = []"
          using False subs by (cases "os_sort_subnets (os e) (filter (has_tags tags) subnets)") auto
        with sn subs g Inr l(1,2) ok3 show ?thesis by (auto simp: NewInterface_def)
      qed
    qed
    then show ?thesis by auto
  qed
qed

text \<open>C15: a new interface goes to the right subnet. With a ready client, a working registry, a running
  clock and an instance that has at least its boot interface, \<^verbatim>\<open>NewInterface\<close> returns and the registry
  still works. When it answers an interface, the instance was below its adapter limit, and the interface
  is the one EC2 created, with the given security groups, on a subnet that has all the required tags and
  at least as many free addresses as every other subnet that has them; every address EC2 gave the new
  interface is tracked as free since the zero time.\<close>

theorem NewInterface_best_subnet:
  assumes "calm e clk" and "registry_ok e s" and "client_ready e (client s)"
    and "\<And>s. fst (GetInterfaces e s) \<noteq> Inr []" and "go_sort Subnets_Less (os_sort_subnets (os e))"
  shows "\<exists>r s'. NewInterface e secGrps tags batch s = Some (r, s') \<and> registry_ok e s' \<and> client_ready e (client s') \<and>
    (\<forall>intf. r = Inr intf \<longrightarrow>
       (\<exists>subnets s1 ifs s2 limits lerr s3 n.
          GetSubnetsForInstance e s = Some (Inr subnets, s1) \<and> GetInterfaces e s1 = (Inr ifs, s2) \<and>
          ENILimits e s2 = Some ((limits, lerr), s3) \<and> int (length ifs) < limAdapters limits \<and>
          n \<in> set subnets \<and> has_tags tags n \<and>
          (\<forall>m \<in> set subnets. has_tags tags m \<longrightarrow> snAvailableAddressCount m \<le> snAvailableAddressCount n) \<and>
          settled e n secGrps s' intf))"
  using NewInterface_law [OF assms] .

lemma demo_calm: "calm demo (\<lambda>w. d_sec w * ns_per_s)"
  using demo_mono_clock by (simp add: calm_def ticks_def) (simp add: demo_def demo_md_def demo_nl_def demo_os_def stderr_ok_def)

theorem NewInterface_best_subnet_witness:
  "\<exists>r s'. NewInterface demo [''sg-1''] [(''k8s'', ''true'')] 1 (demo_ready []) = Some (r, s') \<and> registry_ok demo s'"
proof -
  have "wf_entries []" by (simp add: wf_entries_def)
  from NewInterface_best_subnet [OF demo_calm demo_ready_ok(1) [OF this] demo_ready_ok(2) demo_interfaces demo_sort_subnets,
      of "[''sg-1'']" "[(''k8s'', ''true'')]" 1]
  show ?thesis by blast
qed

text \<open>A new interface asks for no more addresses than fit. For a limit of at least one address and a
  batch size that is not negative, the primary address and the requested secondary addresses together are
  between one and the limit, exactly the batch size when that is between one and the limit, and exactly
  the limit when the batch size is 0 or above the limit.\<close>

lemma create_request_bounds:
  assumes "1 \<le> limIPv4 limits" and "limIPv4 limits < 2 ^ 63" and "0 \<le> batch"
  shows "let n = 1 + (case crSecondaryPrivateIpAddressCount (create_request d grps subnet limits batch) of
                        None \<Rightarrow> 0 | Some k \<Rightarrow> k)
    in 1 \<le> n \<and> n \<le> limIPv4 limits \<and> n = (if batch = 0 then limIPv4 limits else min batch (limIPv4 limits))"
proof -
  have "wrap64 ((if batch = 0 \<or> limIPv4 limits < batch then limIPv4 limits else batch) - 1) =
      (if batch = 0 \<or> limIPv4 limits < batch then limIPv4 limits else batch) - 1"
    using assms by (intro wrap64_id) auto
  then show ?thesis using assms by (auto simp: create_request_def Let_def)
qed

end
