(* ===== verification/Vpc.thy ===== *)
theory Vpc
  imports Subnets
begin

text \<open>
  \<^verbatim>\<open>aws/vpc.go\<close>: the address blocks of a VPC and of the VPCs peered with it, from EC2 or from the
  cache. A cached list is a JSON array of \<^verbatim>\<open>net.IPNet\<close> objects: the address as text, the mask as the
  base64 text of its bytes. An element is a pointer, \<open>None\<close> for \<^verbatim>\<open>null\<close>. Objects that are not an
  address with a prefix mask, which the program never writes, count as undecodable.
\<close>

type_synonym cidr = "ipnet option"

section \<open>net.IPNet as JSON\<close>

definition b64_char :: "nat \<Rightarrow> char" where
  "b64_char n =
     (if n < 26 then char_of (65 + n) else if n < 52 then char_of (71 + n)
      else if n < 62 then char_of (n - 4) else if n = 62 then CHR ''+'' else CHR ''/'')"

text \<open>Standard base64 with padding, of a list of bytes given as numbers.\<close>

fun base64 :: "nat list \<Rightarrow> string" where
  "base64 [] = []"
| "base64 [a] = [b64_char (a div 4), b64_char (a mod 4 * 16), CHR ''='', CHR ''='']"
| "base64 [a, b] = [b64_char (a div 4), b64_char (a mod 4 * 16 + b div 16), b64_char (b mod 16 * 4), CHR ''='']"
| "base64 (a # b # c # bs) =
     [b64_char (a div 4), b64_char (a mod 4 * 16 + b div 16), b64_char (b mod 16 * 4 + c div 64), b64_char (c mod 64)]
     @ base64 bs"

text \<open>The bytes of \<^verbatim>\<open>net.CIDRMask(ones, 8 * k)\<close>.\<close>

fun mask_bytes :: "nat \<Rightarrow> nat \<Rightarrow> nat list" where
  "mask_bytes ones 0 = []"
| "mask_bytes ones (Suc k) = (if 8 \<le> ones then 255 else 256 - 2 ^ (8 - ones)) # mask_bytes (ones - 8) k"

definition mask_text :: "ip \<Rightarrow> nat \<Rightarrow> string" where
  "mask_text x ones = base64 (mask_bytes ones (ip_bits x div 8))"

definition encode_IPNet :: "txt6 \<Rightarrow> cidr \<Rightarrow> json" where
  "encode_IPNet t c =
     (case c of
        None \<Rightarrow> JNull
      | Some n \<Rightarrow> JObj [(''IP'', JStr (ip_String t (net_ip n))), (''Mask'', JStr (mask_text (net_ip n) (net_prefix n)))])"

text \<open>The fields of the struct: the address, and the text of the mask.\<close>

definition IPNet_field :: "txt6 \<Rightarrow> string \<Rightarrow> json \<Rightarrow> ip option \<times> string \<Rightarrow> (ip option \<times> string) option" where
  "IPNet_field t k v c =
     (if eq_fold k ''IP'' then
        (case decode_string v [] of
           None \<Rightarrow> None
         | Some text \<Rightarrow> map_option (\<lambda>x. (Some x, snd c)) (ParseIP t text))
      else if eq_fold k ''Mask'' then map_option (Pair (fst c)) (decode_string v (snd c))
      else Some c)"

definition decode_IPNet :: "txt6 \<Rightarrow> json \<Rightarrow> cidr option" where
  "decode_IPNet t js =
     (if js = JNull then Some None
      else (case decode_struct (IPNet_field t) js (None, []) of
              Some (Some x, m) \<Rightarrow>
                (case find (\<lambda>ones. mask_text x ones = m) [0..<Suc (ip_bits x)] of
                   None \<Rightarrow> None
                 | Some ones \<Rightarrow> Some (Some \<lparr>net_ip = x, net_prefix = ones\<rparr>))
            | _ \<Rightarrow> None))"

definition encode_cidrs :: "txt6 \<Rightarrow> cidr list \<Rightarrow> json" where
  "encode_cidrs t cs = (if cs = [] then JNull else JArr (map (encode_IPNet t) cs))"

definition decode_cidrs :: "txt6 \<Rightarrow> json \<Rightarrow> cidr list \<Rightarrow> cidr list option" where
  "decode_cidrs t js cs =
     (case js of JNull \<Rightarrow> Some cs | JArr xs \<Rightarrow> decode_list (decode_IPNet t) xs | _ \<Rightarrow> None)"

section \<open>The blocks of a VPC\<close>

fun parse_associated :: "txt6 \<Rightarrow> (string \<times> string) list \<Rightarrow> cidr list res" where
  "parse_associated t [] = Inr []"
| "parse_associated t ((state, block) # cblocks) =
     (if state \<noteq> ''associated'' then parse_associated t cblocks
      else (case ParseCIDR t block of
              Inl err \<Rightarrow> Inl err
            | Inr (_, parsed) \<Rightarrow>
                (case parse_associated t cblocks of Inl err \<Rightarrow> Inl err | Inr cidrs \<Rightarrow> Inr (Some parsed # cidrs))))"

definition DescribeVPCCIDRs_aws :: "'w env \<Rightarrow> string \<Rightarrow> 'w st \<Rightarrow> (cidr list res \<times> 'w st) option" where
  "DescribeVPCCIDRs_aws e vpcID s =
     do { ((present, err), s) \<leftarrow> newEC2 e s;
          case err of
            Some x \<Rightarrow> Some (Inl x, s)
          | None \<Rightarrow>
              do { (r, s) \<leftarrow> ec2call present (ec2_DescribeVpcs (ec2 e) [vpcID]) s;
                   Some (case r of
                           Inl x \<Rightarrow> Inl x
                         | Inr vpcs \<Rightarrow> parse_associated (os_txt6 (os e)) (concat (map vpCidrBlockAssociationSet vpcs)), s) } }"

text \<open>The peers' blocks, as the keys of a map so that each text occurs once.\<close>

definition peer_blocks :: "string \<Rightarrow> VpcPeeringConnection \<Rightarrow> string list" where
  "peer_blocks vpcID p =
     (if vpcID = prAccepterVpcId p then prRequesterCidrs p
      else if vpcID = prRequesterVpcId p then prAccepterCidrs p
      else [])"

definition collect_peers :: "txt6 \<Rightarrow> string \<Rightarrow> VpcPeeringConnection list \<Rightarrow> (string \<times> bool) list" where
  "collect_peers t vpcID ps =
     fold (\<lambda>block m. case ParseCIDR t block of Inl _ \<Rightarrow> m | Inr _ \<Rightarrow> map_put block True m)
       (concat (map (peer_blocks vpcID) ps)) []"

fun parse_all :: "txt6 \<Rightarrow> string list \<Rightarrow> cidr list" where
  "parse_all t [] = []"
| "parse_all t (b # bs) = (case ParseCIDR t b of Inl _ \<Rightarrow> parse_all t bs | Inr (_, n) \<Rightarrow> Some n # parse_all t bs)"

definition DescribeVPCPeerCIDRs_aws :: "'w env \<Rightarrow> string \<Rightarrow> 'w st \<Rightarrow> (cidr list res \<times> 'w st) option" where
  "DescribeVPCPeerCIDRs_aws e vpcID s =
     do { ((present, err), s) \<leftarrow> newEC2 e s;
          case err of
            Some x \<Rightarrow> Some (Inl x, s)
          | None \<Rightarrow>
              do { (r, s) \<leftarrow> ec2call present (ec2_DescribeVpcPeeringConnections (ec2 e)) s;
                   Some (case r of
                           Inl x \<Rightarrow> Inl x
                         | Inr ps \<Rightarrow>
                             Inr (parse_all (os_txt6 (os e))
                                    (os_range (os e) (map fst (collect_peers (os_txt6 (os e)) vpcID ps)))), s) } }"

definition vpc_expiration :: int where
  "vpc_expiration = 3600 * ns_per_s"

definition vpc_cidr_key :: "string \<Rightarrow> string" where
  "vpc_cidr_key vpcID = ''vpc-cidr-'' @ vpcID"

definition vpc_peers_key :: "string \<Rightarrow> string" where
  "vpc_peers_key vpcID = ''vpc-peers-'' @ vpcID"

definition DescribeVPCCIDRs :: "'w env \<Rightarrow> string \<Rightarrow> 'w st \<Rightarrow> (cidr list res \<times> 'w st) option" where
  "DescribeVPCCIDRs e vpcID s =
     cached e (vpc_cidr_key vpcID) vpc_expiration (encode_cidrs (os_txt6 (os e))) (decode_cidrs (os_txt6 (os e))) []
       (DescribeVPCCIDRs_aws e vpcID) s"

definition DescribeVPCPeerCIDRs :: "'w env \<Rightarrow> string \<Rightarrow> 'w st \<Rightarrow> (cidr list res \<times> 'w st) option" where
  "DescribeVPCPeerCIDRs e vpcID s =
     cached e (vpc_peers_key vpcID) vpc_expiration (encode_cidrs (os_txt6 (os e))) (decode_cidrs (os_txt6 (os e))) []
       (DescribeVPCPeerCIDRs_aws e vpcID) s"

section \<open>Blocks as a cached type\<close>

definition cidr_valid :: "cidr \<Rightarrow> bool" where
  "cidr_valid c = (case c of Some n \<Rightarrow> (case net_ip n of V4 _ _ _ _ \<Rightarrow> net_prefix n \<le> 32 | V6 _ \<Rightarrow> False) | None \<Rightarrow> False)"

lemma b64_char_inj: "m < 64 \<Longrightarrow> n < 64 \<Longrightarrow> b64_char m = b64_char n \<longleftrightarrow> m = n"
proof
  assume b: "m < 64" "n < 64" and "b64_char m = b64_char n"
  have o: "of_char (b64_char k) =
      (if k < 26 then 65 + k else if k < 52 then 71 + k else if k < 62 then k - 4 else if k = 62 then 43 else 47)"
    if "k < 64" for k :: nat
    using that by (simp add: b64_char_def)
  have "of_char (b64_char m) = (of_char (b64_char n) :: nat)" using \<open>b64_char m = b64_char n\<close> by simp
  with b show "m = n" by (simp add: o split: if_splits)
qed simp

lemma digits_inj:
  fixes x y k :: nat
  assumes "y < k" "y' < k" and "x * k + y = x' * k + y'"
  shows "x = x' \<and> y = y'"
proof -
  have "(x * k + y) div k = x" "(x' * k + y') div k = x'" using assms(1,2) by simp_all
  with assms(3) show ?thesis by auto
qed

lemma base64_inj4:
  assumes "a < 256" "b < 256" "c < 256" "d < 256" "a' < 256" "b' < 256" "c' < 256" "d' < 256"
    and "base64 [a, b, c, d] = base64 [a', b', c', d']"
  shows "[a, b, c, d] = [a', b', c', d']"
proof -
  have lt: "x div 4 < 64" "x mod 4 * 16 + y div 16 < 64" "y mod 16 * 4 + z div 64 < 64" "z mod 64 < 64" "x mod 4 * 16 < 64"
    if "x < 256" "y < 256" "z < 256" for x y z :: nat
    using that by (simp_all add: less_mult_imp_div_less)
  have c: "b64_char (a div 4) = b64_char (a' div 4)"
    "b64_char (a mod 4 * 16 + b div 16) = b64_char (a' mod 4 * 16 + b' div 16)"
    "b64_char (b mod 16 * 4 + c div 64) = b64_char (b' mod 16 * 4 + c' div 64)" "b64_char (c mod 64) = b64_char (c' mod 64)"
    "b64_char (d div 4) = b64_char (d' div 4)" "b64_char (d mod 4 * 16) = b64_char (d' mod 4 * 16)"
    using assms(9) unfolding base64.simps list.inject append_Cons append_Nil by blast+
  note e = c(1) [unfolded b64_char_inj [OF lt(1) [OF assms(1) assms(1) assms(1)] lt(1) [OF assms(5) assms(5) assms(5)]]]
    c(2) [unfolded b64_char_inj [OF lt(2) [OF assms(1) assms(2) assms(2)] lt(2) [OF assms(5) assms(6) assms(6)]]]
    c(3) [unfolded b64_char_inj [OF lt(3) [OF assms(2) assms(2) assms(3)] lt(3) [OF assms(6) assms(6) assms(7)]]]
    c(4) [unfolded b64_char_inj [OF lt(4) [OF assms(3) assms(3) assms(3)] lt(4) [OF assms(7) assms(7) assms(7)]]]
    c(5) [unfolded b64_char_inj [OF lt(1) [OF assms(4) assms(4) assms(4)] lt(1) [OF assms(8) assms(8) assms(8)]]]
    c(6) [unfolded b64_char_inj [OF lt(5) [OF assms(4) assms(4) assms(4)] lt(5) [OF assms(8) assms(8) assms(8)]]]
  have "a mod 4 = a' mod 4 \<and> b div 16 = b' div 16"
    by (rule digits_inj [OF _ _ e(2)]) (use assms in \<open>simp_all add: less_mult_imp_div_less\<close>)
  moreover have "b mod 16 = b' mod 16 \<and> c div 64 = c' div 64"
    by (rule digits_inj [OF _ _ e(3)]) (use assms in \<open>simp_all add: less_mult_imp_div_less\<close>)
  moreover have "d mod 4 = d' mod 4" using e(6) by simp
  ultimately show ?thesis using e(1,4,5) by simp (metis div_mult_mod_eq)
qed

text \<open>Masks of different lengths have different texts.\<close>

lemma mask_bytes_4: "\<exists>a b c d. mask_bytes p 4 = [a, b, c, d] \<and> a < 256 \<and> b < 256 \<and> c < 256 \<and> d < 256"
  by (simp add: numeral_eq_Suc)

lemma mask_bytes_distinct: "distinct (map (\<lambda>ones. mask_bytes ones 4) [0..<33])"
  by code_simp

lemma mask_texts_inj: "inj_on (\<lambda>ones. base64 (mask_bytes ones 4)) {0..<33}"
proof (rule inj_onI)
  fix p q assume *: "p \<in> {0..<33}" "q \<in> {0..<33}" "base64 (mask_bytes p 4) = base64 (mask_bytes q 4)"
  then have "mask_bytes p 4 = mask_bytes q 4"
    using mask_bytes_4 [of p] mask_bytes_4 [of q] base64_inj4 by (elim exE conjE) metis
  with * mask_bytes_distinct show "p = q" by (auto simp: distinct_map dest: inj_onD)
qed

lemma eq_fold_ipnet [simp]:
  "eq_fold ''IP'' ''IP''" "\<not> eq_fold ''Mask'' ''IP''" "eq_fold ''Mask'' ''Mask''"
  by code_simp+

lemma find_mask:
  assumes "p \<le> 32"
  shows "find (\<lambda>ones. mask_text (V4 a b c d) ones = mask_text (V4 a b c d) p) [0..<33] = Some p"
proof -
  have "(\<lambda>ones. mask_text (V4 a b c d) ones) = (\<lambda>ones. base64 (mask_bytes ones 4))"
    by (simp add: mask_text_def ip_bits_def fun_eq_iff)
  then have "mask_text (V4 a b c d) q = mask_text (V4 a b c d) p \<longleftrightarrow> q = p" if "q < 33" for q
    using inj_onD [OF mask_texts_inj, of q p] that assms by auto
  then show ?thesis using assms by (auto simp: find_Some_iff intro!: exI [of _ p])
qed

lemma decode_encode_IPNet:
  assumes "cidr_valid c"
  shows "decode_IPNet t (encode_IPNet t c) = Some c"
proof -
  obtain n where c: "c = Some n" using assms by (cases c) (simp_all add: cidr_valid_def)
  obtain a b u v where x: "net_ip n = V4 a b u v"
    using assms c by (cases "net_ip n") (simp_all add: cidr_valid_def)
  have p: "net_prefix n \<le> 32" using assms c x by (simp add: cidr_valid_def)
  have "decode_struct (IPNet_field t) (encode_IPNet t c) (None, []) =
      Some (Some (V4 a b u v), mask_text (V4 a b u v) (net_prefix n))"
    by (simp add: c x encode_IPNet_def decode_struct_def IPNet_field_def)
  moreover have "encode_IPNet t c \<noteq> JNull" by (simp add: c encode_IPNet_def)
  ultimately show ?thesis
    using find_mask [OF p, of a b u v] x c by (simp add: decode_IPNet_def ip_bits_def del: upt_Suc)
qed

interpretation cid: json_codec "encode_cidrs t" "decode_cidrs t" "[]" "list_all cidr_valid" for t
proof
  fix cs assume "list_all cidr_valid cs"
  then have "decode_list (decode_IPNet t) (map (encode_IPNet t) cs) = Some cs"
    by (intro decode_list_map decode_encode_IPNet) (simp add: list_all_iff)
  then show "decode_cidrs t (encode_cidrs t cs) [] = Some cs"
    by (simp add: encode_cidrs_def decode_cidrs_def)
qed

section \<open>Frame and totality\<close>

text \<open>A query that asks EC2 once, with a client that is made if need be.\<close>

lemma ec2_query_files:
  assumes "do { ((present, err), s) \<leftarrow> newEC2 e s;
                case err of
                  Some x \<Rightarrow> Some (Inl x, s)
                | None \<Rightarrow> do { (r, s) \<leftarrow> ec2call present f s; Some (g r, s) } } = Some (r, s')"
  shows "fs_files s' = fs_files s \<and> fs_dirs s' = fs_dirs s"
proof -
  obtain present err s1 where n: "newEC2 e s = Some ((present, err), s1)"
    using assms by (auto simp: bind_eq_Some_conv)
  then have "fs_files s' = fs_files s1 \<and> fs_dirs s' = fs_dirs s1"
    using assms by (cases err; cases present) (simp_all add: ec2call_def case_prod_unfold, auto)
  with newEC2_files [OF n] show ?thesis by simp
qed

lemma ec2_query_ready:
  assumes "client_ready e (client s)"
  obtains s1 s' where "newEC2 e s = Some ((True, None), s1)"
    and "do { ((present, err), s) \<leftarrow> newEC2 e s;
                case err of
                  Some x \<Rightarrow> Some (Inl x, s)
                | None \<Rightarrow> do { (r, s) \<leftarrow> ec2call present f s; Some (g r, s) } } = Some (g (fst (f (world s1))), s')"
    and "client_ready e (client s')"
proof -
  obtain s1 where s1: "newEC2 e s = Some ((True, None), s1)" "client_ready e (client s1)"
    using assms by (rule newEC2_ready)
  then show ?thesis by (intro that [of s1 "snd (ext f s1)"]) (simp_all add: ec2call_def ext_def)
qed

lemma VPC_aws_files [frame]:
  "DescribeVPCCIDRs_aws e v s = Some (r, s') \<Longrightarrow> fs_files s' = fs_files s \<and> fs_dirs s' = fs_dirs s"
  "DescribeVPCPeerCIDRs_aws e v s = Some (r, s') \<Longrightarrow> fs_files s' = fs_files s \<and> fs_dirs s' = fs_dirs s"
  unfolding DescribeVPCCIDRs_aws_def DescribeVPCPeerCIDRs_aws_def by (erule ec2_query_files)+

lemma DescribeVPCCIDRs_aws_ready:
  assumes "client_ready e (client s)"
  obtains s1 s' where "newEC2 e s = Some ((True, None), s1)" and "DescribeVPCCIDRs_aws e v s = Some
      (case fst (ec2_DescribeVpcs (ec2 e) [v] (world s1)) of
         Inl x \<Rightarrow> Inl x
       | Inr vpcs \<Rightarrow> parse_associated (os_txt6 (os e)) (concat (map vpCidrBlockAssociationSet vpcs)), s')"
    and "client_ready e (client s')"
  using that
  by (rule ec2_query_ready [OF assms, of "ec2_DescribeVpcs (ec2 e) [v]"
        "\<lambda>r. case r of Inl x \<Rightarrow> Inl x
            | Inr vpcs \<Rightarrow> parse_associated (os_txt6 (os e)) (concat (map vpCidrBlockAssociationSet vpcs))"])
     (simp_all only: DescribeVPCCIDRs_aws_def)

lemma DescribeVPCPeerCIDRs_aws_ready:
  assumes "client_ready e (client s)"
  obtains s1 s' where "newEC2 e s = Some ((True, None), s1)" and "DescribeVPCPeerCIDRs_aws e v s = Some
      (case fst (ec2_DescribeVpcPeeringConnections (ec2 e) (world s1)) of
         Inl x \<Rightarrow> Inl x
       | Inr ps \<Rightarrow> Inr (parse_all (os_txt6 (os e))
                         (os_range (os e) (map fst (collect_peers (os_txt6 (os e)) v ps)))), s')"
    and "client_ready e (client s')"
  using that
  by (rule ec2_query_ready [OF assms, of "ec2_DescribeVpcPeeringConnections (ec2 e)"
        "\<lambda>r. case r of Inl x \<Rightarrow> Inl x
            | Inr ps \<Rightarrow> Inr (parse_all (os_txt6 (os e))
                (os_range (os e) (map fst (collect_peers (os_txt6 (os e)) v ps))))"])
     (simp_all only: DescribeVPCPeerCIDRs_aws_def)

lemma VPC_client:
  "DescribeVPCCIDRs e v s = Some (r, s') \<Longrightarrow> client_ready e (client s) \<Longrightarrow> client_ready e (client s')"
  "DescribeVPCPeerCIDRs e v s = Some (r, s') \<Longrightarrow> client_ready e (client s) \<Longrightarrow> client_ready e (client s')"
proof -
  show "client_ready e (client s')"
    if "DescribeVPCCIDRs e v s = Some (r, s')" "client_ready e (client s)"
    by (rule cached_client [where P = "client_ready e", OF that(1) [unfolded DescribeVPCCIDRs_def] that(2)])
       (metis DescribeVPCCIDRs_aws_ready option.inject prod.inject)
  show "client_ready e (client s')"
    if "DescribeVPCPeerCIDRs e v s = Some (r, s')" "client_ready e (client s)"
    by (rule cached_client [where P = "client_ready e", OF that(1) [unfolded DescribeVPCPeerCIDRs_def] that(2)])
       (metis DescribeVPCPeerCIDRs_aws_ready option.inject prod.inject)
qed

lemma VPC_returns:
  assumes "client_ready e (client s)"
  shows "\<exists>r s'. DescribeVPCCIDRs e v s = Some (r, s')" and "\<exists>r s'. DescribeVPCPeerCIDRs e v s = Some (r, s')"
proof -
  have c: "client_ready e (client (snd (cache_Get e key dec zero s)))" for key and dec :: "json \<Rightarrow> cidr list \<Rightarrow> _" and zero
    using assms by simp
  show "\<exists>r s'. DescribeVPCCIDRs e v s = Some (r, s')"
    unfolding DescribeVPCCIDRs_def by (rule cached_returns) (metis DescribeVPCCIDRs_aws_ready [OF c])
  show "\<exists>r s'. DescribeVPCPeerCIDRs e v s = Some (r, s')"
    unfolding DescribeVPCPeerCIDRs_def by (rule cached_returns) (metis DescribeVPCPeerCIDRs_aws_ready [OF c])
qed

text \<open>Only the query's own cache file changes.\<close>

lemma VPC_files [frame]:
  "DescribeVPCCIDRs e v s = Some (r, s') \<Longrightarrow> p \<noteq> path_Join (cachePath e) (vpc_cidr_key v) \<Longrightarrow> fs_files s' p = fs_files s p"
  "DescribeVPCPeerCIDRs e v s = Some (r, s') \<Longrightarrow> p \<noteq> path_Join (cachePath e) (vpc_peers_key v) \<Longrightarrow> fs_files s' p = fs_files s p"
  unfolding DescribeVPCCIDRs_def DescribeVPCPeerCIDRs_def
  by (erule cached_files; simp add: VPC_aws_files)+

lemma VPC_dirs [frame]:
  "DescribeVPCCIDRs e v s = Some (r, s') \<Longrightarrow> set (fs_dirs s) \<subseteq> set (fs_dirs s')"
  "DescribeVPCPeerCIDRs e v s = Some (r, s') \<Longrightarrow> set (fs_dirs s) \<subseteq> set (fs_dirs s')"
  unfolding DescribeVPCCIDRs_def DescribeVPCPeerCIDRs_def
  by (erule cached_dirs; simp add: VPC_aws_files)+

section \<open>Which blocks are answered\<close>

definition parses :: "txt6 \<Rightarrow> string \<Rightarrow> bool" where
  "parses t b = (case ParseCIDR t b of Inl _ \<Rightarrow> False | Inr _ \<Rightarrow> True)"

definition block_net :: "txt6 \<Rightarrow> string \<Rightarrow> cidr" where
  "block_net t b = (case ParseCIDR t b of Inl _ \<Rightarrow> None | Inr (_, n) \<Rightarrow> Some n)"

lemma collect_keys:
  fixes m :: "(string \<times> bool) list" and t :: txt6
  defines "f \<equiv> \<lambda>block m. case ParseCIDR t block of Inl _ \<Rightarrow> m | Inr _ \<Rightarrow> map_put block True m"
  assumes "distinct (map fst m)"
  shows "distinct (map fst (fold f bs m)) \<and> set (map fst (fold f bs m)) = set (map fst m) \<union> set (filter (parses t) bs)"
  using assms(2)
proof (induction bs arbitrary: m)
  case (Cons b bs)
  show ?case
  proof (cases "ParseCIDR t b")
    case (Inl x)
    with Cons show ?thesis by (simp add: f_def parses_def)
  next
    case (Inr y)
    with Cons.IH [OF distinct_put [OF Cons.prems]] keys_put [of b True m] show ?thesis
      by (simp add: f_def parses_def)
  qed
qed simp

lemma parse_all_map: "parse_all t bs = map (block_net t) (filter (parses t) bs)"
  by (induction bs) (auto simp: block_net_def parses_def split: sum.splits)

text \<open>C36: the blocks of the peered VPCs. On a ready client, and when EC2 lists the peerings, the
  uncached query returns one network for each distinct text that parses as a block of the other side
  of some peering of the VPC, and no others: blocks of peerings between other VPCs, blocks of the own
  side and unparsable blocks are left out, and a block that several peerings list is returned once.\<close>

theorem peer_cidrs_exact:
  assumes "client_ready e (client s)" and "range_ok e"
    and "newEC2 e s = Some (r, s1)" and "fst (ec2_DescribeVpcPeeringConnections (ec2 e) (world s1)) = Inr ps"
  shows "\<exists>blocks s'. DescribeVPCPeerCIDRs_aws e v s = Some (Inr (map (block_net (os_txt6 (os e))) blocks), s') \<and>
    distinct blocks \<and>
    set blocks = {b. parses (os_txt6 (os e)) b \<and>
      (\<exists>p \<in> set ps. (v = prAccepterVpcId p \<and> b \<in> set (prRequesterCidrs p)) \<or>
         (v \<noteq> prAccepterVpcId p \<and> v = prRequesterVpcId p \<and> b \<in> set (prAccepterCidrs p)))}"
proof -
  let ?t = "os_txt6 (os e)"
  let ?ks = "map fst (collect_peers ?t v ps)"
  let ?bs = "os_range (os e) ?ks"
  have keys: "distinct ?ks" "set ?ks = set (filter (parses ?t) (concat (map (peer_blocks v) ps)))"
    using collect_keys [of "[]" ?t "concat (map (peer_blocks v) ps)"] by (simp_all add: collect_peers_def)
  have m: "mset ?bs = mset ?ks" using assms(2) by (simp add: range_ok_def)
  then have b: "distinct ?bs" "set ?bs = set ?ks" using keys(1) by (metis mset_eq_imp_distinct_iff, metis set_mset_mset)
  have all: "filter (parses ?t) ?bs = ?bs" using b(2) keys(2) by (auto simp: filter_id_conv)
  obtain s' where "DescribeVPCPeerCIDRs_aws e v s = Some (Inr (map (block_net ?t) ?bs), s')"
    by (rule DescribeVPCPeerCIDRs_aws_ready [OF assms(1), of v]) (use assms(3,4) all in \<open>simp add: parse_all_map\<close>)
  moreover have "set ?bs = {b. parses ?t b \<and>
      (\<exists>p \<in> set ps. (v = prAccepterVpcId p \<and> b \<in> set (prRequesterCidrs p)) \<or>
         (v \<noteq> prAccepterVpcId p \<and> v = prRequesterVpcId p \<and> b \<in> set (prAccepterCidrs p)))}"
    unfolding b(2) keys(2) by (auto simp: peer_blocks_def split: if_splits)
  ultimately show ?thesis using b(1) by blast
qed

definition demo_peered :: "dw env" where
  "demo_peered = demo\<lparr>ec2 := demo_ec2\<lparr>ec2_DescribeVpcPeeringConnections := \<lambda>w.
     (Inr [\<lparr>prAccepterVpcId = ''vpc-0'', prAccepterCidrs = [''10.0.0.0/16''],
            prRequesterVpcId = ''vpc-1'', prRequesterCidrs = [''10.1.0.0/16'']\<rparr>,
           \<lparr>prAccepterVpcId = ''vpc-1'', prAccepterCidrs = [''10.1.0.0/16''],
            prRequesterVpcId = ''vpc-0'', prRequesterCidrs = [''10.0.0.0/16'']\<rparr>], w)\<rparr>\<rparr>"

theorem peer_cidrs_exact_witness:
  "\<exists>blocks s'. DescribeVPCPeerCIDRs_aws demo_peered ''vpc-0'' demo_s =
     Some (Inr (map (block_net (os_txt6 demo_os)) blocks), s') \<and> distinct blocks \<and> set blocks = {''10.1.0.0/16''}"
proof -
  have c: "client_ready demo_peered (client demo_s)" by (simp add: demo_peered_def demo_s_def)
  obtain s1 where n: "newEC2 demo_peered demo_s = Some ((True, None), s1)" using c by (rule newEC2_ready)
  have r: "range_ok demo_peered" using demo_range_ok by (simp add: range_ok_def demo_peered_def)
  have p: "parses (os_txt6 demo_os) ''10.1.0.0/16''" by code_simp
  have o: "os demo_peered = demo_os" by (simp add: demo_peered_def demo_def)
  show ?thesis
    using peer_cidrs_exact [OF c r n, of _ "''vpc-0''"] p
    by (simp add: o) (simp add: demo_peered_def conj_disj_distribL conj_disj_distribR Collect_disj_eq cong: conj_cong)
qed

text \<open>The blocks of the VPC itself. Only associated blocks count. When each of them parses they
  are returned in the order of the answer, otherwise the error of the first that does not parse is.\<close>

lemma vpc_cidrs_exact:
  "parse_associated t bs =
     (case find (\<lambda>b. \<not> parses t b) (map snd (filter (\<lambda>b. fst b = ''associated'') bs)) of
        None \<Rightarrow> Inr (map (block_net t \<circ> snd) (filter (\<lambda>b. fst b = ''associated'') bs))
      | Some b \<Rightarrow> Inl (cidr_error b))"
proof -
  have err: "ParseCIDR t b = Inl x \<Longrightarrow> x = cidr_error b" for b x
    by (auto simp: ParseCIDR_def Let_def split: if_splits option.splits)
  show ?thesis
  proof (induction bs)
    case (Cons b bs)
    obtain state block where b: "b = (state, block)" by fastforce
    show ?case
      using Cons by (cases "ParseCIDR t block")
        (auto simp: b parses_def block_net_def dest: err split: option.splits)
  qed simp
qed

end
