(* ===== verification/Footprint.thy ===== *)
theory Footprint
  imports InterfaceMgr Vpc
begin

text \<open>
  Which files the allocation of an address touches: the registry and the cache files of the limits and
  the subnets, and no others. The lemmas follow the call graph from \<^verbatim>\<open>aws/registry.go\<close> up to
  \<^verbatim>\<open>aws/allocate.go\<close> and \<^verbatim>\<open>aws/interface.go\<close>; they hold for every run, whatever fails.
\<close>

definition other_file :: "'w env \<Rightarrow> string \<Rightarrow> bool" where
  "other_file e p =
     (p \<noteq> registry_json e \<and> p \<noteq> path_Join (cachePath e) ''subnets_for_instance'' \<and>
      (\<forall>t. p \<noteq> path_Join (cachePath e) (limits_key t)))"

section \<open>The registry\<close>

lemma write_other:
  "p \<noteq> q \<Longrightarrow> fs_files (snd (os_OpenFile e q s)) p = fs_files s p"
  "p \<noteq> q \<Longrightarrow> fs_files (snd (json_Encode e q doc s)) p = fs_files s p"
  by (simp_all add: os_OpenFile_def json_Encode_def ext_def split: option.splits)

lemma ensurePath_files [simp]: "fs_files (snd (ensurePath e s)) = fs_files s"
  by (simp add: ensurePath_def case_prod_unfold Let_def split: option.splits)

lemma ensurePath_path: "fst (ensurePath e s) = Inr q \<Longrightarrow> q = registry_json e"
  by (auto simp: ensurePath_def case_prod_unfold Let_def split: option.splits if_splits)

lemma save_other [simp]: "p \<noteq> registry_json e \<Longrightarrow> fs_files (snd (save e rc s)) p = fs_files s p"
  by (auto simp: save_def case_prod_unfold Let_def write_other dest: ensurePath_path split: sum.splits option.splits)

lemma load_other [simp]: "p \<noteq> registry_json e \<Longrightarrow> fs_files (snd (load e s)) p = fs_files s p"
  by (simp add: load_def case_prod_unfold Let_def split: sum.splits option.splits)

lemma registry_ops_other [simp]:
  assumes "p \<noteq> registry_json e"
  shows "fs_files (snd (TrackIP e x s)) p = fs_files s p" and "fs_files (snd (ForgetIP e x s)) p = fs_files s p"
    and "fs_files (snd (TrackIPAtEpoch e x s)) p = fs_files s p" and "fs_files (snd (HasIP e x s)) p = fs_files s p"
  using assms
  by (simp_all add: TrackIP_def ForgetIP_def TrackIPAtEpoch_def HasIP_def case_prod_unfold Let_def split: sum.splits)

lemma TrackedBefore_other:
  "TrackedBefore e t s = Some (r, s') \<Longrightarrow> p \<noteq> registry_json e \<Longrightarrow> fs_files s' p = fs_files s p"
  using load_other [of p e s] by (auto simp: TrackedBefore_def case_prod_unfold Let_def bind_eq_Some_conv split: sum.splits)

lemma steps_other [simp]:
  assumes "p \<noteq> registry_json e"
  shows "fs_files (snd (sync_ip (HasIP e) (TrackIP e) (ForgetIP e) found x s)) p = fs_files s p"
    and "fs_files (snd (claim_ip (HasIP e) (TrackIP e) x s)) p = fs_files s p"
  using assms by (simp_all add: sync_ip_def claim_ip_def case_prod_unfold Let_def)

section \<open>Search and allocation\<close>

lemma free_on_interface_other:
  "p \<noteq> registry_json e \<Longrightarrow> fs_files (snd (free_on_interface e u assigned intf ips free s)) p = fs_files s p"
  by (induction ips arbitrary: free s; cases u) (auto simp: case_prod_unfold Let_def split: option.splits)

lemma free_on_interfaces_other:
  "p \<noteq> registry_json e \<Longrightarrow> fs_files (snd (free_on_interfaces e index u assigned intfs free s)) p = fs_files s p"
  by (induction intfs arbitrary: free s)
     (simp_all add: case_prod_unfold Let_def free_on_interface_other split: option.splits)

lemma FindFree_other [simp]:
  "p \<noteq> registry_json e \<Longrightarrow> fs_files (snd (FindFreeIPsAtIndex e index u s)) p = fs_files s p"
  by (simp add: FindFreeIPsAtIndex_def case_prod_unfold Let_def free_on_interfaces_other split: sum.splits)

lemma claim_new_ips_other:
  "p \<noteq> registry_json e \<Longrightarrow> fs_files (snd (claim_new_ips e intf newIntf ips rs s)) p = fs_files s p"
  by (induction ips arbitrary: rs s) (simp_all add: case_prod_unfold Let_def split: option.splits)

lemma await_ips_other:
  "p \<noteq> registry_json e \<Longrightarrow> fs_files (snd (await_ips e intf n rs s)) p = fs_files s p"
  by (induction n arbitrary: rs s)
     (simp_all add: case_prod_unfold Let_def claim_new_ips_other split: sum.splits option.splits)

lemma ENILimits_other:
  assumes "ENILimits e s = Some (r, s')" and "other_file e p"
  shows "fs_files s' p = fs_files s p"
proof -
  obtain idd err s1 where g: "getIDDoc e s = ((idd, err), s1)" by (metis prod.collapse)
  have f1: "fs_files s1 = fs_files s" using getIDDoc_frame [of e s] g by simp
  show ?thesis
  proof (cases "err = None \<and> idd \<noteq> None")
    case True
    then obtain d where d: "err = None" "idd = Some d" by auto
    let ?q = "cached e (limits_key (idInstanceType d)) (24 * 3600 * ns_per_s) encode_ENILimit decode_ENILimit
        zero_ENILimit (ENILimitsForInstanceType e (idInstanceType d)) s1"
    obtain r1 where q: "?q = Some (r1, s')" using assms(1) g d by (cases ?q) (auto simp: ENILimits_def)
    have "fs_files s' p = fs_files s1 p"
      by (rule cached_files [OF q]) (use assms(2) in \<open>auto simp: other_file_def ENILimitsForInstanceType_files\<close>)
    with f1 show ?thesis by simp
  next
    case False
    with assms(1) g f1 show ?thesis by (auto simp: ENILimits_def split: option.splits)
  qed
qed

lemma GetSubnets_other:
  "GetSubnetsForInstance e s = Some (r, s') \<Longrightarrow> other_file e p \<Longrightarrow> fs_files s' p = fs_files s p"
  by (erule GetSubnetsForInstance_files) (simp add: other_file_def)

lemma ec2call_files: "ec2call present f s = Some (r, s') \<Longrightarrow> fs_files s' = fs_files s"
  by (auto simp: ec2call_def ext_def split: if_splits)

lemma AllocateIPsOn_other:
  assumes "AllocateIPsOn e intf batch s = Some (r, s')" and "other_file e p"
  shows "fs_files s' p = fs_files s p"
proof -
  have a: "await_ips e intf n rs s = (r, s') \<Longrightarrow> fs_files s' p = fs_files s p" for n rs s
    using await_ips_other [of p e intf n rs s] assms(2) by (simp add: other_file_def)
  show ?thesis
    using assms(1) unfolding AllocateIPsOn_def
    by (simp only: run option.inject prod.inject)
       (auto dest!: newEC2_files(1) ENILimits_other [OF _ assms(2)] ec2call_files a)
qed

lemma FirstAvailable_other:
  assumes "AllocateIPsFirstAvailableAtIndex e index batch s = Some (r, s')" and "other_file e p"
  shows "fs_files s' p = fs_files s p"
proof -
  have g: "GetInterfaces e s = (q, s1) \<Longrightarrow> fs_files s1 = fs_files s" for q s1
    using GetInterfaces_frame(1) [of e s] by simp
  show ?thesis
    using assms(1) unfolding AllocateIPsFirstAvailableAtIndex_def Let_def
    by (simp only: run option.inject prod.inject)
       (auto dest!: g ENILimits_other [OF _ assms(2)] GetSubnets_other [OF _ assms(2)] AllocateIPsOn_other [OF _ assms(2)])
qed

section \<open>New interfaces\<close>

lemma track_at_epoch_other:
  "p \<noteq> registry_json e \<Longrightarrow> fs_files (track_at_epoch e as s) p = fs_files s p"
  by (induction as arbitrary: s) (simp_all add: case_prod_unfold Let_def split: option.splits)

lemma settle_round_other:
  assumes "settle_round e ni s = Some (r, s')" and "p \<noteq> registry_json e"
  shows "fs_files s' p = fs_files s p"
proof -
  have g: "GetInterfaces e s = (q, s1) \<Longrightarrow> fs_files s1 = fs_files s" for q s1
    using GetInterfaces_frame(1) [of e s] by simp
  show ?thesis
    using assms(1) unfolding settle_round_def Let_def
    by (simp only: run option.inject prod.inject)
       (auto dest!: g configureInterface_frame(1) simp: track_at_epoch_other [OF assms(2)])
qed

lemma settle_poll_other:
  assumes "poll e D w start (settle_round e ni) s = Some (r, s')" and "p \<noteq> registry_json e"
  shows "fs_files s' p = fs_files s p"
  using poll_pres [OF assms(1), of "\<lambda>s1. fs_files s1 p = fs_files s p"] settle_round_other [OF _ assms(2)] by simp

lemma NewInterfaceOnSubnet_other:
  assumes "NewInterfaceOnSubnetAtIndex e index secGrps subnet batch s = Some (r, s')" and "other_file e p"
  shows "fs_files s' p = fs_files s p"
proof -
  have d: "getIDDoc e s = (q, s1) \<Longrightarrow> fs_files s1 = fs_files s" for q s s1
    using getIDDoc_frame(1) [of e s] by simp
  have m: "ext f s = (q, s1) \<Longrightarrow> fs_files s1 = fs_files s" for f :: "_ \<Rightarrow> int \<times> _" and q s s1
    using ext_frame(2) [of f s] by simp
  have p: "p \<noteq> registry_json e" using assms(2) by (simp add: other_file_def)
  show ?thesis
    using assms(1) unfolding NewInterfaceOnSubnetAtIndex_def Let_def
    by (simp only: run option.inject prod.inject)
       (auto dest!: newEC2_files(1) d m ENILimits_other [OF _ assms(2)] ec2call_files settle_poll_other [OF _ p])
qed

lemma NewInterface_other:
  assumes "NewInterface e secGrps tags batch s = Some (r, s')" and "other_file e p"
  shows "fs_files s' p = fs_files s p"
proof -
  have g: "GetInterfaces e s = (q, s1) \<Longrightarrow> fs_files s1 = fs_files s" for q s s1
    using GetInterfaces_frame(1) [of e s] by simp
  show ?thesis
    using assms(1) unfolding NewInterface_def Let_def
    by (simp only: run option.inject prod.inject)
       (auto dest!: g ENILimits_other [OF _ assms(2)] GetSubnets_other [OF _ assms(2)] NewInterfaceOnSubnet_other [OF _ assms(2)])
qed

section \<open>Deallocation\<close>

lemma DeallocateIP_files: "DeallocateIP e x s = Some (r, s') \<Longrightarrow> fs_files s' = fs_files s"
proof -
  have g: "GetInterfaces e s = (q, s1) \<Longrightarrow> fs_files s1 = fs_files s" for q s s1
    using GetInterfaces_frame(1) [of e s] by simp
  have c: "ec2call b f s = Some (q, s1) \<Longrightarrow> fs_files s1 = fs_files s" for b f q s s1
    by (auto simp: ec2call_def ext_def split: if_splits)
  show "DeallocateIP e x s = Some (r, s') \<Longrightarrow> fs_files s' = fs_files s"
    unfolding DeallocateIP_def Let_def
    by (simp only: run option.inject prod.inject) (auto dest!: g c newEC2_files(1))
qed

lemma DeallocateIP_keeps:
  assumes "registry_ok e s" and "client_ready e (client s)"
  obtains r s' where "DeallocateIP e x s = Some (r, s')" and "registry_ok e s'" and "client_ready e (client s')"
    and "registry_view e s' = registry_view e s"
proof -
  obtain s1 where n: "newEC2 e s = Some ((True, None), s1)" "client_ready e (client s1)" "fs_files s1 = fs_files s"
      "fs_dirs s1 = fs_dirs s"
    using assms(2) by (rule newEC2_ready)
  obtain r2 s2 where g: "GetInterfaces e s1 = (r2, s2)" by fastforce
  have s2: "fs_files s2 = fs_files s" "fs_dirs s2 = fs_dirs s" "client s2 = client s1"
    using GetInterfaces_frame [of e s1] g n(3,4) by simp_all
  obtain r s' where d: "DeallocateIP e x s = Some (r, s')" "fs_files s' = fs_files s2" "fs_dirs s' = fs_dirs s2" "client s' = client s2"
  proof (cases r2)
    case (Inl y)
    with n(1) g that [of "Some y" s2] show ?thesis by (simp add: DeallocateIP_def)
  next
    case (Inr ifs)
    show ?thesis
    proof (cases "find (\<lambda>i. x \<in> set (ifIPv4s i)) ifs")
      case None
      with n(1) g Inr that [of _ s2] show ?thesis by (simp add: DeallocateIP_def)
    next
      case (Some i)
      let ?u = "ext (ec2_UnassignPrivateIpAddresses (ec2 e) (ifID i) [ip_key e x]) s2"
      have "DeallocateIP e x s = Some (fst ?u, snd ?u)" using n(1) g Inr Some by (simp add: DeallocateIP_def ec2call_def)
      then show ?thesis by (rule that) simp_all
    qed
  qed
  then show thesis
    using that registry_footprint [of s' s e] s2 n(2) assms(1) by simp
qed

end
