(* ===== verification/Lock.thy ===== *)
theory Lock
  imports Scenario
begin

text \<open>
  \<^verbatim>\<open>lib/lock.go\<close>: running a function under the node-wide lock file. The lock library is a
  parameter (\<open>lk_New\<close>, \<open>lk_TryLock\<close>, \<open>lk_Unlock\<close>). The deferred unlock runs when the function
  returns, not when it exits the process; a function that panics takes the process down with it.
\<close>

definition lock_abort :: error where
  "lock_abort = Errorf ''Lockfile not acquired, aborting''"

definition lock_poll :: int where
  "lock_poll = 100000000"

text \<open>The loop: \<open>tries\<close> is decremented first, so that a start value of 1000 allows 999 attempts.\<close>

fun lock_loop :: "'w env \<Rightarrow> nat \<Rightarrow> 'w st \<Rightarrow> error option \<times> 'w st" where
  "lock_loop e 0 s = (Some lock_abort, s)"
| "lock_loop e (Suc tries) s =
     (if tries = 0 then (Some lock_abort, s)
      else (let (r, s) = ext (lk_TryLock (lk e)) s
            in case r of
                 LockNil \<Rightarrow> (None, s)
               | LockBusy \<Rightarrow> lock_loop e tries (time_Sleep e lock_poll s)
               | LockNotExist \<Rightarrow> lock_loop e tries (time_Sleep e lock_poll s)
               | LockFailed err \<Rightarrow> (Some err, s)))"

definition lock_acquire :: "'w env \<Rightarrow> 'w st \<Rightarrow> error option \<times> 'w st" where
  "lock_acquire e s =
     (let (err, s) = ext (lk_New (lk e)) s
      in case err of Some x \<Rightarrow> (Some x, s) | None \<Rightarrow> lock_loop e 1000 s)"

definition LockfileRun ::
    "'w env \<Rightarrow> ('w st \<Rightarrow> (error option \<times> 'w st) option) \<Rightarrow> 'w st \<Rightarrow> (error option \<times> 'w st) option" where
  "LockfileRun e run s =
     (let (err, s) = lock_acquire e s
      in case err of
           Some x \<Rightarrow> Some (Some x, s)
         | None \<Rightarrow>
             do { (r, s) \<leftarrow> run s;
                  let (_, s) = ext (lk_Unlock (lk e)) s;
                  Some (r, s) })"

text \<open>The same for a function that may end the process: \<^verbatim>\<open>os.Exit\<close> with a code (\<open>Inl\<close>) runs no deferred
  calls, so that the lock file is not removed.\<close>

definition LockfileRun_exit ::
    "'w env \<Rightarrow> ('w st \<Rightarrow> ((int + error option) \<times> 'w st) option) \<Rightarrow> 'w st \<Rightarrow> ((int + error option) \<times> 'w st) option" where
  "LockfileRun_exit e run s =
     (let (err, s) = lock_acquire e s
      in case err of
           Some x \<Rightarrow> Some (Inr (Some x), s)
         | None \<Rightarrow>
             do { (r, s) \<leftarrow> run s;
                  case r of
                    Inl code \<Rightarrow> Some (Inl code, s)
                  | Inr err \<Rightarrow> (let (_, s) = ext (lk_Unlock (lk e)) s in Some (Inr err, s)) })"

lemma LockfileRun_exit_returns:
  "LockfileRun_exit e (\<lambda>s. map_option (\<lambda>(r, s). (Inr r, s)) (run s)) s =
     map_option (\<lambda>(r, s). (Inr r, s)) (LockfileRun e run s)"
  by (cases "fst (lock_acquire e s)"; cases "run (snd (lock_acquire e s))")
     (simp_all add: LockfileRun_exit_def LockfileRun_def case_prod_unfold Let_def)

section \<open>When the function runs\<close>

text \<open>The state before attempt \<open>k\<close>, when all earlier ones found the lock taken.\<close>

definition lock_wait :: "'w env \<Rightarrow> nat \<Rightarrow> 'w st \<Rightarrow> 'w st" where
  "lock_wait e k s = ((\<lambda>s. time_Sleep e lock_poll (snd (ext (lk_TryLock (lk e)) s))) ^^ k) s"

definition attempt :: "'w env \<Rightarrow> 'w st \<Rightarrow> trylock" where
  "attempt e s = fst (ext (lk_TryLock (lk e)) s)"

definition taken :: "trylock \<Rightarrow> bool" where
  "taken r = (r = LockBusy \<or> r = LockNotExist)"

lemma lock_wait_simps [simp]:
  "lock_wait e 0 s = s"
  "lock_wait e (Suc k) s = lock_wait e k (time_Sleep e lock_poll (snd (ext (lk_TryLock (lk e)) s)))"
  by (simp_all add: lock_wait_def funpow_swap1 del: funpow.simps add: funpow_Suc_right)

lemma lock_loop_taken:
  "taken (attempt e s) \<Longrightarrow> lock_loop e (Suc (Suc n)) s =
     lock_loop e (Suc n) (time_Sleep e lock_poll (snd (ext (lk_TryLock (lk e)) s)))"
  by (auto simp: taken_def attempt_def ext_def)

text \<open>The first attempt that is not answered with a taken lock ends the loop.\<close>

lemma lock_loop_ended:
  "k < n \<Longrightarrow> \<forall>j<k. taken (attempt e (lock_wait e j s)) \<Longrightarrow>
     (\<And>n. 0 < n \<Longrightarrow> lock_loop e (Suc n) (lock_wait e k s) = y) \<Longrightarrow> lock_loop e (Suc n) s = y"
proof (induction k arbitrary: n s)
  case 0
  then show ?case by simp
next
  case (Suc k)
  let ?s = "time_Sleep e lock_poll (snd (ext (lk_TryLock (lk e)) s))"
  from Suc.prems(1) obtain m where m: "n = Suc m" "k < m" by (cases n) auto
  have now: "taken (attempt e s)" using Suc.prems(2) by force
  have later: "\<forall>j<k. taken (attempt e (lock_wait e j ?s))"
    using Suc.prems(2) by (auto dest: spec [of _ "Suc _"])
  show ?case
    using Suc.IH [OF m(2) later] Suc.prems(3) m(1) lock_loop_taken [OF now, of m] by simp
qed

lemma lock_loop_acquired:
  "k < n \<Longrightarrow> \<forall>j<k. taken (attempt e (lock_wait e j s)) \<Longrightarrow> attempt e (lock_wait e k s) = LockNil \<Longrightarrow>
     lock_loop e (Suc n) s = (None, snd (ext (lk_TryLock (lk e)) (lock_wait e k s)))"
  by (rule lock_loop_ended) (auto simp: attempt_def ext_def)

lemma lock_loop_exhausted:
  "\<forall>j<n. taken (attempt e (lock_wait e j s)) \<Longrightarrow> lock_loop e (Suc n) s = (Some lock_abort, lock_wait e n s)"
proof (induction n arbitrary: s)
  case 0
  then show ?case by simp
next
  case (Suc n)
  let ?s = "time_Sleep e lock_poll (snd (ext (lk_TryLock (lk e)) s))"
  have now: "taken (attempt e s)" using Suc.prems by force
  have later: "\<forall>j<n. taken (attempt e (lock_wait e j ?s))"
    using Suc.prems by (auto dest: spec [of _ "Suc _"])
  show ?case using Suc.IH [OF later] lock_loop_taken [OF now, of n] by simp
qed

lemma lock_loop_failed:
  "k < n \<Longrightarrow> \<forall>j<k. taken (attempt e (lock_wait e j s)) \<Longrightarrow> attempt e (lock_wait e k s) = LockFailed x \<Longrightarrow>
     lock_loop e (Suc n) s = (Some x, snd (ext (lk_TryLock (lk e)) (lock_wait e k s)))"
  by (rule lock_loop_ended) (auto simp: attempt_def ext_def)

text \<open>C19: mutual exclusion of the node's CNI operations. When the lock object cannot be made,
  \<^verbatim>\<open>LockfileRun\<close> answers that error. Otherwise the first of its at most 999 attempts that is not answered
  busy or missing decides: when it acquires the lock, the function runs, in the state that attempt left,
  and the lock is released afterwards; when it fails in another way, that failure is answered and the function
  does not run. When all 999 attempts find the lock taken, it gives up with an error and does not run the
  function either.\<close>

theorem lockfile_run_exclusive:
  "case ext (lk_New (lk e)) s of
     (Some x, s0) \<Rightarrow> LockfileRun e run s = Some (Some x, s0)
   | (None, s0) \<Rightarrow>
       (\<forall>k<999. (\<forall>j<k. taken (attempt e (lock_wait e j s0))) \<longrightarrow>
          (let s1 = snd (ext (lk_TryLock (lk e)) (lock_wait e k s0))
           in case attempt e (lock_wait e k s0) of
                LockNil \<Rightarrow> LockfileRun e run s = do { (r, s') \<leftarrow> run s1; Some (r, snd (ext (lk_Unlock (lk e)) s')) }
              | LockFailed x \<Rightarrow> LockfileRun e run s = Some (Some x, s1)
              | _ \<Rightarrow> True)) \<and>
       ((\<forall>j<999. taken (attempt e (lock_wait e j s0))) \<longrightarrow>
          LockfileRun e run s = Some (Some lock_abort, lock_wait e 999 s0))"
proof -
  obtain err s0 where new: "ext (lk_New (lk e)) s = (err, s0)" by fastforce
  have thousand: "(1000 :: nat) = Suc 999" by simp
  have unfold: "LockfileRun e run s =
      (let (err, s) = lock_loop e (Suc 999) s0
       in case err of Some x \<Rightarrow> Some (Some x, s)
          | None \<Rightarrow> do { (r, s) \<leftarrow> run s; Some (r, snd (ext (lk_Unlock (lk e)) s)) })" if "err = None"
    unfolding LockfileRun_def lock_acquire_def new that
    by (simp only: Let_def prod.case option.case thousand case_prod_unfold fst_conv snd_conv)
  show ?thesis
  proof (cases err)
    case (Some x)
    then show ?thesis by (simp add: new LockfileRun_def lock_acquire_def)
  next
    case None
    note unfold = unfold [OF None]
    have one: "let s1 = snd (ext (lk_TryLock (lk e)) (lock_wait e k s0))
           in case attempt e (lock_wait e k s0) of
                LockNil \<Rightarrow> LockfileRun e run s = do { (r, s') \<leftarrow> run s1; Some (r, snd (ext (lk_Unlock (lk e)) s')) }
              | LockFailed x \<Rightarrow> LockfileRun e run s = Some (Some x, s1)
              | _ \<Rightarrow> True"
      if "k < 999" "\<forall>j<k. taken (attempt e (lock_wait e j s0))" for k
      using lock_loop_acquired [OF that] lock_loop_failed [OF that]
      unfolding unfold by (cases "attempt e (lock_wait e k s0)") simp_all
    have "LockfileRun e run s = Some (Some lock_abort, lock_wait e 999 s0)"
      if "\<forall>j<999. taken (attempt e (lock_wait e j s0))"
      unfolding unfold lock_loop_exhausted [OF that] by simp
    with one show ?thesis unfolding new None by (simp only: prod.case option.case) blast
  qed
qed

theorem lockfile_run_exclusive_witness:
  "LockfileRun demo (\<lambda>s. Some (None, s)) (demo_s\<lparr>world := demo_w\<lparr>d_busy := 2\<rparr>\<rparr>) =
     Some (None, demo_s\<lparr>world := demo_w\<lparr>d_sec := d_sec demo_w + 2\<rparr>\<rparr>)"
proof -
  let ?s = "demo_s\<lparr>world := demo_w\<lparr>d_busy := 2\<rparr>\<rparr>"
  have new: "ext (lk_New (lk demo)) ?s = (None, ?s)" by (simp add: ext_def demo_defs)
  have "\<forall>j<2. taken (attempt demo (lock_wait demo j ?s))"
    by (auto simp: less_2_cases_iff taken_def attempt_def ext_def time_Sleep_def demo_defs)
  moreover have "attempt demo (lock_wait demo 2 ?s) = LockNil"
    by (simp add: numeral_2_eq_2 attempt_def ext_def time_Sleep_def demo_defs)
  ultimately have "LockfileRun demo (\<lambda>s. Some (None, s)) ?s =
      do { (r, s') \<leftarrow> Some (None, snd (ext (lk_TryLock (lk demo)) (lock_wait demo 2 ?s)));
           Some (r, snd (ext (lk_Unlock (lk demo)) s')) }"
    using lockfile_run_exclusive [where e = demo and s = ?s and run = "\<lambda>s. Some (None, s)"] unfolding new
    by (simp only: prod.case option.case) (drule conjunct1, drule spec [of _ 2], simp)
  then show ?thesis
    by (simp add: numeral_2_eq_2 ext_def time_Sleep_def demo_defs lock_poll_def ns_per_s_def)
qed

end
