(* ===== verification/Cni.thy ===== *)
theory Cni
  imports Scenario JsonDoc
begin

text \<open>
  What the three plugins use of the CNI libraries, which are outside the repository: the result types of
  \<^verbatim>\<open>types\<close> and \<^verbatim>\<open>types/current\<close>, the arguments of a call (\<^verbatim>\<open>skel.CmdArgs\<close>), and the library calls
  as a record of parameters \<open>'w cni_api\<close>. Standard input is a JSON document, \<open>None\<close> when it is not one.
  The network namespace that a call runs in is its first argument, a path, empty for the host's. A result
  that was parsed for one CNI version but not yet converted to the current one is kept as JSON.
\<close>

record cni_iface =
  ciName :: string
  ciMac :: string
  ciSandbox :: string

record cni_route =
  rtDst :: ipnet
  rtGW :: ip

record IPConfig =
  icVersion :: string
  icInterface :: "int option"
  icAddress :: ipnet
  icGateway :: "ip option"

record cni_DNS =
  dnNameservers :: "string list"
  dnDomain :: string
  dnSearch :: "string list"
  dnOptions :: "string list"

definition zero_DNS :: cni_DNS where
  "zero_DNS = \<lparr>dnNameservers = [], dnDomain = [], dnSearch = [], dnOptions = []\<rparr>"

record CniResult =
  rsInterfaces :: "cni_iface list"
  rsIPs :: "IPConfig list"
  rsRoutes :: "cni_route list"
  rsDNS :: cni_DNS

record CmdArgs =
  caContainerID :: string
  caNetns :: string
  caIfName :: string
  caStdinData :: "json option"

section \<open>The library calls\<close>

text \<open>\<^verbatim>\<open>ip.DelLinkByName\<close> answers \<^verbatim>\<open>nil\<close>, \<^verbatim>\<open>ErrLinkNotFound\<close> or another error.\<close>

datatype del_link = DelNil | DelNotFound | DelFailed error

record IPVlan =
  ivMTU :: int
  ivName :: string
  ivParentIndex :: int
  ivNamespace :: string
  ivMode :: nat

record 'w cni_api =
  cni_PrintResult :: "CniResult \<Rightarrow> string \<Rightarrow> 'w \<Rightarrow> error option \<times> 'w"
  cni_NewResult :: "string \<Rightarrow> json \<Rightarrow> json res"
  cni_Convert :: "json \<Rightarrow> CniResult res"
  ipam_ExecAdd :: "string \<Rightarrow> json option \<Rightarrow> 'w \<Rightarrow> json res \<times> 'w"
  ipam_ExecDel :: "string \<Rightarrow> json option \<Rightarrow> 'w \<Rightarrow> error option \<times> 'w"
  ipam_ConfigureIface :: "string \<Rightarrow> string \<Rightarrow> CniResult \<Rightarrow> 'w \<Rightarrow> error option \<times> 'w"
  ns_GetNS :: "string \<Rightarrow> 'w \<Rightarrow> error option \<times> 'w"
  ns_Do :: "string \<Rightarrow> 'w \<Rightarrow> error option \<times> 'w"
  ip_RandomVethName :: "'w \<Rightarrow> string res \<times> 'w"
  ip_RenameLink :: "string \<Rightarrow> string \<Rightarrow> string \<Rightarrow> 'w \<Rightarrow> error option \<times> 'w"
  ip_DelLinkByName :: "string \<Rightarrow> string \<Rightarrow> 'w \<Rightarrow> del_link \<times> 'w"
  nl_LinkAdd :: "IPVlan \<Rightarrow> 'w \<Rightarrow> error option \<times> 'w"

section \<open>The previous result of a chain\<close>

text \<open>\<^verbatim>\<open>RawPrevResult\<close> is a map of JSON values: an object, or \<^verbatim>\<open>nil\<close> after \<^verbatim>\<open>null\<close>.\<close>

definition decode_raw :: "json \<Rightarrow> json option option" where
  "decode_raw v = (case v of JNull \<Rightarrow> Some None | JObj ms \<Rightarrow> Some (Some v) | _ \<Rightarrow> None)"

text \<open>The previous result, parsed for its version and converted.\<close>

definition parse_prev :: "'w cni_api \<Rightarrow> string \<Rightarrow> json option \<Rightarrow> CniResult option res" where
  "parse_prev c version raw =
     (case raw of
        None \<Rightarrow> Inr None
      | Some js \<Rightarrow>
          (case cni_NewResult c version js of
             Inl err \<Rightarrow> Inl (Wrap ''could not parse prevResult'' err)
           | Inr res \<Rightarrow>
               (case cni_Convert c res of
                  Inl err \<Rightarrow> Inl (Wrap ''could not convert result to current version'' err)
                | Inr r \<Rightarrow> Inr (Some r))))"

section \<open>The example node\<close>

text \<open>CNI libraries that do nothing and never fail, for the witnesses.\<close>

definition demo_cni :: "dw cni_api" where
  "demo_cni =
     \<lparr>cni_PrintResult = (\<lambda>r v w. (None, w)),
      cni_NewResult = (\<lambda>v js. Inr js),
      cni_Convert = (\<lambda>js. Inr \<lparr>rsInterfaces = [], rsIPs = [], rsRoutes = [], rsDNS = zero_DNS\<rparr>),
      ipam_ExecAdd = (\<lambda>t i w. (Inr JNull, w)),
      ipam_ExecDel = (\<lambda>t i w. (None, w)),
      ipam_ConfigureIface = (\<lambda>n i r w. (None, w)),
      ns_GetNS = (\<lambda>p w. (None, w)),
      ns_Do = (\<lambda>p w. (None, w)),
      ip_RandomVethName = (\<lambda>w. (Inr ''veth0'', w)),
      ip_RenameLink = (\<lambda>n a b w. (None, w)),
      ip_DelLinkByName = (\<lambda>n l w. (DelNil, w)),
      nl_LinkAdd = (\<lambda>l w. (None, w))\<rparr>"

definition demo_args :: CmdArgs where
  "demo_args =
     \<lparr>caContainerID = ''pod'', caNetns = ''/proc/7/ns/net'', caIfName = ''eth0'',
      caStdinData = Some (JObj [(''cniVersion'', JStr ''0.3.1''), (''secGroupIds'', JArr [JStr ''sg-1'']),
                                (''interfaceIndex'', JNum 1)])\<rparr>"

end
