(* ===== verification/Ipam.thy ===== *)
theory Ipam
  imports Footprint Lock Cni
begin

text \<open>
  \<^verbatim>\<open>plugin/ipam/main.go\<close>: the IPAM plugin. \<^verbatim>\<open>ADD\<close> hands out an address: a free one that has been
  in the registry long enough, else a new one on an existing interface, else the first of a new
  interface; \<^verbatim>\<open>DEL\<close> returns the container's addresses. Both run under the node-wide lock.
\<close>

section \<open>Configuration\<close>

record PluginConf =
  pcName :: string
  pcCNIVersion :: string
  pcSecGroupIds :: "string list option"
  pcSubnetTags :: "(string \<times> string) list"
  pcIfaceIndex :: int
  pcSkipDeallocation :: bool
  pcRouteToVPCPeers :: bool
  pcReuseIPWait :: int
  pcIPBatchSize :: int
  pcRouteToCidrs :: "string list"

definition PluginConf_field :: "string \<Rightarrow> json \<Rightarrow> PluginConf \<Rightarrow> PluginConf option" where
  "PluginConf_field k v c =
     (if eq_fold k ''name'' then map_option (\<lambda>x. c\<lparr>pcName := x\<rparr>) (decode_string v (pcName c))
      else if eq_fold k ''cniVersion'' then map_option (\<lambda>x. c\<lparr>pcCNIVersion := x\<rparr>) (decode_string v (pcCNIVersion c))
      else if eq_fold k ''secGroupIds'' then map_option (\<lambda>x. c\<lparr>pcSecGroupIds := x\<rparr>) (decode_strings v)
      else if eq_fold k ''subnetTags'' then map_option (\<lambda>x. c\<lparr>pcSubnetTags := x\<rparr>) (decode_string_map v (pcSubnetTags c))
      else if eq_fold k ''interfaceIndex'' then map_option (\<lambda>x. c\<lparr>pcIfaceIndex := x\<rparr>) (decode_int v (pcIfaceIndex c))
      else if eq_fold k ''skipDeallocation'' then
        map_option (\<lambda>x. c\<lparr>pcSkipDeallocation := x\<rparr>) (decode_bool v (pcSkipDeallocation c))
      else if eq_fold k ''routeToVpcPeers'' then
        map_option (\<lambda>x. c\<lparr>pcRouteToVPCPeers := x\<rparr>) (decode_bool v (pcRouteToVPCPeers c))
      else if eq_fold k ''reuseIPWait'' then map_option (\<lambda>x. c\<lparr>pcReuseIPWait := x\<rparr>) (decode_int v (pcReuseIPWait c))
      else if eq_fold k ''ipBatchSize'' then map_option (\<lambda>x. c\<lparr>pcIPBatchSize := x\<rparr>) (decode_int v (pcIPBatchSize c))
      else if eq_fold k ''routeToCidrs'' then
        map_option (\<lambda>x. c\<lparr>pcRouteToCidrs := case x of None \<Rightarrow> [] | Some l \<Rightarrow> l\<rparr>) (decode_strings v)
      else Some c)"

definition default_conf :: PluginConf where
  "default_conf =
     \<lparr>pcName = [], pcCNIVersion = [], pcSecGroupIds = None, pcSubnetTags = [], pcIfaceIndex = 0,
      pcSkipDeallocation = False, pcRouteToVPCPeers = False, pcReuseIPWait = 60, pcIPBatchSize = 1,
      pcRouteToCidrs = []\<rparr>"

definition parseConfig :: "json option \<Rightarrow> PluginConf res" where
  "parseConfig stdin =
     (case Option.bind stdin (\<lambda>js. decode_struct PluginConf_field js default_conf) of
        None \<Rightarrow> Inl (Errorf ''failed to parse network configuration'')
      | Some conf \<Rightarrow>
          if pcSecGroupIds conf = None then Inl (Errorf ''secGroupIds must be specified'') else Inr conf)"

section \<open>Choosing the address\<close>

text \<open>\<^verbatim>\<open>time.Duration(-conf.ReuseIPWait) * time.Second\<close>, in 64 bits.\<close>

definition reuse_offset :: "int \<Rightarrow> int" where
  "reuse_offset wait = wrap64 (wrap64 (- wait) * ns_per_s)"

definition reuse_ip :: "'w env \<Rightarrow> PluginConf \<Rightarrow> 'w st \<Rightarrow> (AllocationResult option res \<times> 'w st) option" where
  "reuse_ip e conf s =
     (let ((free, err), s) = FindFreeIPsAtIndex e (pcIfaceIndex conf) True s
      in if err = None \<or> free \<noteq> [] then
           (let (now, s) = ext (os_Now (os e)) s
            in do { (r, s) \<leftarrow> TrackedBefore e (time_Add now (reuse_offset (pcReuseIPWait conf))) s;
                    case r of
                      Inl _ \<Rightarrow> Some (Inr None, s)
                    | Inr registryFreeIPs \<Rightarrow>
                        (case find (\<lambda>freeAlloc. arIP freeAlloc \<in> set registryFreeIPs) free of
                           None \<Rightarrow> Some (Inr None, s)
                         | Some freeAlloc \<Rightarrow>
                             (let (err, s) = TrackIP e (arIP freeAlloc) s
                              in Some (case err of
                                         Some x \<Rightarrow> Inl (Wrap ''failed to track ip'' x)
                                       | None \<Rightarrow> Inr (Some freeAlloc), s))) })
         else Some (Inr None, s))"

text \<open>\<^verbatim>\<open>allocs[0]\<close> panics on an empty slice.\<close>

definition allocate_ip :: "'w env \<Rightarrow> PluginConf \<Rightarrow> 'w st \<Rightarrow> (AllocationResult res \<times> 'w st) option" where
  "allocate_ip e conf s =
     do { ((allocs, err), s) \<leftarrow> AllocateIPsFirstAvailableAtIndex e (pcIfaceIndex conf) (pcIPBatchSize conf) s;
          if err = None \<or> allocs \<noteq> [] then
            (case allocs of [] \<Rightarrow> None | alloc # _ \<Rightarrow> Some (Inr alloc, s))
          else
            do { (r, s) \<leftarrow> NewInterface e (case pcSecGroupIds conf of None \<Rightarrow> [] | Some l \<Rightarrow> l)
                             (pcSubnetTags conf) (pcIPBatchSize conf) s;
                 Some (case r of
                         Inl x \<Rightarrow> Inl (Wrap ''unable to create a new elastic network interface'' x)
                       | Inr newIf \<Rightarrow>
                           (case ifIPv4s newIf of
                              [] \<Rightarrow> Inl (Errorf ''unable to create a new elastic network interface due to <nil>'')
                            | x # _ \<Rightarrow> Inr \<lparr>arIP = x, arInterface = newIf\<rparr>), s) } }"

section \<open>The result\<close>

text \<open>\<^verbatim>\<open>append(addr[:3], addr[3]+k)\<close> of the four bytes of a network's address, in byte arithmetic. It
  panics when the network is \<^verbatim>\<open>nil\<close> or of IPv6. The append overwrites the network's own last byte; the
  plugin does not read that address again.\<close>

definition net_plus :: "ipnet option \<Rightarrow> byte \<Rightarrow> ip option" where
  "net_plus n k =
     (case n of
        None \<Rightarrow> None
      | Some n \<Rightarrow> (case net_ip n of V4 a b c d \<Rightarrow> Some (V4 a b c (d + k)) | V6 _ \<Rightarrow> None))"

fun parse_routes :: "txt6 \<Rightarrow> string list \<Rightarrow> cidr list res" where
  "parse_routes t [] = Inr []"
| "parse_routes t (c # cs) =
     (case ParseCIDR t c of
        Inl err \<Rightarrow> Inl (Wrap ''unable to parse routeToCidrs element'' err)
      | Inr (_, parsed) \<Rightarrow> (case parse_routes t cs of Inl err \<Rightarrow> Inl err | Inr rs \<Rightarrow> Inr (Some parsed # rs)))"

definition route_cidrs :: "'w env \<Rightarrow> PluginConf \<Rightarrow> Interface \<Rightarrow> 'w st \<Rightarrow> (cidr list res \<times> 'w st) option" where
  "route_cidrs e conf intf s =
     do { (bug, s) \<leftarrow> HasBugBrokenVPCCidrs e s;
          (r, s) \<leftarrow> (if bug then DescribeVPCCIDRs e (ifVpcID intf) s else Some (Inr (map Some (ifVpcCidrs intf)), s));
          case r of
            Inl x \<Rightarrow> Some (Inl (Wrap ''Unable to enumerate CIDRs from the AWS API due to a specific meta-data bug'' x), s)
          | Inr cidrs \<Rightarrow>
              do { (r, s) \<leftarrow> (if pcRouteToVPCPeers conf then DescribeVPCPeerCIDRs e (ifVpcID intf) s else Some (Inr [], s));
                   case r of
                     Inl x \<Rightarrow> Some (Inl (Wrap ''unable to enumerate peer CIDrs'' x), s)
                   | Inr peerCidr \<Rightarrow>
                       Some (case parse_routes (os_txt6 (os e)) (pcRouteToCidrs conf) of
                               Inl x \<Rightarrow> Inl x
                             | Inr extra \<Rightarrow> Inr (cidrs @ peerCidr @ extra), s) } }"

text \<open>One route per block, all through the gateway; a \<^verbatim>\<open>nil\<close> block panics.\<close>

fun routes_via :: "ip \<Rightarrow> cidr list \<Rightarrow> cni_route list option" where
  "routes_via gw [] = Some []"
| "routes_via gw (None # cs) = None"
| "routes_via gw (Some dst # cs) = map_option ((#) \<lparr>rtDst = dst, rtGW = gw\<rparr>) (routes_via gw cs)"

definition ipam_result :: "'w env \<Rightarrow> AllocationResult \<Rightarrow> ip \<Rightarrow> ip \<Rightarrow> nat \<Rightarrow> cni_route list \<Rightarrow> CniResult" where
  "ipam_result e alloc gw dns prefix routes =
     \<lparr>rsInterfaces = [\<lparr>ciName = LocalName (arInterface alloc), ciMac = [], ciSandbox = []\<rparr>],
      rsIPs = [\<lparr>icVersion = ''4'', icInterface = Some 0,
                icAddress = \<lparr>net_ip = arIP alloc, net_prefix = prefix\<rparr>, icGateway = Some gw\<rparr>],
      rsRoutes = routes,
      rsDNS = zero_DNS\<lparr>dnNameservers := [ip_String (os_txt6 (os e)) dns]\<rparr>\<rparr>"

section \<open>The commands\<close>

definition finish_add ::
    "'w env \<Rightarrow> 'w cni_api \<Rightarrow> PluginConf \<Rightarrow> AllocationResult \<Rightarrow> 'w st \<Rightarrow> (error option \<times> 'w st) option" where
  "finish_add e a conf alloc s =
     (let intf = arInterface alloc
      in do { gw \<leftarrow> net_plus (ifSubnetCidr intf) 1;
              dns \<leftarrow> net_plus (ifVpcPrimaryCidr intf) 2;
              subnet \<leftarrow> ifSubnetCidr intf;
              let master = LocalName intf;
              (err, s) \<leftarrow> UpInterfacePoll e master s;
              case err of
                Some x \<Rightarrow> Some (Some (Wrap (''unable to bring up interface '' @ master) x), s)
              | None \<Rightarrow>
                  do { (r, s) \<leftarrow> route_cidrs e conf intf s;
                       case r of
                         Inl x \<Rightarrow> Some (Some x, s)
                       | Inr cidrs \<Rightarrow>
                           do { routes \<leftarrow> routes_via gw cidrs;
                                let (err, s) = ForgetIP e (arIP alloc) s;
                                case err of
                                  Some x \<Rightarrow> Some (Some (Wrap ''failed to forget ip'' x), s)
                                | None \<Rightarrow>
                                    Some (ext (cni_PrintResult a (ipam_result e alloc gw dns (net_prefix subnet) routes)
                                       (pcCNIVersion conf)) s) } } })"

definition ipam_cmdAdd :: "'w env \<Rightarrow> 'w cni_api \<Rightarrow> CmdArgs \<Rightarrow> 'w st \<Rightarrow> (error option \<times> 'w st) option" where
  "ipam_cmdAdd e a args s =
     (case parseConfig (caStdinData args) of
        Inl x \<Rightarrow> Some (Some x, s)
      | Inr conf \<Rightarrow>
          do { (r, s) \<leftarrow> reuse_ip e conf s;
               case r of
                 Inl x \<Rightarrow> Some (Some x, s)
               | Inr (Some alloc) \<Rightarrow> finish_add e a conf alloc s
               | Inr None \<Rightarrow>
                   do { (r, s) \<leftarrow> allocate_ip e conf s;
                        case r of Inl x \<Rightarrow> Some (Some x, s) | Inr alloc \<Rightarrow> finish_add e a conf alloc s } })"

text \<open>The addresses of the container's interface; whatever fails inside the namespace gives none.\<close>

definition container_addrs :: "'w env \<Rightarrow> string \<Rightarrow> string \<Rightarrow> 'w st \<Rightarrow> ip list \<times> 'w st" where
  "container_addrs e netns ifName s =
     (let (err, s) = ext (nl_WithNetNSPath (nl e) netns) s
      in case err of
           Some _ \<Rightarrow> ([], s)
         | None \<Rightarrow>
             (let (r, s) = ext (nl_LinkByName (nl e) netns ifName) s
              in case r of
                   Inl _ \<Rightarrow> ([], s)
                 | Inr iface \<Rightarrow>
                     (let (r, s) = ext (nl_AddrList4 (nl e) netns iface) s
                      in case r of Inl _ \<Rightarrow> ([], s) | Inr addrs \<Rightarrow> (map adIP addrs, s))))"

fun release_ips :: "'w env \<Rightarrow> bool \<Rightarrow> ip list \<Rightarrow> 'w st \<Rightarrow> (error option \<times> 'w st) option" where
  "release_ips e skip [] s = Some (None, s)"
| "release_ips e skip (x # xs) s =
     do { (err, s) \<leftarrow> (if skip then Some (None, s) else DeallocateIP e x s);
          case err of
            Some y \<Rightarrow> Some (Some (Wrap ''failed to deallocate ip'' y), s)
          | None \<Rightarrow>
              (let (err, s) = TrackIP e x s
               in case err of
                    Some y \<Rightarrow> Some (Some (Wrap ''failed to track ip'' y), s)
                  | None \<Rightarrow> release_ips e skip xs s) }"

definition ipam_cmdDel :: "'w env \<Rightarrow> CmdArgs \<Rightarrow> 'w st \<Rightarrow> (error option \<times> 'w st) option" where
  "ipam_cmdDel e args s =
     (case parseConfig (caStdinData args) of
        Inl x \<Rightarrow> Some (Some x, s)
      | Inr conf \<Rightarrow>
          (let (addrs, s) = container_addrs e (caNetns args) (caIfName args) s
           in release_ips e (pcSkipDeallocation conf) addrs s))"

definition ipam_cmdCheck :: "CmdArgs \<Rightarrow> 'w st \<Rightarrow> (error option \<times> 'w st) option" where
  "ipam_cmdCheck args s = Some (None, s)"

text \<open>\<^verbatim>\<open>main\<close>: the command that \<^verbatim>\<open>skel.PluginMain\<close> dispatches to, under the lock. Of the CNI library's
  \<^verbatim>\<open>PluginMain\<close> this is the documented part the plugin relies on: it calls the one of the three commands that the
  environment names, prints the error of a failed command and exits the process with code 1, inside the locked function: the deferred unlock does not run. The
  answer of the lock is dropped. The result is the exit code of the process.\<close>

datatype cni_command = ADD | CHECK | DEL

definition skel_PluginMain :: "'w env \<Rightarrow> 'w cni_api \<Rightarrow> cni_command \<Rightarrow> CmdArgs \<Rightarrow> 'w st \<Rightarrow> ((int + error option) \<times> 'w st) option" where
  "skel_PluginMain e a cmd args s =
     do { (err, s) \<leftarrow> (case cmd of
                         ADD \<Rightarrow> ipam_cmdAdd e a args s
                       | CHECK \<Rightarrow> ipam_cmdCheck args s
                       | DEL \<Rightarrow> ipam_cmdDel e args s);
          Some (case err of Some _ \<Rightarrow> Inl 1 | None \<Rightarrow> Inr None, s) }"

definition ipam_main :: "'w env \<Rightarrow> 'w cni_api \<Rightarrow> cni_command \<Rightarrow> CmdArgs \<Rightarrow> 'w st \<Rightarrow> (int \<times> 'w st) option" where
  "ipam_main e a cmd args s =
     do { (r, s) \<leftarrow> LockfileRun_exit e (skel_PluginMain e a cmd args) s;
          Some (case r of Inl code \<Rightarrow> code | Inr _ \<Rightarrow> 0, s) }"

section \<open>What the steps keep\<close>

context ip_registry
begin

lemma sync_all_keeps:
  assumes "ok s"
  shows "\<exists>s'. sync_all has track forget used xs s = (None, s') \<and> ok s' \<and> keep s' = keep s"
  using assms
proof (induction xs arbitrary: s)
  case (Cons x xs)
  obtain s1 where s1: "sync_ip has track forget (used x) x s = (None, s1)" "ok s1" "keep s1 = keep s"
    using sync_law [OF Cons.prems, of "used x" x] by blast
  with Cons.IH [OF s1(2)] show ?case by auto
qed simp

end

text \<open>An interface that the metadata service has described.\<close>

definition described :: "'w env \<Rightarrow> Interface \<Rightarrow> bool" where
  "described e i =
     (\<exists>s. (\<exists>mac. fst (getInterface e mac s) = Inr i) \<or> (\<exists>ifs. fst (GetInterfaces e s) = Inr ifs \<and> i \<in> set ifs))"

lemma FindFree_keeps:
  assumes "registry_ok e s"
  obtains free err s' where "FindFreeIPsAtIndex e index True s = ((free, err), s')" and "registry_ok e s'"
    and "client s' = client s" and "err = None \<or> free = []"
    and "\<forall>a \<in> set free. described e (arInterface a) \<and> arIP a \<in> set (ifIPv4s (arInterface a))"
proof -
  obtain r s1 where g: "GetInterfaces e s = (r, s1)" by fastforce
  obtain r2 s2 where a: "GetIPs e s1 = (r2, s2)" by fastforce
  have f1: "registry_ok e s1" "client s1 = client s"
    using GetInterfaces_frame [of e s] g registry_footprint(1) [of s1 s e] assms by simp_all
  have f2: "registry_ok e s2" "client s2 = client s"
    using GetIPs_frame [of e s1] a registry_footprint(1) [of s2 s1 e] f1 by simp_all
  show thesis
  proof (cases "\<exists>ifs assigned. r = Inr ifs \<and> r2 = Inr assigned")
    case True
    then obtain ifs assigned where i: "r = Inr ifs" "r2 = Inr assigned" by blast
    obtain s' where s': "sync_all (HasIP e) (TrackIP e) (ForgetIP e) (\<lambda>x. x \<in> set (map biIP assigned))
        (ips_at_index index ifs) s2 = (None, s')" "registry_ok e s'" "registry_rest e s' = registry_rest e s2"
      using reg.sync_all_keeps [OF f2(1)] by blast
    have "FindFreeIPsAtIndex e index True s = ((scan_free index (map biIP assigned) ifs, None), s')"
      using g a i free_on_interfaces_sync [OF s'(1), of "[]"] by (simp add: FindFreeIPsAtIndex_def)
    moreover have "client s' = client s" using s'(3) f2(2) by (simp add: registry_rest_def)
    moreover have "\<forall>i \<in> set ifs. described e i" using g i unfolding described_def by (metis fst_conv)
    ultimately show thesis using s'(2) that by (simp add: set_scan_free)
  next
    case False
    show thesis
    proof (cases r)
      case (Inl x)
      with g have "FindFreeIPsAtIndex e index True s = (([], Some x), s1)" by (simp add: FindFreeIPsAtIndex_def)
      then show thesis using f1 by (rule that) simp_all
    next
      case (Inr ifs)
      then obtain x where "r2 = Inl x" using False by (cases r2) auto
      with g a Inr have "FindFreeIPsAtIndex e index True s = (([], Some x), s2)" by (simp add: FindFreeIPsAtIndex_def)
      then show thesis using f2 by (rule that) simp_all
    qed
  qed
qed

text \<open>The first step, in full: what was free, the clock, what was old enough, and the new time.\<close>

lemma reuse_ip_law:
  assumes "registry_ok e s" and "range_ok e"
  obtains free err sf r s' where "FindFreeIPsAtIndex e (pcIfaceIndex conf) True s = ((free, err), sf)"
    and "reuse_ip e conf s = Some (Inr r, s')" and "registry_ok e s'" and "client s' = client s"
    and "r = find (\<lambda>a. \<exists>k u. registry_view e sf k = Some u \<and>
            time_Before u (time_Add (fst (os_Now (os e) (world sf))) (reuse_offset (pcReuseIPWait conf))) \<and>
            ParseIP (os_txt6 (os e)) k = Some (arIP a)) free"
    and "\<forall>a. r = Some a \<longrightarrow> described e (arInterface a) \<and> arIP a \<in> set (ifIPv4s (arInterface a))"
proof -
  obtain free err sf where f: "FindFreeIPsAtIndex e (pcIfaceIndex conf) True s = ((free, err), sf)" "registry_ok e sf"
      "client sf = client s" "err = None \<or> free = []"
      "\<forall>a \<in> set free. described e (arInterface a) \<and> arIP a \<in> set (ifIPv4s (arInterface a))"
    using FindFree_keeps [OF assms(1)] .
  let ?t = "time_Add (fst (os_Now (os e) (world sf))) (reuse_offset (pcReuseIPWait conf))"
  let ?old = "\<lambda>a. \<exists>k u. registry_view e sf k = Some u \<and> time_Before u ?t \<and> ParseIP (os_txt6 (os e)) k = Some (arIP a)"
  show thesis
  proof (cases "err = None \<or> free \<noteq> []")
    case False
    then have "free = []" by simp
    with False f have "reuse_ip e conf s = Some (Inr None, sf)" by (auto simp: reuse_ip_def)
    then show thesis using that [OF f(1)] f(2,3) \<open>free = []\<close> by simp
  next
    case True
    obtain now s1 where n: "ext (os_Now (os e)) sf = (now, s1)" by fastforce
    have now: "now = fst (os_Now (os e) (world sf))" using n by (simp add: ext_def)
    have s1: "registry_ok e s1" "registry_view e s1 = registry_view e sf" "client s1 = client s"
      using ext_frame [of "os_Now (os e)" sf] n registry_footprint [of s1 sf e] f by simp_all
    obtain ips s2 where b: "TrackedBefore e (time_Add now (reuse_offset (pcReuseIPWait conf))) s1 = Some (Inr ips, s2)"
        "registry_ok e s2" "client s2 = client s1"
        "set ips = {x. \<exists>k u. registry_view e s1 k = Some u \<and> time_Before u ?t \<and> ParseIP (os_txt6 (os e)) k = Some x}"
      using TrackedBefore_law [OF s1(1) assms(2)] now by blast
    have find: "find (\<lambda>a. arIP a \<in> set ips) free = find ?old free" by (simp add: b(4) s1(2))
    show thesis
    proof (cases "find ?old free")
      case None
      then have "reuse_ip e conf s = Some (Inr None, s2)" using True f(1) n b(1) find by (simp add: reuse_ip_def)
      then show thesis using that [OF f(1)] b(2,3) s1(3) None by simp
    next
      case (Some a)
      obtain s3 where s3: "TrackIP e (arIP a) s2 = (None, s3)" "registry_ok e s3" "registry_rest e s3 = registry_rest e s2"
        using reg.track_law [OF b(2), of "arIP a"] by blast
      have "reuse_ip e conf s = Some (Inr (Some a), s3)"
        using True f(1) n b(1) find Some s3(1) by (simp add: reuse_ip_def)
      moreover have "client s3 = client s" using s3(3) b(3) s1(3) by (simp add: registry_rest_def)
      moreover have "a \<in> set free" using Some by (auto simp: find_Some_iff)
      ultimately show thesis using that [OF f(1)] s3(2) Some f(5) by simp
    qed
  qed
qed

lemma claim_new_ips_intf:
  "claim_new_ips e intf newIntf ips rs s = ((rs', err), s') \<Longrightarrow> a \<in> set rs' \<Longrightarrow> a \<in> set rs \<or> arInterface a = newIntf"
proof (induction ips arbitrary: rs s)
  case (Cons x ips)
  show ?case
  proof (cases "x \<in> set (ifIPv4s intf)")
    case True
    with Cons show ?thesis by simp
  next
    case False
    obtain new er s1 where c: "claim_ip (HasIP e) (TrackIP e) x s = ((new, er), s1)" by (metis prod.collapse)
    show ?thesis
    proof (cases er)
      case None
      with Cons.IH [of "if new then rs @ [\<lparr>arIP = x, arInterface = newIntf\<rparr>] else rs" s1] Cons.prems False c
      show ?thesis by (cases new) auto
    next
      case (Some y)
      with Cons.prems False c show ?thesis by (cases new) auto
    qed
  qed
qed simp

lemma await_ips_intf:
  "await_ips e intf n rs s = ((rs', err), s') \<Longrightarrow> a \<in> set rs' \<Longrightarrow> a \<in> set rs \<or> described e (arInterface a)"
proof (induction n arbitrary: rs s)
  case (Suc n)
  obtain r s1 where g: "getInterface e (ifMac intf) s = (r, s1)" by fastforce
  show ?case
  proof (cases r)
    case (Inl x)
    with Suc g show ?thesis by simp
  next
    case (Inr newIntf)
    then have d: "described e newIntf" using g unfolding described_def by (metis fst_conv)
    show ?thesis
    proof (cases "length (ifIPv4s newIntf) = length (ifIPv4s intf)")
      case True
      with Suc g Inr show ?thesis by simp
    next
      case False
      obtain rs1 er s2 where c: "claim_new_ips e intf newIntf (ifIPv4s newIntf) rs s1 = ((rs1, er), s2)" by (metis prod.collapse)
      have "b \<in> set rs1 \<Longrightarrow> b \<in> set rs \<or> described e (arInterface b)" for b
        using claim_new_ips_intf [OF c, of b] d by auto
      with Suc.prems Suc.IH [of rs1] g Inr False c show ?thesis by (auto split: option.splits if_splits)
    qed
  qed
qed simp

lemma AllocateIPsOn_intf:
  assumes "AllocateIPsOn e intf batch s = Some ((rs, err), s')" and "a \<in> set rs"
  shows "described e (arInterface a)"
proof -
  obtain p er s1 where n: "newEC2 e s = Some ((p, er), s1)"
    using assms(1) by (cases "newEC2 e s") (auto simp: AllocateIPsOn_def)
  have er: "er = None" using assms n by (cases er) (auto simp: AllocateIPsOn_def)
  obtain l ler s2 where l: "ENILimits e s1 = Some ((l, ler), s2)"
    using assms(1) n er by (cases "ENILimits e s1") (auto simp: AllocateIPsOn_def)
  obtain er2 s3 where c: "ext (ec2_AssignPrivateIpAddresses (ec2 e) (ifID intf) (assign_count l intf batch)) s2 = (er2, s3)"
    by fastforce
  have p: p using assms(1) n er l by (cases p) (simp_all add: AllocateIPsOn_def ec2call_def)
  have "er2 = None" using assms n er l c p by (cases er2) (auto simp: AllocateIPsOn_def ec2call_def)
  then have "await_ips e intf 10 [] s3 = ((rs, err), s')"
    using assms(1) n er l c p by (simp add: AllocateIPsOn_def ec2call_def)
  from await_ips_intf [OF this assms(2)] show ?thesis by simp
qed

lemma FirstAvailable_intf:
  assumes "AllocateIPsFirstAvailableAtIndex e index batch s = Some ((rs, err), s')" and "a \<in> set rs"
  shows "described e (arInterface a)"
proof -
  obtain r s1 where g: "GetInterfaces e s = (r, s1)" by fastforce
  obtain ifs where i: "r = Inr ifs" using assms g by (cases r) (auto simp: AllocateIPsFirstAvailableAtIndex_def)
  obtain l ler s2 where l: "ENILimits e s1 = Some ((l, ler), s2)"
    using assms(1) g i by (cases "ENILimits e s1") (auto simp: AllocateIPsFirstAvailableAtIndex_def)
  obtain r3 s3 where n: "GetSubnetsForInstance e s2 = Some (r3, s3)"
    using assms(1) g i l by (cases "GetSubnetsForInstance e s2") (auto simp: AllocateIPsFirstAvailableAtIndex_def)
  obtain subnets where sn: "r3 = Inr subnets"
    using assms g i l n by (cases r3) (auto simp: AllocateIPsFirstAvailableAtIndex_def)
  obtain intf where "pick_interface (os_sort_subnets (os e) subnets) (candidates_at index l ifs) = Some intf"
    using assms g i l n sn
    by (cases "pick_interface (os_sort_subnets (os e) subnets) (candidates_at index l ifs)")
       (auto simp: AllocateIPsFirstAvailableAtIndex_def)
  then have "AllocateIPsOn e intf batch s3 = Some ((rs, err), s')"
    using assms(1) g i l n sn by (simp add: AllocateIPsFirstAvailableAtIndex_def)
  then show ?thesis using assms(2) by (rule AllocateIPsOn_intf)
qed

lemma NewInterfaceOnSubnet_intf:
  assumes "NewInterfaceOnSubnetAtIndex e index secGrps subnet batch s = Some (Inr intf, s')"
  shows "described e intf"
proof -
  have "\<exists>d w start ni s1. poll e d w start (settle_round e ni) s1 = Some (Some intf, s')"
    using assms unfolding NewInterfaceOnSubnetAtIndex_def Let_def
    by (simp only: run) (auto split: option.splits, blast)
  then obtain d w start ni s1 where p: "poll e d w start (settle_round e ni) s1 = Some (Some intf, s')" by blast
  obtain s2 where "settle_round e ni s2 = Some (Some intf, s')" using poll_result [OF p] by auto
  then have "\<exists>ifs. fst (GetInterfaces e s2) = Inr ifs \<and> intf \<in> set ifs"
    by (auto simp: settle_round_def bind_eq_Some_conv case_prod_unfold Let_def find_Some_iff
        split: sum.splits option.splits)
  then show ?thesis unfolding described_def by blast
qed

lemma NewInterface_intf:
  assumes "NewInterface e secGrps tags batch s = Some (Inr intf, s')"
  shows "described e intf"
proof -
  have "\<exists>i n s1. NewInterfaceOnSubnetAtIndex e i secGrps n batch s1 = Some (Inr intf, s')"
    using assms unfolding NewInterface_def Let_def by (simp only: run) auto
  then show ?thesis using NewInterfaceOnSubnet_intf by blast
qed

text \<open>A node on which the plugin can work: a running clock, Go's documented map iteration and sorting,
  and an instance that has at least its boot interface.\<close>

definition healthy :: "'w env \<Rightarrow> ('w \<Rightarrow> int) \<Rightarrow> bool" where
  "healthy e clk =
     (calm e clk \<and> range_ok e \<and> go_sort Subnets_Less (os_sort_subnets (os e)) \<and>
      (\<forall>s. fst (GetInterfaces e s) \<noteq> Inr []))"

lemma allocate_ip_law:
  assumes "healthy e clk" and "registry_ok e s" and "client_ready e (client s)"
  obtains r s' where "allocate_ip e conf s = Some (r, s')" and "registry_ok e s'" and "client_ready e (client s')"
    and "\<forall>a. r = Inr a \<longrightarrow> described e (arInterface a) \<and> arIP a \<in> set (ifIPv4s (arInterface a))"
proof -
  have h: "calm e clk" "\<And>s. fst (GetInterfaces e s) \<noteq> Inr []" "go_sort Subnets_Less (os_sort_subnets (os e))"
    using assms(1) by (simp_all add: healthy_def)
  obtain allocs err s1 where a: "AllocateIPsFirstAvailableAtIndex e (pcIfaceIndex conf) (pcIPBatchSize conf) s =
      Some ((allocs, err), s1)"
    using FirstAvailable_returns [OF assms(2,3) h(2)] by blast
  note fr = FirstAvailable_result [OF assms(2,3) a]
  show thesis
  proof (cases "err = None")
    case True
    then obtain x xs where x: "allocs = x # xs" using fr by (cases allocs) auto
    have "arIP x \<in> set (ifIPv4s (arInterface x))" using fr True x by (auto simp: fresh_result_def)
    with FirstAvailable_intf [OF a, of x] x True a fr show thesis
      by (intro that [of "Inr x" s1]) (simp_all add: allocate_ip_def)
  next
    case False
    then have e0: "allocs = []" using fr by simp
    obtain r s2 where n: "NewInterface e (case pcSecGroupIds conf of None \<Rightarrow> [] | Some l \<Rightarrow> l) (pcSubnetTags conf)
        (pcIPBatchSize conf) s1 = Some (r, s2)" "registry_ok e s2" "client_ready e (client s2)"
      using NewInterface_law [OF h(1) _ _ h(2,3), of s1] fr by blast
    let ?r = "case r of Inl x \<Rightarrow> Inl (Wrap ''unable to create a new elastic network interface'' x)
       | Inr newIf \<Rightarrow> (case ifIPv4s newIf of
           [] \<Rightarrow> Inl (Errorf ''unable to create a new elastic network interface due to <nil>'')
         | x # _ \<Rightarrow> Inr \<lparr>arIP = x, arInterface = newIf\<rparr>)"
    have "allocate_ip e conf s = Some (?r, s2)" using a False e0 n(1) by (simp add: allocate_ip_def)
    moreover have "described e (arInterface b) \<and> arIP b \<in> set (ifIPv4s (arInterface b))" if "?r = Inr b" for b
      using that NewInterface_intf n(1) by (auto split: sum.splits list.splits)
    ultimately show thesis using n(2,3) that by blast
  qed
qed

lemma HasBug_ready:
  assumes "client_ready e (client s)"
  obtains bug s1 where "HasBugBrokenVPCCidrs e s = Some (bug, s1)" and "client_ready e (client s1)" and "same_registry e s s1"
proof -
  obtain d s1 where g: "getIDDoc e s = ((Some d, None), s1)" "client_ready e (client s1)" "fs_files s1 = fs_files s" "fs_dirs s1 = fs_dirs s"
    using assms by (rule getIDDoc_ready)
  have "HasBugBrokenVPCCidrs e s = Some (hd (split_on (CHR ''.'') (idInstanceType d)) \<in> set broken_families, s1)"
    using g(1) by (simp add: HasBugBrokenVPCCidrs_def InstanceType_def)
  then show thesis using that g(2) same_registryI [OF g(3,4)] by blast
qed

lemma vpc_file_neq:
  "registry_json e \<noteq> path_Join (cachePath e) (vpc_cidr_key v)"
  "registry_json e \<noteq> path_Join (cachePath e) (vpc_peers_key v)"
  by (simp_all add: registry_json_def registryPath_def cachePath_def path_Join_def vpc_cidr_key_def vpc_peers_key_def)

lemma VPC_registry:
  "DescribeVPCCIDRs e v s = Some (r, s') \<Longrightarrow> same_registry e s s'"
  "DescribeVPCPeerCIDRs e v s = Some (r, s') \<Longrightarrow> same_registry e s s'"
  using VPC_files vpc_file_neq VPC_dirs unfolding same_registry_def by (metis (no_types))+

lemma route_cidrs_law:
  assumes "registry_ok e s" and "client_ready e (client s)"
  obtains r s' where "route_cidrs e conf intf s = Some (r, s')" and "registry_ok e s'" and "client_ready e (client s')"
    and "registry_view e s' = registry_view e s"
proof -
  obtain bug s1 where h: "HasBugBrokenVPCCidrs e s = Some (bug, s1)" and c1: "client_ready e (client s1)"
      and m1: "same_registry e s s1"
    using assms(2) by (rule HasBug_ready)
  obtain r2 s2 where q: "(if bug then DescribeVPCCIDRs e (ifVpcID intf) s1
      else Some (Inr (map Some (ifVpcCidrs intf)), s1)) = Some (r2, s2)" "client_ready e (client s2)" "same_registry e s s2"
  proof (cases bug)
    case True
    obtain r2 s2 where v: "DescribeVPCCIDRs e (ifVpcID intf) s1 = Some (r2, s2)" using VPC_returns(1) [OF c1] by blast
    from True that [of r2 s2] v VPC_client(1) [OF v c1] same_registry_trans [OF m1 VPC_registry(1) [OF v]]
    show ?thesis by simp
  qed (use that c1 m1 in simp)
  obtain r3 s3 where p: "(if pcRouteToVPCPeers conf then DescribeVPCPeerCIDRs e (ifVpcID intf) s2 else Some (Inr [], s2)) =
      Some (r3, s3)" "client_ready e (client s3)" "same_registry e s s3"
  proof (cases "pcRouteToVPCPeers conf")
    case True
    obtain r3 s3 where v: "DescribeVPCPeerCIDRs e (ifVpcID intf) s2 = Some (r3, s3)" using VPC_returns(2) [OF q(2)] by blast
    from True that [of r3 s3] v VPC_client(2) [OF v q(2)] same_registry_trans [OF q(3) VPC_registry(2) [OF v]]
    show ?thesis by simp
  qed (use that q in simp)
  have "(\<exists>r. route_cidrs e conf intf s = Some (r, s2)) \<or> (\<exists>r. route_cidrs e conf intf s = Some (r, s3))"
    using h q(1) p(1) unfolding route_cidrs_def
    by (cases r2; cases r3) (simp_all split del: if_split)
  with same_registryD [OF q(3)] same_registryD [OF p(3)] q(2) p(2) assms(1) that show thesis by metis
qed

lemma routes_via_map: "routes_via gw (map Some dsts) = Some (map (\<lambda>d. \<lparr>rtDst = d, rtGW = gw\<rparr>) dsts)"
  by (induction dsts) simp_all

lemma routes_via_Some:
  assumes "routes_via gw cidrs = Some routes"
  obtains dsts where "cidrs = map Some dsts" and "routes = map (\<lambda>d. \<lparr>rtDst = d, rtGW = gw\<rparr>) dsts"
proof -
  have "None \<notin> set cidrs" using assms by (induction gw cidrs arbitrary: routes rule: routes_via.induct) auto
  then have "cidrs = map Some (map the cidrs)" by (induction cidrs) auto
  then obtain dsts where d: "cidrs = map Some dsts" by blast
  with assms that show thesis by (simp add: routes_via_map)
qed

text \<open>What a successful \<^verbatim>\<open>ADD\<close> has done: it printed the result for the address, with the gateway and
  name server that AWS reserves, one route per block through the gateway, after it took the address out
  of the registry.\<close>

definition handed_out :: "'w env \<Rightarrow> 'w cni_api \<Rightarrow> PluginConf \<Rightarrow> AllocationResult \<Rightarrow> error option \<times> 'w st \<Rightarrow> bool" where
  "handed_out e a conf alloc out =
     (\<exists>gw dns subnet dsts s0 s1 s2.
        net_plus (ifSubnetCidr (arInterface alloc)) 1 = Some gw \<and>
        net_plus (ifVpcPrimaryCidr (arInterface alloc)) 2 = Some dns \<and>
        ifSubnetCidr (arInterface alloc) = Some subnet \<and>
        route_cidrs e conf (arInterface alloc) s0 = Some (Inr (map Some dsts), s1) \<and>
        ForgetIP e (arIP alloc) s1 = (None, s2) \<and> registry_ok e s2 \<and>
        registry_view e s2 = (registry_view e s1)(ip_key e (arIP alloc) := None) \<and>
        out = ext (cni_PrintResult a (ipam_result e alloc gw dns (net_prefix subnet)
                (map (\<lambda>d. \<lparr>rtDst = d, rtGW = gw\<rparr>) dsts)) (pcCNIVersion conf)) s2)"

lemma finish_add_result:
  assumes "finish_add e a conf alloc s = Some (r, s')" and "registry_ok e s" and "client_ready e (client s)"
  shows "registry_ok e s' \<and> client_ready e (client s') \<and>
    (handed_out e a conf alloc (r, s') \<and> registry_view e s' (ip_key e (arIP alloc)) = None \<or>
     r \<noteq> None \<and> registry_view e s' = registry_view e s)"
proof -
  let ?i = "arInterface alloc"
  obtain gw where g1: "net_plus (ifSubnetCidr ?i) 1 = Some gw"
    using assms(1) by (cases "net_plus (ifSubnetCidr ?i) 1") (simp_all add: finish_add_def)
  obtain dns where g2: "net_plus (ifVpcPrimaryCidr ?i) 2 = Some dns"
    using assms(1) g1 by (cases "net_plus (ifVpcPrimaryCidr ?i) 2") (simp_all add: finish_add_def)
  obtain subnet where g3: "ifSubnetCidr ?i = Some subnet" using g1 by (cases "ifSubnetCidr ?i") (simp_all add: net_plus_def)
  obtain r1 s1 where u: "UpInterfacePoll e (LocalName ?i) s = Some (r1, s1)"
    using assms(1) g1 g2 g3 by (cases "UpInterfacePoll e (LocalName ?i) s") (auto simp: finish_add_def)
  have uf: "fs_files s1 = fs_files s" "fs_dirs s1 = fs_dirs s" "client s1 = client s"
    using UpInterfacePoll_frame [OF u] by simp_all
  have k1: "registry_ok e s1" "client_ready e (client s1)" "registry_view e s1 = registry_view e s"
    using registry_footprint(1) [OF uf(1,2) assms(2)] registry_footprint(2) [OF uf(1)] uf(3) assms(3) by simp_all
  obtain r2 s2 where q: "route_cidrs e conf ?i s1 = Some (r2, s2)" "registry_ok e s2" "client_ready e (client s2)"
      "registry_view e s2 = registry_view e s1"
    using route_cidrs_law [OF k1(1,2)] .
  consider x where "r1 = Some x" | x where "r1 = None" "r2 = Inl x" | cidrs where "r1 = None" "r2 = Inr cidrs"
    by (cases r1; cases r2) auto
  then show ?thesis
  proof cases
    case 1
    with assms(1) g1 g2 g3 u have "r \<noteq> None" "s' = s1" by (auto simp: finish_add_def)
    then show ?thesis using k1 by simp
  next
    case 2
    with assms(1) g1 g2 g3 u q(1) have "r = Some x" "s' = s2" by (simp_all add: finish_add_def)
    then show ?thesis using k1 q by simp
  next
    case 3
    obtain s3 where f: "ForgetIP e (arIP alloc) s2 = (None, s3)" "registry_ok e s3"
        "registry_view e s3 = (registry_view e s2)(ip_key e (arIP alloc) := None)" "registry_rest e s3 = registry_rest e s2"
      using reg.forget_law [OF q(2), of "arIP alloc"] by blast
    obtain routes where v: "routes_via gw cidrs = Some routes"
      using assms(1) g1 g2 g3 u q(1) 3 by (cases "routes_via gw cidrs") (simp_all add: finish_add_def)
    then obtain dsts where d: "cidrs = map Some dsts" "routes = map (\<lambda>d. \<lparr>rtDst = d, rtGW = gw\<rparr>) dsts"
      by (rule routes_via_Some)
    let ?print = "cni_PrintResult a (ipam_result e alloc gw dns (net_prefix subnet) routes) (pcCNIVersion conf)"
    have out: "(r, s') = ext ?print s3"
      using assms(1) g1 g2 g3 u q(1) 3 v f(1) by (simp add: finish_add_def)
    have h: "handed_out e a conf alloc (r, s')"
      unfolding handed_out_def using g1 g2 g3 q(1) 3 f d out by blast
    have s': "s' = snd (ext ?print s3)" using out by (metis snd_conv)
    have "registry_ok e s'" "registry_view e s' = registry_view e s3" "client s' = client s2"
      using registry_footprint [of s' s3 e] f(2,4) by (simp_all add: s' registry_rest_def)
    with h f(3) q(3) show ?thesis by simp
  qed
qed

section \<open>The address that is handed out\<close>

text \<open>An address whose recorded release lies more than the given number of seconds before the clock.\<close>

definition aged :: "'w env \<Rightarrow> 'w st \<Rightarrow> int \<Rightarrow> ip \<Rightarrow> bool" where
  "aged e s wait x =
     (\<exists>u. registry_view e s (ip_key e x) = Some u \<and> t_ns u < t_ns (fst (os_Now (os e) (world s))) - wait * ns_per_s)"

lemma reuse_offset_exact:
  "0 \<le> wait \<Longrightarrow> wait * ns_per_s < 2 ^ 63 \<Longrightarrow> reuse_offset wait = - (wait * ns_per_s)"
  unfolding reuse_offset_def by (subst wrap64_id, simp_all add: ns_per_s_def wrap64_id)

text \<open>C4: a reused address is free and has rested. When the metadata service lists the interfaces
  \<open>ifs\<close> and netlink the addresses \<open>assigned\<close>, the first step of \<^verbatim>\<open>ADD\<close> on a working registry of IPv4
  addresses answers an address of an interface from the configured index on that nothing on the node
  uses and whose release was recorded more than \<^verbatim>\<open>reuseIPWait\<close> seconds ago; it answers none only if
  there is no such address.\<close>

theorem reuse_ip_aged:
  assumes "registry_ok e s" and "range_ok e"
    and "GetInterfaces e s = (Inr ifs, s1)" and "GetIPs e s1 = (Inr assigned, s2)"
    and "\<forall>i \<in> set ifs. \<forall>x \<in> set (ifIPv4s i). is_V4 x"
    and "\<forall>k. registry_view e s k \<noteq> None \<longrightarrow> (\<exists>x. is_V4 x \<and> k = ip_key e x)"
    and "0 \<le> pcReuseIPWait conf" and "pcReuseIPWait conf * ns_per_s < 2 ^ 63"
  shows "\<exists>r s'. reuse_ip e conf s = Some (Inr r, s') \<and> registry_ok e s' \<and>
    (let sf = snd (FindFreeIPsAtIndex e (pcIfaceIndex conf) True s);
         candidate = (\<lambda>i x. i \<in> set ifs \<and> pcIfaceIndex conf \<le> ifNumber i \<and> x \<in> set (ifIPv4s i) \<and>
                            x \<notin> biIP ` set assigned \<and> aged e sf (pcReuseIPWait conf) x)
     in case r of
          Some a \<Rightarrow> candidate (arInterface a) (arIP a)
        | None \<Rightarrow> \<not> (\<exists>i x. candidate i x))"
proof -
  obtain sf where f: "FindFreeIPsAtIndex e (pcIfaceIndex conf) True s =
        ((scan_free (pcIfaceIndex conf) (map biIP assigned) ifs, None), sf)"
      "\<forall>k. k \<notin> ip_key e ` set (ips_at_index (pcIfaceIndex conf) ifs) \<longrightarrow> registry_view e sf k = registry_view e s k"
    by (rule FindFree_law [OF assms(1,3-5), of "pcIfaceIndex conf"])
  let ?free = "scan_free (pcIfaceIndex conf) (map biIP assigned) ifs"
  let ?t = "time_Add (fst (os_Now (os e) (world sf))) (reuse_offset (pcReuseIPWait conf))"
  let ?old = "\<lambda>a. \<exists>k u. registry_view e sf k = Some u \<and> time_Before u ?t \<and> ParseIP (os_txt6 (os e)) k = Some (arIP a)"
  obtain free err sf' r s' where r: "FindFreeIPsAtIndex e (pcIfaceIndex conf) True s = ((free, err), sf')"
      "reuse_ip e conf s = Some (Inr r, s')" "registry_ok e s'"
      "r = find (\<lambda>a. \<exists>k u. registry_view e sf' k = Some u \<and>
          time_Before u (time_Add (fst (os_Now (os e) (world sf'))) (reuse_offset (pcReuseIPWait conf))) \<and>
          ParseIP (os_txt6 (os e)) k = Some (arIP a)) free"
    by (rule reuse_ip_law [OF assms(1,2)])
  have r': "r = find ?old ?free" using r(1,4) f(1) by simp
  have canon: "\<exists>x. is_V4 x \<and> k = ip_key e x" if "registry_view e sf k = Some u" for k u
  proof (cases "k \<in> ip_key e ` set (ips_at_index (pcIfaceIndex conf) ifs)")
    case True
    then show ?thesis using assms(5) by (fastforce simp: ips_at_index_def)
  next
    case False
    with f(2) that assms(6) show ?thesis by auto
  qed
  have key: "ParseIP (os_txt6 (os e)) (ip_key e x) = Some x" if "is_V4 x" for x
    using that by (cases x) (simp_all add: is_V4_def)
  have old: "?old a \<longleftrightarrow> aged e sf (pcReuseIPWait conf) (arIP a)" if "is_V4 (arIP a)" for a
    using canon key that reuse_offset_exact [OF assms(7,8)]
    by (fastforce simp: aged_def time_Before_def time_Add_def)
  have v4: "is_V4 (arIP a)" if "a \<in> set ?free" for a using that assms(5) by (auto simp: set_scan_free)
  have r'': "r = find (\<lambda>a. aged e sf (pcReuseIPWait conf) (arIP a)) ?free"
    unfolding r' using old [OF v4] by (intro find_cong refl)
  have "case r of
      Some a \<Rightarrow> a \<in> set ?free \<and> aged e sf (pcReuseIPWait conf) (arIP a)
    | None \<Rightarrow> \<forall>a \<in> set ?free. \<not> aged e sf (pcReuseIPWait conf) (arIP a)"
    unfolding r'' by (auto simp: find_Some_iff find_None_iff split: option.splits)
  moreover have "\<exists>a. a \<in> set ?free \<and> arInterface a = i \<and> arIP a = x"
    if "i \<in> set ifs" "pcIfaceIndex conf \<le> ifNumber i" "x \<in> set (ifIPv4s i)" "x \<notin> biIP ` set assigned" for i x
    using that by (intro exI [of _ "\<lparr>arIP = x, arInterface = i\<rparr>"]) (simp add: set_scan_free)
  ultimately show ?thesis
    using r(2,3) f(1) by (intro exI [of _ r] exI [of _ s']) (cases r; force simp: set_scan_free Let_def)
qed

theorem reuse_ip_aged_witness:
  "\<exists>r s'. reuse_ip demo (default_conf\<lparr>pcIfaceIndex := 1\<rparr>) (demo_registry [(''10.0.1.7'', epoch_entry)]) =
     Some (Inr r, s') \<and> registry_ok demo s' \<and>
     (\<forall>a. r = Some a \<longrightarrow> arInterface a = demo_if1 [V4 10 0 1 7] \<and> arIP a = V4 10 0 1 7)"
proof -
  let ?m = "[(''10.0.1.7'', epoch_entry)]"
  let ?s = "demo_registry ?m"
  let ?c = "default_conf\<lparr>pcIfaceIndex := 1\<rparr>"
  let ?b = "\<lparr>biIP = V4 10 0 0 4, biPrefix = 24, biLabel = ''eth1''\<rparr>"
  let ?ifs = "[demo_if0, demo_if1 [V4 10 0 1 7]]"
  have wf: "wf_entries ?m" by (rule wf_epoch) simp_all
  have w: "world ?s = demo_w" by (simp add: demo_registry_def demo_s_def)
  have p: "ParseIP (os_txt6 (os demo)) ''10.0.1.7'' = Some (V4 10 0 1 7)" by code_simp
  have k: "ip_key demo (V4 10 0 1 7) = ''10.0.1.7''" by code_simp
  have i: "GetInterfaces demo ?s = (Inr ?ifs, ?s)"
    using demo_GetInterfaces [of ?s] by (simp add: w demo_w_def p map_filter_simps newline_def)
  have a: "GetIPs demo ?s = (Inr [?b], ?s)" by (simp add: demo_GetIPs w) (simp add: demo_w_def)
  have v: "\<forall>i \<in> set ?ifs. \<forall>x \<in> set (ifIPv4s i). is_V4 x" by (simp add: demo_if0_def demo_if1_def is_V4_def)
  have "registry_view demo ?s j \<noteq> None \<Longrightarrow> j = ip_key demo (V4 10 0 1 7)" for j
    unfolding demo_registry_view [OF wf] k by (simp add: norm_entries_def view_of_def split: if_splits)
  then have keys: "\<forall>j. registry_view demo ?s j \<noteq> None \<longrightarrow> (\<exists>x. is_V4 x \<and> j = ip_key demo x)"
    by (metis is_V4_def ip.simps(5))
  have c: "0 \<le> pcReuseIPWait ?c" "pcReuseIPWait ?c * ns_per_s < 2 ^ 63" "pcIfaceIndex ?c = 1"
    by (simp_all add: default_conf_def ns_per_s_def)
  show ?thesis
    using reuse_ip_aged [OF demo_registry_ok [OF wf] demo_range_ok i a v keys c(1,2)] unfolding c(3)
    by (elim exE conjE, intro exI conjI) (assumption, assumption, auto simp: Let_def demo_if0_def demo_if1_def)
qed

section \<open>ADD as a whole\<close>

lemma reuse_ip_other:
  assumes "reuse_ip e conf s = Some (r, s')" and "other_file e p"
  shows "fs_files s' p = fs_files s p"
proof -
  have p: "p \<noteq> registry_json e" using assms(2) by (simp add: other_file_def)
  have f: "FindFreeIPsAtIndex e i True s = (q, s1) \<Longrightarrow> fs_files s1 p = fs_files s p" for i q s1
    using FindFree_other [OF p, of i True s] by simp
  have n: "ext f s = (q, s1) \<Longrightarrow> fs_files s1 = fs_files s" for f :: "_ \<Rightarrow> gotime \<times> _" and q s s1
    using ext_frame(2) [of f s] by simp
  have t: "TrackIP e x s = (q, s1) \<Longrightarrow> fs_files s1 p = fs_files s p" for x q s s1
    using registry_ops_other(1) [OF p, of x s] by simp
  show ?thesis
    using assms(1) unfolding reuse_ip_def Let_def
    by (simp only: run option.inject prod.inject) (auto dest!: f n t TrackedBefore_other [OF _ p])
qed

lemma allocate_ip_other:
  assumes "allocate_ip e conf s = Some (r, s')" and "other_file e p"
  shows "fs_files s' p = fs_files s p"
  using assms(1) unfolding allocate_ip_def Let_def
  by (simp only: run option.inject prod.inject)
     (auto dest!: FirstAvailable_other [OF _ assms(2)] NewInterface_other [OF _ assms(2)])

text \<open>Some address was chosen, or \<^verbatim>\<open>ADD\<close> ended with an error before that.\<close>

lemma ipam_add_alloc:
  assumes "healthy e clk" and "registry_ok e s" and "client_ready e (client s)"
    and "parseConfig (caStdinData args) = Inr conf"
  obtains (err) x s1 where "ipam_cmdAdd e a args s = Some (Some x, s1)" and "registry_ok e s1" and "client_ready e (client s1)"
  | (alloc) alloc s1 where "ipam_cmdAdd e a args s = finish_add e a conf alloc s1" and "registry_ok e s1"
      and "client_ready e (client s1)" and "described e (arInterface alloc)" and "arIP alloc \<in> set (ifIPv4s (arInterface alloc))"
      and "\<And>p. other_file e p \<Longrightarrow> fs_files s1 p = fs_files s p"
proof -
  have range: "range_ok e" using assms(1) by (simp add: healthy_def)
  obtain r s1 where r: "reuse_ip e conf s = Some (Inr r, s1)" "registry_ok e s1" "client s1 = client s"
      "\<forall>al. r = Some al \<longrightarrow> described e (arInterface al) \<and> arIP al \<in> set (ifIPv4s (arInterface al))"
    using reuse_ip_law [OF assms(2) range] by metis
  show thesis
  proof (cases r)
    case (Some al)
    with r assms(3,4) alloc [of al s1] reuse_ip_other [OF r(1)] show thesis by (simp add: ipam_cmdAdd_def)
  next
    case None
    have c1: "client_ready e (client s1)" using r(3) assms(3) by simp
    obtain r2 s2 where n: "allocate_ip e conf s1 = Some (r2, s2)" "registry_ok e s2" "client_ready e (client s2)"
        "\<forall>al. r2 = Inr al \<longrightarrow> described e (arInterface al) \<and> arIP al \<in> set (ifIPv4s (arInterface al))"
      by (rule allocate_ip_law [OF assms(1) r(2) c1, of conf])
    show thesis
    proof (cases r2)
      case (Inl x)
      with None r(1) n assms(4) err [of x s2] show thesis by (simp add: ipam_cmdAdd_def)
    next
      case (Inr al)
      with None r(1) n assms(4) alloc [of al s2] reuse_ip_other [OF r(1)] allocate_ip_other [OF n(1)]
      show thesis by (simp add: ipam_cmdAdd_def)
    qed
  qed
qed

section \<open>ADD returns\<close>

text \<open>The metadata service gives every interface IPv4 blocks.\<close>

definition v4_net :: "ipnet option \<Rightarrow> bool" where
  "v4_net n = (case n of Some n \<Rightarrow> is_V4 (net_ip n) | None \<Rightarrow> False)"

definition v4_text :: "txt6 \<Rightarrow> string \<Rightarrow> bool" where
  "v4_text t v = (v \<noteq> [] \<and> (case ParseCIDR t v of Inl _ \<Rightarrow> True | Inr (_, n) \<Rightarrow> is_V4 (net_ip n)))"

definition v4_blocks :: "'w env \<Rightarrow> bool" where
  "v4_blocks e =
     (\<forall>mac w v. \<forall>k \<in> {''subnet-ipv4-cidr-block'', ''vpc-ipv4-cidr-block''}.
        fst (md_GetMetadata (md e) (''network/interfaces/macs/'' @ mac @ ''//'' @ k) w) = Inr v \<longrightarrow> v4_text (os_txt6 (os e)) v)"

lemma net_plus_v4: "v4_net n \<Longrightarrow> \<exists>x. net_plus n k = Some x"
  by (auto simp: v4_net_def net_plus_def is_V4_def split: option.splits ip.splits)

lemma run_parsers_append:
  "run_parsers e (ps @ qs) i s =
     (case run_parsers e ps i s of (Inl err, s) \<Rightarrow> (Inl err, s) | (Inr i, s) \<Rightarrow> run_parsers e qs i s)"
  by (induction ps arbitrary: i s) (auto simp: case_prod_unfold Let_def split: sum.splits)

text \<open>What every parser of a list keeps, the list keeps; what one parser ensures, the run ensures.\<close>

lemma run_parsers_keeps:
  assumes "\<And>k f i v i'. (k, f) \<in> set ps \<Longrightarrow> P i \<Longrightarrow> f i v = Inr i' \<Longrightarrow> P i'"
  shows "P i \<Longrightarrow> fst (run_parsers e ps i s) = Inr i' \<Longrightarrow> P i'"
  using assms
proof (induction ps arbitrary: i s)
  case (Cons p ps)
  obtain k f where p: "p = (k, f)" by fastforce
  let ?m = "metadataParser e i k f s"
  obtain j where j: "fst ?m = Inr j" "fst (run_parsers e ps j (snd ?m)) = Inr i'"
    using Cons.prems(2) by (auto simp: p case_prod_unfold Let_def split: sum.splits)
  have "P j"
    using j(1) Cons.prems(1) Cons.prems(3) [of k f i _ j]
    by (auto simp: p metadataParser_def ext_def Let_def split: sum.splits if_splits)
  with Cons.IH [OF _ j(2)] Cons.prems(3) show ?case by (meson list.set_intros(2))
qed simp

lemma metadataParser_v4:
  assumes "v4_blocks e" and "k \<in> {''subnet-ipv4-cidr-block'', ''vpc-ipv4-cidr-block''}"
    and "\<And>i v i'. f i v = Inr i' \<Longrightarrow> (\<exists>x n. ParseCIDR (os_txt6 (os e)) v = Inr (x, n) \<and> field i' = Some n)"
    and "fst (metadataParser e i k f s) = Inr i'"
  shows "v4_net (field i')"
proof -
  obtain v where v: "fst (md_GetMetadata (md e) (''network/interfaces/macs/'' @ ifMac i @ ''//'' @ k) (world s)) = Inr v"
      "(if v \<noteq> [] then f i v else Inr i) = Inr i'"
    using assms(4) by (auto simp: metadataParser_def ext_def Let_def split: sum.splits)
  have "v4_text (os_txt6 (os e)) v" using assms(1,2) v(1) unfolding v4_blocks_def by blast
  then show ?thesis using v(2) assms(3) [of i v i'] by (auto simp: v4_text_def v4_net_def)
qed

lemma run_parsers_ensures:
  assumes "\<And>i s j. fst (metadataParser e i k f s) = Inr j \<Longrightarrow> P j"
    and "\<And>k f i v j. (k, f) \<in> set qs \<Longrightarrow> P i \<Longrightarrow> f i v = Inr j \<Longrightarrow> P j"
    and "fst (run_parsers e (ps @ (k, f) # qs) i s) = Inr i'"
  shows "P i'"
proof -
  obtain j s1 where j: "fst (run_parsers e ((k, f) # qs) j s1) = Inr i'"
    using assms(3) by (auto simp: run_parsers_append case_prod_unfold split: sum.splits)
  let ?m = "metadataParser e j k f s1"
  obtain l where l: "fst ?m = Inr l" "fst (run_parsers e qs l (snd ?m)) = Inr i'"
    using j by (auto simp: case_prod_unfold Let_def split: sum.splits)
  show ?thesis by (rule run_parsers_keeps [where P = P, OF _ assms(1) [OF l(1)] l(2)]) (rule assms(2))
qed

lemma set_vpc_cidrs_nets:
  "set_vpc_cidrs t cs i = Inr j \<Longrightarrow> ifSubnetCidr j = ifSubnetCidr i \<and> ifVpcPrimaryCidr j = ifVpcPrimaryCidr i"
  by (induction t cs i rule: set_vpc_cidrs.induct) (auto split: sum.splits)

lemma getInterface_v4:
  assumes "v4_blocks e" and "fst (getInterface e mac s) = Inr i"
  shows "v4_net (ifSubnetCidr i) \<and> v4_net (ifVpcPrimaryCidr i)"
proof -
  let ?t = "os_txt6 (os e)"
  obtain j where j: "fst (run_parsers e (interface_parsers ?t) (empty_Interface mac) s) = Inr j"
      "ifSubnetCidr i = ifSubnetCidr j" "ifVpcPrimaryCidr i = ifVpcPrimaryCidr j"
    using assms(2) by (auto simp: getInterface_def case_prod_unfold Let_def split: sum.splits option.splits)
  have "v4_net (ifSubnetCidr j)"
  proof (rule run_parsers_ensures [where k = "''subnet-ipv4-cidr-block''" and f = "set_subnet_cidr ?t"])
    show "fst (run_parsers e (take 4 (interface_parsers ?t) @ (''subnet-ipv4-cidr-block'', set_subnet_cidr ?t) #
        drop 5 (interface_parsers ?t)) (empty_Interface mac) s) = Inr j"
      using j(1) by (simp add: interface_parsers_def)
    show "v4_net (ifSubnetCidr l)" if "fst (metadataParser e i ''subnet-ipv4-cidr-block'' (set_subnet_cidr ?t) s) = Inr l" for i s l
      by (rule metadataParser_v4 [OF assms(1) _ _ that]) (auto simp: set_subnet_cidr_def split: sum.splits)
  qed (auto simp: interface_parsers_def set_vpc_cidr_def dest: set_vpc_cidrs_nets split: sum.splits)
  moreover have "v4_net (ifVpcPrimaryCidr j)"
  proof (rule run_parsers_ensures [where k = "''vpc-ipv4-cidr-block''" and f = "set_vpc_cidr ?t"])
    show "fst (run_parsers e (take 6 (interface_parsers ?t) @ (''vpc-ipv4-cidr-block'', set_vpc_cidr ?t) #
        drop 7 (interface_parsers ?t)) (empty_Interface mac) s) = Inr j"
      using j(1) by (simp add: interface_parsers_def)
    show "v4_net (ifVpcPrimaryCidr l)" if "fst (metadataParser e i ''vpc-ipv4-cidr-block'' (set_vpc_cidr ?t) s) = Inr l" for i s l
      by (rule metadataParser_v4 [OF assms(1) _ _ that]) (auto simp: set_vpc_cidr_def split: sum.splits)
  qed (auto simp: interface_parsers_def dest: set_vpc_cidrs_nets)
  ultimately show ?thesis using j by simp
qed

lemma get_each_interface_from:
  "fst (get_each_interface e ms is s) = Inr ifs \<Longrightarrow> i \<in> set ifs \<Longrightarrow> i \<in> set is \<or> (\<exists>mac s. fst (getInterface e mac s) = Inr i)"
proof (induction ms arbitrary: "is" s)
  case (Cons m ms)
  show ?case
  proof (cases "m = []")
    case True
    with Cons show ?thesis by simp
  next
    case False
    let ?g = "getInterface e (butlast m) s"
    obtain j where j: "fst ?g = Inr j" "fst (get_each_interface e ms (is @ [j]) (snd ?g)) = Inr ifs"
      using Cons.prems(1) False by (auto simp: case_prod_unfold Let_def split: sum.splits)
    from Cons.IH [OF j(2) Cons.prems(2)] j(1) show ?thesis by auto
  qed
qed simp

lemma described_v4:
  assumes "v4_blocks e" and "\<And>is. set (os_sort_ifaces (os e) is) = set is" and "described e i"
  shows "v4_net (ifSubnetCidr i) \<and> v4_net (ifVpcPrimaryCidr i)"
proof -
  have "\<exists>mac s. fst (getInterface e mac s) = Inr i" if g: "fst (GetInterfaces e s) = Inr ifs" "i \<in> set ifs" for s ifs
  proof -
    obtain ms s1 js where m: "fst (get_each_interface e ms [] s1) = Inr js" "ifs = os_sort_ifaces (os e) js"
      using g(1) by (auto simp: GetInterfaces_def case_prod_unfold Let_def split: if_splits sum.splits)
    then show ?thesis using g(2) assms(2) get_each_interface_from [OF m(1), of i] by simp
  qed
  with assms(1,3) getInterface_v4 show ?thesis unfolding described_def by blast
qed

text \<open>A \<^verbatim>\<open>nil\<close> block can only come out of a cache file that holds a \<^verbatim>\<open>null\<close>.\<close>

definition null_cached :: "'w env \<Rightarrow> string \<Rightarrow> 'w st \<Rightarrow> bool" where
  "null_cached e key s =
     (\<exists>doc t cs. fs_files s (path_Join (cachePath e) key) = Some (Some doc) \<and>
        decode_cacheable (decode_cidrs (os_txt6 (os e))) doc [] = Some (t, cs) \<and> None \<in> set cs)"

lemma cache_Get_found:
  "fst (cache_Get e key dec z s) = (CacheFound, x) \<Longrightarrow>
     \<exists>doc t. fs_files s (path_Join (cachePath e) key) = Some (Some doc) \<and> decode_cacheable dec doc z = Some (t, x)"
  by (auto simp: cache_Get_def os_Open_def ext_def case_prod_unfold Let_def bind_eq_Some_conv
      split: if_splits option.splits sum.splits)

lemma fetched_blocks:
  "parse_associated t bs = Inr cs \<Longrightarrow> None \<notin> set cs" "None \<notin> set (parse_all t bs')" "parse_routes t rs = Inr cs \<Longrightarrow> None \<notin> set cs"
proof -
  show "parse_associated t bs = Inr cs \<Longrightarrow> None \<notin> set cs"
    by (induction t bs arbitrary: cs rule: parse_associated.induct) (auto split: if_splits sum.splits)
  show "None \<notin> set (parse_all t bs')" by (induction bs') (auto split: sum.splits)
  show "parse_routes t rs = Inr cs \<Longrightarrow> None \<notin> set cs"
    by (induction rs arbitrary: cs) (auto split: sum.splits)
qed

lemma VPC_null:
  "DescribeVPCCIDRs e v s = Some (Inr cs, s') \<Longrightarrow> None \<in> set cs \<Longrightarrow> null_cached e (vpc_cidr_key v) s"
  "DescribeVPCPeerCIDRs e v s = Some (Inr cs, s') \<Longrightarrow> None \<in> set cs \<Longrightarrow> null_cached e (vpc_peers_key v) s"
proof -
  assume n: "None \<in> set cs"
  show "null_cached e (vpc_cidr_key v) s" if "DescribeVPCCIDRs e v s = Some (Inr cs, s')"
    using that unfolding DescribeVPCCIDRs_def
  proof (cases rule: cached_cases)
    case (1 x)
    then show ?thesis using n cache_Get_found [OF 1(1)] unfolding null_cached_def by auto
  next
    case (2 s1)
    then have "\<exists>bs. parse_associated (os_txt6 (os e)) bs = Inr cs"
      unfolding DescribeVPCCIDRs_aws_def by (simp only: run option.inject prod.inject) blast
    then show ?thesis using n fetched_blocks(1) by blast
  qed
  show "null_cached e (vpc_peers_key v) s" if "DescribeVPCPeerCIDRs e v s = Some (Inr cs, s')"
    using that unfolding DescribeVPCPeerCIDRs_def
  proof (cases rule: cached_cases)
    case (1 x)
    then show ?thesis using n cache_Get_found [OF 1(1)] unfolding null_cached_def by auto
  next
    case (2 s1)
    then have "\<exists>bs. parse_all (os_txt6 (os e)) bs = cs"
      unfolding DescribeVPCPeerCIDRs_aws_def by (simp only: run option.inject prod.inject) blast
    then show ?thesis using n fetched_blocks(2) by blast
  qed
qed

lemma null_cached_cong:
  "fs_files s' (path_Join (cachePath e) key) = fs_files s (path_Join (cachePath e) key) \<Longrightarrow>
     null_cached e key s' = null_cached e key s"
  by (simp add: null_cached_def)

lemma route_cidrs_null:
  assumes "route_cidrs e conf intf s = Some (Inr cidrs, s')" and "None \<in> set cidrs"
  shows "null_cached e (vpc_cidr_key (ifVpcID intf)) s \<or> null_cached e (vpc_peers_key (ifVpcID intf)) s"
proof -
  obtain bug s1 where b: "HasBugBrokenVPCCidrs e s = Some (bug, s1)"
    using assms(1) by (cases "HasBugBrokenVPCCidrs e s") (auto simp: route_cidrs_def)
  let ?q = "if bug then DescribeVPCCIDRs e (ifVpcID intf) s1 else Some (Inr (map Some (ifVpcCidrs intf)), s1)"
  obtain c1 s2 where q: "?q = Some (Inr c1, s2)"
    using assms(1) b unfolding route_cidrs_def by (cases ?q) (auto split: sum.splits)
  let ?p = "if pcRouteToVPCPeers conf then DescribeVPCPeerCIDRs e (ifVpcID intf) s2 else Some (Inr [], s2)"
  obtain c2 s3 where p: "?p = Some (Inr c2, s3)"
    using assms(1) b q unfolding route_cidrs_def by (cases ?p) (auto split: sum.splits)
  obtain c3 where c: "parse_routes (os_txt6 (os e)) (pcRouteToCidrs conf) = Inr c3" "cidrs = c1 @ c2 @ c3"
    using assms(1) b q p unfolding route_cidrs_def by (auto split: sum.splits)
  from c fetched_blocks(3) assms(2) have "None \<in> set c1 \<or> None \<in> set c2" by auto
  moreover have "fs_files s1 = fs_files s"
    using b getIDDoc_frame(1) [of e s] unfolding HasBugBrokenVPCCidrs_def InstanceType_def Let_def
    by (simp only: run option.inject prod.inject) (elim exE conjE disjE; simp)
  moreover have ne: "path_Join (cachePath e) (vpc_peers_key (ifVpcID intf)) \<noteq> path_Join (cachePath e) (vpc_cidr_key (ifVpcID intf))"
    by (simp add: path_Join_def vpc_cidr_key_def vpc_peers_key_def)
  moreover have "fs_files s2 (path_Join (cachePath e) (vpc_peers_key (ifVpcID intf))) =
      fs_files s1 (path_Join (cachePath e) (vpc_peers_key (ifVpcID intf)))"
    using q VPC_files(1) [OF _ ne] by (auto split: if_splits)
  ultimately have k: "null_cached e (vpc_cidr_key (ifVpcID intf)) s1 = null_cached e (vpc_cidr_key (ifVpcID intf)) s"
      "null_cached e (vpc_peers_key (ifVpcID intf)) s2 = null_cached e (vpc_peers_key (ifVpcID intf)) s"
      and n: "None \<in> set c1 \<or> None \<in> set c2"
    by (simp_all add: null_cached_def)
  have "None \<in> set c1 \<Longrightarrow> null_cached e (vpc_cidr_key (ifVpcID intf)) s1"
    using q by (cases bug) (auto intro: VPC_null(1))
  moreover have "None \<in> set c2 \<Longrightarrow> null_cached e (vpc_peers_key (ifVpcID intf)) s2"
    using p by (cases "pcRouteToVPCPeers conf") (auto intro: VPC_null(2))
  ultimately show ?thesis using k n by blast
qed

lemma finish_add_returns:
  assumes "calm e clk" and "registry_ok e s" and "client_ready e (client s)"
    and "v4_net (ifSubnetCidr (arInterface alloc))" and "v4_net (ifVpcPrimaryCidr (arInterface alloc))"
    and "\<forall>v. \<not> null_cached e (vpc_cidr_key v) s \<and> \<not> null_cached e (vpc_peers_key v) s"
  shows "\<exists>r s'. finish_add e a conf alloc s = Some (r, s')"
proof -
  let ?i = "arInterface alloc"
  obtain gw dns where g: "net_plus (ifSubnetCidr ?i) 1 = Some gw" "net_plus (ifVpcPrimaryCidr ?i) 2 = Some dns"
    using net_plus_v4 assms(4,5) by metis
  obtain subnet where n: "ifSubnetCidr ?i = Some subnet" using assms(4) by (auto simp: v4_net_def split: option.splits)
  obtain r1 s1 where u: "UpInterfacePoll e (LocalName ?i) s = Some (r1, s1)"
    using UpInterfacePoll_calm [OF assms(1)] by blast
  have k1: "registry_ok e s1" "client_ready e (client s1)"
    using UpInterfacePoll_frame [OF u] registry_footprint(1) [of s1 s e] assms(2,3) by simp_all
  obtain r2 s2 where q: "route_cidrs e conf ?i s1 = Some (r2, s2)" "registry_ok e s2"
    using route_cidrs_law [OF k1] by metis
  have "\<exists>routes. routes_via gw cidrs = Some routes" if "r2 = Inr cidrs" for cidrs
  proof -
    have "null_cached e key s1 = null_cached e key s" for key
      using UpInterfacePoll_frame [OF u] by (intro null_cached_cong) simp
    then have "None \<notin> set cidrs" using route_cidrs_null q(1) that assms(6) by blast
    then have "cidrs = map Some (map the cidrs)" by (induction cidrs) auto
    then show ?thesis by (metis routes_via_map)
  qed
  then show ?thesis
    using g n u q(1) by (cases r1; cases r2) (auto simp: finish_add_def case_prod_unfold Let_def split: option.splits)
qed

lemma vpc_other_file:
  "other_file e (path_Join (cachePath e) (vpc_cidr_key v))" "other_file e (path_Join (cachePath e) (vpc_peers_key v))"
  using vpc_file_neq [of e v]
  by (simp_all add: other_file_def, auto simp: path_Join_def limits_key_def vpc_cidr_key_def vpc_peers_key_def)

lemma ipam_add_total:
  assumes "healthy e clk" and "registry_ok e s" and "client_ready e (client s)"
    and "v4_blocks e" and "go_sort Interfaces_Less (os_sort_ifaces (os e))"
    and "\<forall>v. \<not> null_cached e (vpc_cidr_key v) s \<and> \<not> null_cached e (vpc_peers_key v) s"
  shows "\<exists>r s'. ipam_cmdAdd e a args s = Some (r, s')"
proof (cases "parseConfig (caStdinData args)")
  case (Inl x)
  then show ?thesis by (simp add: ipam_cmdAdd_def)
next
  case (Inr conf)
  have calm: "calm e clk" using assms(1) by (simp add: healthy_def)
  show ?thesis
  proof (cases rule: ipam_add_alloc [OF assms(1-3) Inr, of a])
    case (2 al s1)
    have v4: "v4_net (ifSubnetCidr (arInterface al))" "v4_net (ifVpcPrimaryCidr (arInterface al))"
      using described_v4 [OF assms(4) go_sort.sort_set [OF assms(5)] 2(4)] by simp_all
    have "\<forall>v. \<not> null_cached e (vpc_cidr_key v) s1 \<and> \<not> null_cached e (vpc_peers_key v) s1"
      using assms(6) 2(6) null_cached_cong vpc_other_file by metis
    from finish_add_returns [OF calm 2(2,3) v4 this] 2(1) show ?thesis by simp
  qed simp
qed

text \<open>C6: \<^verbatim>\<open>ADD\<close> always answers. A process starts with an empty AWS client. On a healthy node (the clock runs and standard
  error takes the reports) with a working registry, when the metadata service answers the request for the
  identity document and gives every interface IPv4 blocks, and no cache file of a VPC's blocks holds a \<^verbatim>\<open>null\<close>, \<^verbatim>\<open>ADD\<close>
  returns from that start, with a result or an error: no loop runs forever, no slice is indexed out of range and no
  \<^verbatim>\<open>nil\<close> is dereferenced. The hypotheses on standard error, the identity document, the IPv4 blocks and
  \<^verbatim>\<open>null\<close> rule out panics that the code does have.\<close>

theorem ipam_add_returns:
  assumes "healthy e clk" and "registry_ok e s" and "client s = fresh_client" and "iddoc_ok e"
    and "v4_blocks e" and "go_sort Interfaces_Less (os_sort_ifaces (os e))"
    and "\<forall>v. \<not> null_cached e (vpc_cidr_key v) s \<and> \<not> null_cached e (vpc_peers_key v) s"
  shows "\<exists>r s'. ipam_cmdAdd e a args s = Some (r, s')"
proof -
  have "client_ready e (client s)" using assms(3,4) by simp
  from ipam_add_total [OF assms(1,2) this assms(5-7)] show ?thesis .
qed

lemma demo_healthy: "healthy demo (\<lambda>w. d_sec w * ns_per_s)"
  using demo_calm demo_range_ok demo_sort_subnets demo_interfaces by (simp add: healthy_def)

lemma demo_block_texts:
  "\<forall>(p, v) \<in> set demo_meta. \<forall>k \<in> {''subnet-ipv4-cidr-block'', ''vpc-ipv4-cidr-block''}.
     take (length k) (rev p) = rev k \<longrightarrow> v \<in> {''10.0.0.0/24'', ''10.0.1.0/24'', ''10.0.0.0/16''}"
  by (simp add: demo_meta_def)

lemma demo_v4_blocks: "v4_blocks demo"
  unfolding v4_blocks_def
proof (intro allI ballI impI)
  fix mac w v and k :: string
  let ?p = "''network/interfaces/macs/'' @ mac @ ''//'' @ k"
  assume k: "k \<in> {''subnet-ipv4-cidr-block'', ''vpc-ipv4-cidr-block''}"
    and v: "fst (md_GetMetadata (md demo) ?p w) = Inr v"
  have r: "take (length k) (rev ?p) = rev k" by simp
  have "?p \<noteq> ''network/interfaces/macs/a1//local-ipv4s''"
  proof
    assume "?p = ''network/interfaces/macs/a1//local-ipv4s''"
    from r [unfolded this] k show False by auto
  qed
  then have "map_of demo_meta ?p = Some v"
    using v by (simp add: demo_def demo_md_def split: option.splits if_splits)
  then have "(?p, v) \<in> set demo_meta" by (rule map_of_SomeD)
  with demo_block_texts k r have "v \<in> {''10.0.0.0/24'', ''10.0.1.0/24'', ''10.0.0.0/16''}" by fastforce
  then show "v4_text (os_txt6 (os demo)) v" by (auto simp: v4_text_def demo_texts is_V4_def)
qed

lemma demo_no_null:
  "\<not> null_cached demo (vpc_cidr_key v) (demo_ready [])" "\<not> null_cached demo (vpc_peers_key v) (demo_ready [])"
  by (simp_all add: null_cached_def demo_ready_def demo_registry_def demo_s_def registry_json_def registryPath_def
      cachePath_def path_Join_def demo_def demo_os_def run_path_def vpc_cidr_key_def vpc_peers_key_def)

theorem ipam_add_returns_witness: "\<exists>r s'. ipam_cmdAdd demo demo_cni demo_args (demo_ready []) = Some (r, s')"
proof -
  have wf: "wf_entries []" by (simp add: wf_entries_def)
  have c: "client (demo_ready []) = fresh_client" by (simp add: demo_ready_def)
  show ?thesis
    by (rule ipam_add_returns [OF demo_healthy demo_ready_ok(1) [OF wf] c demo_iddoc_ok demo_v4_blocks demo_sort_ifaces])
       (simp add: demo_no_null)
qed

text \<open>C5: what \<^verbatim>\<open>ADD\<close> hands out. On a healthy node with a working registry and a ready client, a run of
  \<^verbatim>\<open>ADD\<close> that returns leaves both in order. If it returns without an error, it printed a result for one
  address of an interface that the metadata service described: the address with the subnet's prefix
  length, the gateway one above the subnet's base, the name server two above the VPC's base, and one
  route through that gateway for each block that the configuration asks for; the address was taken out
  of the registry before, and is not in it now.\<close>

theorem ipam_add_hands_out:
  assumes "healthy e clk" and "registry_ok e s" and "client_ready e (client s)"
    and "parseConfig (caStdinData args) = Inr conf" and "ipam_cmdAdd e a args s = Some (r, s')"
  shows "registry_ok e s' \<and> client_ready e (client s') \<and>
    (r = None \<longrightarrow> (\<exists>alloc. described e (arInterface alloc) \<and> arIP alloc \<in> set (ifIPv4s (arInterface alloc)) \<and>
       handed_out e a conf alloc (None, s') \<and> registry_view e s' (ip_key e (arIP alloc)) = None))"
proof (cases rule: ipam_add_alloc [OF assms(1-4), of a])
  case (1 x s1)
  with assms(5) show ?thesis by auto
next
  case (2 al s1)
  then have "finish_add e a conf al s1 = Some (r, s')" using assms(5) by simp
  from finish_add_result [OF this 2(2,3)] 2(4,5) show ?thesis by blast
qed

lemma eq_fold_conf [simp]:
  "\<not> eq_fold ''cniVersion'' ''name''" "eq_fold ''cniVersion'' ''cniVersion''"
  "\<not> eq_fold ''secGroupIds'' ''name''" "\<not> eq_fold ''secGroupIds'' ''cniVersion''" "eq_fold ''secGroupIds'' ''secGroupIds''"
  "\<not> eq_fold ''interfaceIndex'' ''name''" "\<not> eq_fold ''interfaceIndex'' ''cniVersion''"
  "\<not> eq_fold ''interfaceIndex'' ''secGroupIds''" "\<not> eq_fold ''interfaceIndex'' ''subnetTags''"
  "eq_fold ''interfaceIndex'' ''interfaceIndex''"
  by code_simp+

lemma demo_parseConfig:
  "parseConfig (caStdinData demo_args) =
     Inr (default_conf\<lparr>pcCNIVersion := ''0.3.1'', pcSecGroupIds := Some [''sg-1''], pcIfaceIndex := 1\<rparr>)"
  by (simp add: parseConfig_def demo_args_def decode_struct_def PluginConf_field_def decode_strings_def default_conf_def
      in_int64_def)

theorem ipam_add_hands_out_witness:
  "\<exists>r s'. ipam_cmdAdd demo demo_cni demo_args (demo_ready []) = Some (r, s') \<and> registry_ok demo s' \<and>
     client_ready demo (client s') \<and>
     (r = None \<longrightarrow> (\<exists>alloc :: AllocationResult. registry_view demo s' (ip_key demo (arIP alloc)) = None \<and>
        arIP alloc \<in> set (ifIPv4s (arInterface alloc))))"
proof -
  have wf: "wf_entries []" by (simp add: wf_entries_def)
  note ok = demo_ready_ok(1) [OF wf] demo_ready_ok(2)
  obtain r s' where run: "ipam_cmdAdd demo demo_cni demo_args (demo_ready []) = Some (r, s')"
    using ipam_add_total [OF demo_healthy ok demo_v4_blocks demo_sort_ifaces] demo_no_null by blast
  note h = ipam_add_hands_out [OF demo_healthy ok demo_parseConfig run]
  have "\<exists>alloc :: AllocationResult. registry_view demo s' (ip_key demo (arIP alloc)) = None \<and> arIP alloc \<in> set (ifIPv4s (arInterface alloc))"
    if "r = None"
    using h that by auto
  with run h show ?thesis by auto
qed

section \<open>The addresses AWS reserves\<close>

lemma uint_byte_of_int: "uint (word_of_int i :: byte) = i mod 256"
  by (simp add: uint_word_of_int)

lemma bytes_val:
  fixes i :: int
  assumes "0 \<le> i" "i < 2 ^ 32"
  shows "2 ^ 24 * (i div 2 ^ 24 mod 256) + 2 ^ 16 * (i div 2 ^ 16 mod 256) + 2 ^ 8 * (i div 2 ^ 8 mod 256) + i mod 256 = i"
proof -
  define q8 q16 q24 where "q8 = i div 2 ^ 8" and "q16 = q8 div 2 ^ 8" and "q24 = q16 div 2 ^ 8"
  have q: "i div 2 ^ 16 = q16" "i div 2 ^ 24 = q24"
    by (simp_all add: q8_def q16_def q24_def zdiv_zmult2_eq [symmetric])
  have "q24 < 256" "0 \<le> q24" using assms by (simp_all add: q(2) [symmetric] div_less_iff_less_mult)
  then have "q24 mod 256 = q24" by simp
  moreover have "q8 = 256 * q16 + q8 mod 256" "q16 = 256 * q24 + q16 mod 256" "i = 256 * q8 + i mod 256"
    by (simp_all add: q8_def q16_def q24_def)
  ultimately show ?thesis unfolding q q8_def [symmetric] by simp
qed

lemma ip4_val_bounds: "0 \<le> ip4_val a b c d \<and> ip4_val a b c d < 2 ^ 32"
proof -
  have "0 \<le> uint x \<and> uint x \<le> 255" for x :: byte using unsigned_less [of x, where ?'a = int] by simp
  from this [of a] this [of b] this [of c] this [of d] show ?thesis by (simp add: ip4_val_def)
qed

text \<open>A network address that leaves at least two host bits: adding less than four to its last byte
  adds to the address, and stays in the network.\<close>

lemma net_plus_in_net:
  assumes "B = v div 2 ^ h * 2 ^ h" and "0 \<le> v" and "v < 2 ^ 32" and "2 \<le> h" and "0 \<le> k" and "k < 4"
    and "ip4_of_val B = V4 a b c d"
  shows "uint (d + word_of_int k) = uint d + k" and "ip4_val a b c (d + word_of_int k) = B + k"
    and "ip4_of_val (ip4_val a b c (d + word_of_int k) div 2 ^ h * 2 ^ h) = V4 a b c d"
proof -
  have "0 \<le> v mod 2 ^ h" by simp
  then have le: "B \<le> v" using assms(1) div_mult_mod_eq [of v "2 ^ h"] by linarith
  have "0 \<le> v div 2 ^ h" using assms(2) by (simp add: pos_imp_zdiv_nonneg_iff)
  then have B: "0 \<le> B" "B < 2 ^ 32" using assms(1,3) le by simp_all
  have "(4 :: int) dvd 2 ^ h" using assms(4) le_imp_power_dvd [of 2 h "2 :: int"] by simp
  then have m4: "B mod 4 = 0" using assms(1) by (simp add: dvd_imp_mod_0)
  have d: "d = word_of_int B" "a = word_of_int (B div 2 ^ 24)" "b = word_of_int (B div 2 ^ 16)" "c = word_of_int (B div 2 ^ 8)"
    using assms(7) by (simp_all add: ip4_of_val_def)
  have "B mod 256 mod 4 = 0" using m4 by (simp add: mod_mod_cancel)
  moreover have "0 \<le> B mod 256" "B mod 256 < 256" by simp_all
  ultimately have lt: "B mod 256 + k < 256" using assms(6) by presburger
  have "(B + k) mod 256 = B mod 256 + k"
    using lt assms(5) by (metis add_nonneg_nonneg mod_add_left_eq mod_pos_pos_trivial pos_mod_sign zero_less_numeral)
  then show u: "uint (d + word_of_int k) = uint d + k"
    using d(1) by (simp add: uint_byte_of_int flip: of_int_add)
  have "ip4_val a b c d = B" unfolding ip4_val_def d uint_byte_of_int by (rule bytes_val [OF B])
  with u show v: "ip4_val a b c (d + word_of_int k) = B + k" by (simp add: ip4_val_def)
  have "(4 :: int) \<le> 2 ^ h" using assms(4) power_increasing [of 2 h "2 :: int"] by simp
  then have "(B + k) div 2 ^ h = B div 2 ^ h" using assms(1,5,6) by (simp add: div_add1_eq)
  then show "ip4_of_val (ip4_val a b c (d + word_of_int k) div 2 ^ h * 2 ^ h) = V4 a b c d"
    unfolding v using assms(1,7) by simp
qed

text \<open>C34: the reserved addresses do not wrap around. For a block that \<^verbatim>\<open>net.ParseCIDR\<close> reads from text,
  of IPv4 and with at least two host bits, the gateway and the name server that the plugin computes by
  adding one and two to the last byte of the base address are the base plus one and the base plus two
  as numbers, and both lie in the block.\<close>

theorem reserved_addresses_in_net:
  assumes "ParseCIDR t text = Inr (x, n)" and "is_V4 x" and "net_prefix n \<le> 30" and "k \<in> {1, 2}"
  shows "\<exists>a b c d. net_ip n = V4 a b c d \<and> net_plus (Some n) (word_of_int k) = Some (V4 a b c (d + word_of_int k)) \<and>
    ip4_val a b c (d + word_of_int k) = ip4_val a b c d + k \<and> ip_in_net (V4 a b c (d + word_of_int k)) n"
proof -
  obtain xa xb xc xd where x: "x = V4 xa xb xc xd" using assms(2) by (cases x) (simp_all add: is_V4_def)
  let ?v = "ip4_val xa xb xc xd"
  let ?h = "32 - net_prefix n"
  let ?B = "?v div 2 ^ ?h * 2 ^ ?h"
  have n: "net_ip n = ip4_of_val ?B"
    using assms(1) x by (auto simp: ParseCIDR_def Let_def mask_ip_def split: if_splits option.splits)
  obtain a b c d where d: "ip4_of_val ?B = V4 a b c d" by (simp add: ip4_of_val_def)
  note bounds = ip4_val_bounds [of xa xb xc xd]
  have h: "2 \<le> ?h" and k: "0 \<le> k" "k < 4" using assms(3,4) by auto
  note p = net_plus_in_net [OF refl conjunct1 [OF bounds] conjunct2 [OF bounds] h k d]
  have p0: "ip4_val a b c d = ?B"
    using net_plus_in_net(2) [OF refl conjunct1 [OF bounds] conjunct2 [OF bounds] h, of 0 a b c d] d by simp
  have "ip_in_net (V4 a b c (d + word_of_int k)) n"
    using p(3) n d by (simp add: ip_in_net_def mask_ip_def)
  with n d p(2) p0 show ?thesis by (simp add: net_plus_def)
qed

theorem reserved_addresses_in_net_witness:
  "\<exists>a b c d. V4 10 0 1 0 = V4 a b c d \<and> ip_in_net (V4 a b c (d + word_of_int 1)) \<lparr>net_ip = V4 10 0 1 0, net_prefix = 24\<rparr>"
proof -
  have v: "is_V4 (V4 10 0 1 0)" by (simp add: is_V4_def)
  show ?thesis
    using reserved_addresses_in_net [OF demo_texts(2) v, of 1] by auto
qed

section \<open>DEL\<close>

lemma release_ips_law:
  assumes "registry_ok e s" and "client_ready e (client s)"
  shows "\<exists>r s'. release_ips e skip xs s = Some (r, s') \<and> registry_ok e s' \<and> client_ready e (client s') \<and>
    (\<forall>k. k \<notin> ip_key e ` set xs \<longrightarrow> registry_view e s' k = registry_view e s k) \<and>
    (r = None \<longrightarrow> (\<forall>x \<in> set xs. registry_view e s' (ip_key e x) \<noteq> None)) \<and> (skip \<longrightarrow> r = None)"
  using assms
proof (induction xs arbitrary: s)
  case (Cons x xs)
  obtain r1 s1 where d: "(if skip then Some (None, s) else DeallocateIP e x s) = Some (r1, s1)" "registry_ok e s1"
      "client_ready e (client s1)" "registry_view e s1 = registry_view e s" "skip \<longrightarrow> r1 = None"
    using Cons.prems DeallocateIP_keeps [OF Cons.prems, of x] by (cases skip) auto
  obtain s2 where t: "TrackIP e x s1 = (None, s2)" "registry_ok e s2" "registry_rest e s2 = registry_rest e s1"
      "registry_view e s2 = (registry_view e s1)(ip_key e x \<mapsto> track_stamp e s1)"
    using reg.track_law [OF d(2), of x] by blast
  have c2: "client_ready e (client s2)" using t(3) d(3) by (simp add: registry_rest_def)
  obtain r s' where r: "release_ips e skip xs s2 = Some (r, s')" "registry_ok e s'" "client_ready e (client s')"
      "\<forall>k. k \<notin> ip_key e ` set xs \<longrightarrow> registry_view e s' k = registry_view e s2 k"
      "r = None \<longrightarrow> (\<forall>x \<in> set xs. registry_view e s' (ip_key e x) \<noteq> None)" "skip \<longrightarrow> r = None"
    using Cons.IH [OF t(2) c2] by blast
  show ?case
  proof (cases r1)
    case (Some y)
    then show ?thesis using d by (cases skip) auto
  next
    case None
    have "release_ips e skip (x # xs) s = Some (r, s')" using d(1) None t(1) r(1) by simp
    moreover have "registry_view e s' (ip_key e x) \<noteq> None" if "r = None"
      using r(4,5) that t(4) by (cases "ip_key e x \<in> ip_key e ` set xs") auto
    ultimately show ?thesis using r t(4) d(4) by auto
  qed
qed simp

text \<open>C7: \<^verbatim>\<open>DEL\<close> returns the container's addresses to the pool. With a working registry and a ready
  client it returns; if it answers no error, every IPv4 address that the container's interface had is
  tracked in the registry, and with \<^verbatim>\<open>skipDeallocation\<close> it never answers an error. The registry keeps
  working and its entries for other addresses stay as they were.\<close>

theorem ipam_del_tracks:
  assumes "registry_ok e s" and "client_ready e (client s)" and "parseConfig (caStdinData args) = Inr conf"
    and "container_addrs e (caNetns args) (caIfName args) s = (addrs, s1)"
  shows "\<exists>r s'. ipam_cmdDel e args s = Some (r, s') \<and> registry_ok e s' \<and> client_ready e (client s') \<and>
    (r = None \<longrightarrow> (\<forall>x \<in> set addrs. registry_view e s' (ip_key e x) \<noteq> None)) \<and>
    (pcSkipDeallocation conf \<longrightarrow> r = None) \<and>
    (\<forall>k. k \<notin> ip_key e ` set addrs \<longrightarrow> registry_view e s' k = registry_view e s k)"
proof -
  have "fs_files (snd (container_addrs e p n s)) = fs_files s" "fs_dirs (snd (container_addrs e p n s)) = fs_dirs s"
    "client (snd (container_addrs e p n s)) = client s" for p n
    by (simp_all add: container_addrs_def case_prod_unfold Let_def split: option.splits sum.splits)
  then have f: "fs_files s1 = fs_files s" "fs_dirs s1 = fs_dirs s" "client s1 = client s" by (metis assms(4) snd_conv)+
  have s1: "registry_ok e s1" "client_ready e (client s1)" "registry_view e s1 = registry_view e s"
    using registry_footprint(1) [OF f(1,2) assms(1)] registry_footprint(2) [OF f(1)] f(3) assms(2) by simp_all
  have run: "ipam_cmdDel e args s = release_ips e (pcSkipDeallocation conf) addrs s1"
    using assms(3,4) by (simp add: ipam_cmdDel_def)
  show ?thesis
    using release_ips_law [OF s1(1,2), of "pcSkipDeallocation conf" addrs] unfolding run s1(3) by blast
qed

theorem ipam_del_tracks_witness:
  "\<exists>r s'. ipam_cmdDel demo demo_args (demo_ready []) = Some (r, s') \<and> registry_ok demo s' \<and>
     (r = None \<longrightarrow> registry_view demo s' (ip_key demo (V4 10 0 0 4)) \<noteq> None)"
proof -
  have wf: "wf_entries []" by (simp add: wf_entries_def)
  have x: "ext (nl_WithNetNSPath (nl demo) p) s = (None, s)"
    "ext (nl_LinkByName (nl demo) p n) s = (Inr \<lparr>lkName = n, lkIndex = 1, lkMTU = 9001, lkMac = ''a1''\<rparr>, s)"
    "ext (nl_AddrList4 (nl demo) p l) s =
       (Inr (map (\<lambda>x. \<lparr>adIP = x, adPrefix = 24, adLabel = ''eth1''\<rparr>) (d_bound (world s))), s)" for p n l s
    by (simp_all add: ext_def demo_def demo_nl_def)
  have c: "container_addrs demo (caNetns demo_args) (caIfName demo_args) (demo_ready []) = ([V4 10 0 0 4], demo_ready [])"
    by (simp add: container_addrs_def x demo_ready_ok(4)) (simp add: demo_w_def)
  show ?thesis
    using ipam_del_tracks [OF demo_ready_ok(1) [OF wf] demo_ready_ok(2) demo_parseConfig c] by auto
qed

section \<open>The configuration\<close>

lemma decode_members_inv:
  "decode_members fld ms x = Some y \<Longrightarrow> P x \<Longrightarrow>
     (\<And>k v x y. (k, v) \<in> set ms \<Longrightarrow> P x \<Longrightarrow> fld k v x = Some y \<Longrightarrow> P y) \<Longrightarrow> P y"
proof (induction ms arbitrary: x)
  case (Cons m ms)
  obtain k v where m: "m = (k, v)" by fastforce
  obtain z where z: "fld k v x = Some z" "decode_members fld ms z = Some y"
    using Cons.prems(1) m by (auto split: option.splits)
  show ?case
    by (rule Cons.IH [OF z(2)]) (use Cons.prems(2,3) z(1) m in auto)
qed simp

definition conf_typed :: "PluginConf \<Rightarrow> bool" where
  "conf_typed c = (in_int64 (pcIfaceIndex c) \<and> in_int64 (pcReuseIPWait c) \<and> in_int64 (pcIPBatchSize c) \<and>
     distinct (map fst (pcSubnetTags c)))"

lemma decode_int_range: "decode_int v x = Some y \<Longrightarrow> in_int64 x \<Longrightarrow> in_int64 y"
  by (auto simp: decode_int_def in_int64_def split: json.splits if_splits)

lemma decode_string_map_distinct:
  assumes "decode_string_map v m = Some m'" and "distinct (map fst m)"
  shows "distinct (map fst m')"
proof -
  have "distinct (map fst m')"
    if "decode_members (\<lambda>k v m. map_option (\<lambda>s. map_put k s m) (decode_string v [])) ms m = Some m'" for ms
    by (rule decode_members_inv [where P = "\<lambda>m. distinct (map fst m)", OF that assms(2)]) (auto simp: distinct_put)
  with assms show ?thesis by (auto simp: decode_string_map_def split: json.splits)
qed

lemma PluginConf_field_typed: "PluginConf_field k v c = Some c' \<Longrightarrow> conf_typed c \<Longrightarrow> conf_typed c'"
  unfolding PluginConf_field_def conf_typed_def
  by (auto dest: decode_int_range decode_string_map_distinct split: if_splits)

text \<open>C35: an accepted configuration is well-typed. Whatever JSON document comes in, a configuration that
  \<^verbatim>\<open>parseConfig\<close> accepts names security groups, its numbers are 64-bit integers and its subnet tags have
  distinct keys; when the document has no member \<^verbatim>\<open>reuseIPWait\<close>, or none \<^verbatim>\<open>ipBatchSize\<close>, the defaults 60
  and 1 hold.\<close>

theorem parseConfig_typed:
  assumes "parseConfig stdin = Inr conf"
  shows "pcSecGroupIds conf \<noteq> None \<and> conf_typed conf \<and>
    (\<forall>ms. stdin = Some (JObj ms) \<longrightarrow>
       ((\<forall>k v. (k, v) \<in> set ms \<longrightarrow> \<not> eq_fold k ''reuseIPWait'') \<longrightarrow> pcReuseIPWait conf = 60) \<and>
       ((\<forall>k v. (k, v) \<in> set ms \<longrightarrow> \<not> eq_fold k ''ipBatchSize'') \<longrightarrow> pcIPBatchSize conf = 1))"
proof -
  have sg: "pcSecGroupIds conf \<noteq> None" using assms by (auto simp: parseConfig_def split: option.splits if_splits)
  obtain js where js: "stdin = Some js" "decode_struct PluginConf_field js default_conf = Some conf"
    using assms by (auto simp: parseConfig_def bind_eq_Some_conv split: option.splits if_splits)
  have "pcSecGroupIds default_conf = None" by (simp add: default_conf_def)
  then have "js \<noteq> JNull" using js(2) sg by (auto simp: decode_struct_def)
  then obtain ms where ms: "js = JObj ms" "decode_members PluginConf_field ms default_conf = Some conf"
    using js(2) by (cases js) (simp_all add: decode_struct_def)
  have "conf_typed default_conf" by (simp add: conf_typed_def default_conf_def in_int64_def)
  then have typed: "conf_typed conf"
    by (rule decode_members_inv [where P = conf_typed, OF ms(2)]) (rule PluginConf_field_typed)
  have wait: "pcReuseIPWait conf = 60" if "\<forall>k v. (k, v) \<in> set ms \<longrightarrow> \<not> eq_fold k ''reuseIPWait''"
    by (rule decode_members_inv [OF ms(2), where P = "\<lambda>c. pcReuseIPWait c = 60"])
       (use that in \<open>auto simp: default_conf_def PluginConf_field_def split: if_splits\<close>)
  have batch: "pcIPBatchSize conf = 1" if "\<forall>k v. (k, v) \<in> set ms \<longrightarrow> \<not> eq_fold k ''ipBatchSize''"
    by (rule decode_members_inv [OF ms(2), where P = "\<lambda>c. pcIPBatchSize c = 1"])
       (use that in \<open>auto simp: default_conf_def PluginConf_field_def split: if_splits\<close>)
  from sg typed wait batch js(1) ms(1) show ?thesis by auto
qed

theorem parseConfig_typed_witness:
  "\<exists>conf. parseConfig (caStdinData demo_args) = Inr conf \<and> pcSecGroupIds conf \<noteq> None \<and> conf_typed conf"
  using parseConfig_typed [OF demo_parseConfig] demo_parseConfig by blast

end
