(* ===== verification/Tool.thy ===== *)
theory Tool
  imports Footprint Lock
begin

text \<open>
  \<^verbatim>\<open>cmd/cni-ipvlan-vpc-k8s-tool\<close>: the command line tool of the operators. An action gets the arguments and
  flags that the \<^verbatim>\<open>cli\<close> library has parsed (\<open>context\<close>); what it prints is a value of \<open>printed\<close> handed to the
  parameter \<open>out\<close> (the columns and the formatting are those of \<^verbatim>\<open>tabwriter\<close> and \<^verbatim>\<open>fmt\<close>). Error texts on the
  terminal are left out.
\<close>

record cli_context =
  c_Args :: "string list"
  c_String :: "string \<Rightarrow> string"
  c_Int :: "string \<Rightarrow> int"
  c_Bool :: "string \<Rightarrow> bool"

datatype printed =
    PInterface Interface
  | PBug string bool
  | PAllocated ip string
  | PFree string ip
  | PLimits int int int
  | PNumber int
  | PAddr string ip
  | PEni Interface
  | PVpc string "ipnet list" "cidr list"
  | PPeer string "cidr list"
  | PSubnet Subnet
  | PTracked "ip option"

definition print_all :: "(printed \<Rightarrow> 'w \<Rightarrow> 'w) \<Rightarrow> printed list \<Rightarrow> 'w st \<Rightarrow> 'w st" where
  "print_all out rows s = s\<lparr>world := fold out rows (world s)\<rparr>"

section \<open>Interfaces and addresses\<close>

fun add_filters :: "string list \<Rightarrow> (string \<times> string) list \<Rightarrow> (string \<times> string) list res" where
  "add_filters [] ret = Inr ret"
| "add_filters (t # tuples) ret =
     (case split_on (CHR ''='') t of
        [k, v] \<Rightarrow>
          if k = [] \<or> v = [] then Inl (Errorf (''Zero length filter specified: '' @ t))
          else add_filters tuples (map_put k v ret)
      | _ \<Rightarrow> Inl (Errorf (''Invalid filter specified '' @ t)))"

definition filterBuild :: "string \<Rightarrow> (string \<times> string) list res" where
  "filterBuild input = (if input = [] then Inr [] else add_filters (split_on (CHR '','') input) [])"

definition actionNewInterface ::
    "'w env \<Rightarrow> (printed \<Rightarrow> 'w \<Rightarrow> 'w) \<Rightarrow> cli_context \<Rightarrow> 'w st \<Rightarrow> (error option \<times> 'w st) option" where
  "actionNewInterface e out c =
     LockfileRun e (\<lambda>s.
       case filterBuild (c_String c ''subnet_filter'') of
         Inl err \<Rightarrow> Some (Some err, s)
       | Inr filters \<Rightarrow>
           if c_Args c = [] then Some (Some (Errorf ''need security groups''), s)
           else do { (r, s) \<leftarrow> NewInterface e (c_Args c) filters (c_Int c ''ip_batch_size'') s;
                     case r of
                       Inl err \<Rightarrow> Some (Some err, s)
                     | Inr newIf \<Rightarrow> Some (None, print_all out [PInterface newIf] s) })"

fun print_bugs ::
    "(printed \<Rightarrow> 'w \<Rightarrow> 'w) \<Rightarrow> (string \<times> ('w st \<Rightarrow> (bool \<times> 'w st) option)) list \<Rightarrow> 'w st \<Rightarrow> (error option \<times> 'w st) option" where
  "print_bugs out [] s = Some (None, s)"
| "print_bugs out ((name, HasBug) # bugs) s =
     do { (b, s) \<leftarrow> HasBug s; print_bugs out bugs (print_all out [PBug name b] s) }"

definition actionBugs ::
    "'w env \<Rightarrow> (printed \<Rightarrow> 'w \<Rightarrow> 'w) \<Rightarrow> cli_context \<Rightarrow> 'w st \<Rightarrow> (error option \<times> 'w st) option" where
  "actionBugs e out c = LockfileRun e (print_bugs out (ListBugs e))"

definition actionRemoveInterface ::
    "'w env \<Rightarrow> (printed \<Rightarrow> 'w \<Rightarrow> 'w) \<Rightarrow> cli_context \<Rightarrow> 'w st \<Rightarrow> (error option \<times> 'w st) option" where
  "actionRemoveInterface e out c =
     LockfileRun e (\<lambda>s. if c_Args c = [] then Some (Some (Errorf ''Insufficient Arguments''), s)
                         else RemoveInterface e (c_Args c) s)"

fun deallocate_each :: "'w env \<Rightarrow> string list \<Rightarrow> 'w st \<Rightarrow> (error option \<times> 'w st) option" where
  "deallocate_each e [] s = Some (None, s)"
| "deallocate_each e (toRelease # ips) s =
     (if length toRelease < 6 then Some (Some (Errorf ''Invalid IP''), s)
      else case ParseIP (os_txt6 (os e)) toRelease of
             None \<Rightarrow> Some (Some (Errorf ''IP parse error''), s)
           | Some x \<Rightarrow>
               do { (err, s) \<leftarrow> DeallocateIP e x s;
                    case err of Some y \<Rightarrow> Some (Some y, s) | None \<Rightarrow> deallocate_each e ips s })"

definition actionDeallocate ::
    "'w env \<Rightarrow> (printed \<Rightarrow> 'w \<Rightarrow> 'w) \<Rightarrow> cli_context \<Rightarrow> 'w st \<Rightarrow> (error option \<times> 'w st) option" where
  "actionDeallocate e out c = LockfileRun e (deallocate_each e (c_Args c))"

definition actionAllocate ::
    "'w env \<Rightarrow> (printed \<Rightarrow> 'w \<Rightarrow> 'w) \<Rightarrow> cli_context \<Rightarrow> 'w st \<Rightarrow> (error option \<times> 'w st) option" where
  "actionAllocate e out c =
     LockfileRun e (\<lambda>s.
       do { ((res, err), s) \<leftarrow> AllocateIPsFirstAvailableAtIndex e (c_Int c ''index'') (c_Int c ''ip_batch_size'') s;
            Some (err, print_all out (map (\<lambda>a. PAllocated (arIP a) (LocalName (arInterface a))) res) s) })"

section \<open>Listings\<close>

text \<open>The listings take no lock.\<close>

definition actionFreeIps ::
    "'w env \<Rightarrow> (printed \<Rightarrow> 'w \<Rightarrow> 'w) \<Rightarrow> cli_context \<Rightarrow> 'w st \<Rightarrow> (error option \<times> 'w st) option" where
  "actionFreeIps e out c s =
     (let ((ips, err), s) = FindFreeIPsAtIndex e 0 False s
      in Some (err, print_all out (map (\<lambda>a. PFree (LocalName (arInterface a)) (arIP a)) ips) s))"

definition actionLimits ::
    "'w env \<Rightarrow> (printed \<Rightarrow> 'w \<Rightarrow> 'w) \<Rightarrow> cli_context \<Rightarrow> 'w st \<Rightarrow> (error option \<times> 'w st) option" where
  "actionLimits e out c s =
     do { ((limit, err), s) \<leftarrow> ENILimits e s;
          case err of
            Some x \<Rightarrow> Some (Some x, s)
          | None \<Rightarrow> Some (None, print_all out [PLimits (limAdapters limit) (limIPv4 limit) (limIPv6 limit)] s) }"

text \<open>The number of pod addresses: all adapters but the first, full, in 64 bits.\<close>

definition max_pods :: "ENILimit \<Rightarrow> int \<Rightarrow> int" where
  "max_pods limit specifiedMax =
     (let m = wrap64 (wrap64 (limAdapters limit - 1) * limIPv4 limit)
      in if 0 < specifiedMax \<and> specifiedMax < m then specifiedMax else m)"

definition actionMaxPods ::
    "'w env \<Rightarrow> (printed \<Rightarrow> 'w \<Rightarrow> 'w) \<Rightarrow> cli_context \<Rightarrow> 'w st \<Rightarrow> (error option \<times> 'w st) option" where
  "actionMaxPods e out c s =
     do { ((limit, err), s) \<leftarrow> ENILimits e s;
          case err of
            Some x \<Rightarrow>
              if c_Bool c ''return-error'' then Some (Some x, s) else Some (None, print_all out [PNumber 110] s)
          | None \<Rightarrow> Some (None, print_all out [PNumber (max_pods limit (c_Int c ''max''))] s) }"

definition actionAddr ::
    "'w env \<Rightarrow> (printed \<Rightarrow> 'w \<Rightarrow> 'w) \<Rightarrow> cli_context \<Rightarrow> 'w st \<Rightarrow> (error option \<times> 'w st) option" where
  "actionAddr e out c s =
     (let (r, s) = GetIPs e s
      in case r of
           Inl x \<Rightarrow> Some (Some x, s)
         | Inr ips \<Rightarrow> Some (None, print_all out (map (\<lambda>b. PAddr (biLabel b) (biIP b)) ips) s))"

definition actionEniIf ::
    "'w env \<Rightarrow> (printed \<Rightarrow> 'w \<Rightarrow> 'w) \<Rightarrow> cli_context \<Rightarrow> 'w st \<Rightarrow> (error option \<times> 'w st) option" where
  "actionEniIf e out c s =
     (let (r, s) = GetInterfaces e s
      in case r of
           Inl x \<Rightarrow> Some (Some x, s)
         | Inr interfaces \<Rightarrow> Some (None, print_all out (map PEni interfaces) s))"

text \<open>An error of the query is dropped, and no block is printed for that interface.\<close>

definition res_list :: "'a list res \<Rightarrow> 'a list" where
  "res_list r = (case r of Inl _ \<Rightarrow> [] | Inr xs \<Rightarrow> xs)"

fun print_vpcs :: "'w env \<Rightarrow> (printed \<Rightarrow> 'w \<Rightarrow> 'w) \<Rightarrow> Interface list \<Rightarrow> 'w st \<Rightarrow> (error option \<times> 'w st) option" where
  "print_vpcs e out [] s = Some (None, s)"
| "print_vpcs e out (iface # ifs) s =
     do { (r, s) \<leftarrow> DescribeVPCCIDRs e (ifVpcID iface) s;
          print_vpcs e out ifs (print_all out [PVpc (LocalName iface) (ifVpcCidrs iface) (res_list r)] s) }"

definition actionVpcCidr ::
    "'w env \<Rightarrow> (printed \<Rightarrow> 'w \<Rightarrow> 'w) \<Rightarrow> cli_context \<Rightarrow> 'w st \<Rightarrow> (error option \<times> 'w st) option" where
  "actionVpcCidr e out c s =
     (let (r, s) = GetInterfaces e s
      in case r of Inl x \<Rightarrow> Some (Some x, s) | Inr interfaces \<Rightarrow> print_vpcs e out interfaces s)"

fun print_peers :: "'w env \<Rightarrow> (printed \<Rightarrow> 'w \<Rightarrow> 'w) \<Rightarrow> Interface list \<Rightarrow> 'w st \<Rightarrow> (error option \<times> 'w st) option" where
  "print_peers e out [] s = Some (None, s)"
| "print_peers e out (iface # ifs) s =
     do { (r, s) \<leftarrow> DescribeVPCPeerCIDRs e (ifVpcID iface) s;
          print_peers e out ifs (print_all out [PPeer (LocalName iface) (res_list r)] s) }"

definition actionVpcPeerCidr ::
    "'w env \<Rightarrow> (printed \<Rightarrow> 'w \<Rightarrow> 'w) \<Rightarrow> cli_context \<Rightarrow> 'w st \<Rightarrow> (error option \<times> 'w st) option" where
  "actionVpcPeerCidr e out c s =
     (let (r, s) = GetInterfaces e s
      in case r of Inl x \<Rightarrow> Some (Some x, s) | Inr interfaces \<Rightarrow> print_peers e out interfaces s)"

definition actionSubnets ::
    "'w env \<Rightarrow> (printed \<Rightarrow> 'w \<Rightarrow> 'w) \<Rightarrow> cli_context \<Rightarrow> 'w st \<Rightarrow> (error option \<times> 'w st) option" where
  "actionSubnets e out c s =
     do { (r, s) \<leftarrow> GetSubnetsForInstance e s;
          case r of Inl x \<Rightarrow> Some (Some x, s) | Inr subnets \<Rightarrow> Some (None, print_all out (map PSubnet subnets) s) }"

section \<open>The registry\<close>

definition actionRegistryList ::
    "'w env \<Rightarrow> (printed \<Rightarrow> 'w \<Rightarrow> 'w) \<Rightarrow> cli_context \<Rightarrow> 'w st \<Rightarrow> (error option \<times> 'w st) option" where
  "actionRegistryList e out c =
     LockfileRun e (\<lambda>s.
       let (r, s) = registry_List e s
       in case r of Inl x \<Rightarrow> Some (Some x, s) | Inr ips \<Rightarrow> Some (None, print_all out (map PTracked ips) s))"

text \<open>The loop over the addresses that have been free for long enough. Its answer, the
  addresses that were given back, is for the theorems only: the code keeps no such list, and the callers'
  results do not depend on it. An address that is in use is only forgotten; the budget counts the ones given back.\<close>

fun reap :: "'w env \<Rightarrow> BoundIP list \<Rightarrow> ip list \<Rightarrow> int \<Rightarrow> 'w st \<Rightarrow> (ip list \<times> 'w st) option" where
  "reap e assigned [] maxReap s = Some ([], s)"
| "reap e assigned (x # ips) maxReap s =
     (if list_ex (\<lambda>b. biIP b = x) assigned
      then (let (_, s) = ForgetIP e x s in reap e assigned ips maxReap s)
      else do { (err, s) \<leftarrow> DeallocateIP e x s;
                let (released, maxReap, s) =
                  (case err of
                     None \<Rightarrow> (let (_, s) = ForgetIP e x s in ([x], wrap64 (maxReap - 1), s))
                   | Some _ \<Rightarrow> ([], maxReap, s));
                if maxReap = 0 then Some (released, s)
                else do { (rest, s) \<leftarrow> reap e assigned ips maxReap s; Some (released @ rest, s) } })"

text \<open>\<^verbatim>\<open>int64(float64(d) * 0.15)\<close> for a positive \<open>d\<close>, in IEEE double precision: both numbers have 53
  significant bits, \<^verbatim>\<open>0.15\<close> is \<open>5404319552844595 / 2 ^ 55\<close>, and the product is rounded to the nearest number
  with 53 bits, ties to even, before the fraction is cut off.\<close>

fun bit_len :: "nat \<Rightarrow> nat" where
  "bit_len n = (if n = 0 then 0 else Suc (bit_len (n div 2)))"

declare bit_len.simps [simp del]

definition round53 :: "nat \<Rightarrow> nat" where
  "round53 n =
     (let k = bit_len n - 53; q = n div 2 ^ k; r = n mod 2 ^ k
      in (if 2 ^ k < 2 * r \<or> (2 ^ k = 2 * r \<and> 0 < r \<and> odd q) then q + 1 else q) * 2 ^ k)"

definition times_15 :: "int \<Rightarrow> int" where
  "times_15 d = int (round53 (round53 (nat d) * 5404319552844595) div 2 ^ 55)"

definition registry_gc :: "'w env \<Rightarrow> int \<Rightarrow> int \<Rightarrow> 'w st \<Rightarrow> ((ip list \<times> error option) \<times> 'w st) option" where
  "registry_gc e maxReap freeAfter s =
     (if freeAfter \<le> 0 then Some (([], Some (Errorf ''invalid duration'')), s)
      else do { (after, s) \<leftarrow> Jitter e freeAfter (times_15 freeAfter) s;
                let (now, s) = ext (os_Now (os e)) s;
                (r, s) \<leftarrow> TrackedBefore e (time_Add now (wrap64 (- after))) s;
                case r of
                  Inl x \<Rightarrow> Some (([], Some x), s)
                | Inr ips \<Rightarrow>
                    (let (r, s) = GetIPs e s
                     in case r of
                          Inl x \<Rightarrow> Some (([], Some x), s)
                        | Inr assigned \<Rightarrow>
                            do { (released, s) \<leftarrow> reap e assigned ips maxReap s; Some ((released, None), s) }) })"

definition actionRegistryGc ::
    "'w env \<Rightarrow> (printed \<Rightarrow> 'w \<Rightarrow> 'w) \<Rightarrow> cli_context \<Rightarrow> 'w st \<Rightarrow> (error option \<times> 'w st) option" where
  "actionRegistryGc e out c =
     LockfileRun e (\<lambda>s.
       do { ((_, err), s) \<leftarrow> registry_gc e (c_Int c ''max-reap'') (c_Int c ''free-after'') s; Some (err, s) })"

section \<open>The commands\<close>

definition commands ::
    "'w env \<Rightarrow> (printed \<Rightarrow> 'w \<Rightarrow> 'w) \<Rightarrow> (string \<times> (cli_context \<Rightarrow> 'w st \<Rightarrow> (error option \<times> 'w st) option)) list" where
  "commands e out =
     [(''new-interface'', actionNewInterface e out), (''remove-interface'', actionRemoveInterface e out),
      (''deallocate'', actionDeallocate e out), (''allocate-first-available'', actionAllocate e out),
      (''free-ips'', actionFreeIps e out), (''eniif'', actionEniIf e out), (''addr'', actionAddr e out),
      (''subnets'', actionSubnets e out), (''limits'', actionLimits e out), (''maxpods'', actionMaxPods e out),
      (''bugs'', actionBugs e out), (''vpccidr'', actionVpcCidr e out), (''vpcpeercidr'', actionVpcPeerCidr e out),
      (''registry-list'', actionRegistryList e out), (''registry-gc'', actionRegistryGc e out)]"

text \<open>The program's exit status. \<open>other\<close> is what the \<^verbatim>\<open>cli\<close> library does without a command of that name.\<close>

definition tool_main ::
    "'w env \<Rightarrow> (printed \<Rightarrow> 'w \<Rightarrow> 'w) \<Rightarrow> ('w st \<Rightarrow> (error option \<times> 'w st) option) \<Rightarrow> string \<Rightarrow> cli_context \<Rightarrow> 'w st \<Rightarrow>
     (nat \<times> 'w st) option" where
  "tool_main e out other name c s =
     (let (available, s) = Available e s
      in if \<not> available then Some (1, s)
         else if os_uid (os e) \<noteq> 0 then Some (1, s)
         else do { (err, s) \<leftarrow> (case map_of (commands e out) name of Some action \<Rightarrow> action c s | None \<Rightarrow> other s);
                   Some (if err = None then 0 else 1, s) })"

section \<open>Garbage collection\<close>

lemma forget_keeps:
  assumes "registry_ok e s"
  obtains s' where "ForgetIP e x s = (None, s')" "registry_ok e s'" "client s' = client s"
    "registry_view e s' = (registry_view e s)(ip_key e x := None)"
  using reg.forget_law [OF assms, of x] by (auto simp: registry_rest_def)

text \<open>What a pass over \<open>ips\<close> does to the registry: entries only disappear, and only those of addresses that
  were given back or are in use.\<close>

definition reaped :: "'w env \<Rightarrow> ip set \<Rightarrow> ip set \<Rightarrow> ip list \<Rightarrow> 'w st \<Rightarrow> 'w st \<Rightarrow> bool" where
  "reaped e ips used released s s' =
     (set released \<subseteq> ips - used \<and> (\<forall>x \<in> set released. registry_view e s' (ip_key e x) = None) \<and>
      (\<forall>k. registry_view e s' k = registry_view e s k \<or>
           registry_view e s' k = None \<and> (\<exists>x \<in> ips. k = ip_key e x \<and> (x \<in> set released \<or> x \<in> used))))"

lemma reaped_Cons:
  assumes "reaped e {x} used r1 s s1" and "reaped e (set ips) used r2 s1 s2"
  shows "reaped e (set (x # ips)) used (r1 @ r2) s s2"
proof -
  note a = assms(1) [unfolded reaped_def] and b = assms(2) [unfolded reaped_def]
  have gone: "registry_view e s1 k = None \<Longrightarrow> registry_view e s2 k = None" for k
    using b by metis
  have "registry_view e s2 k = registry_view e s k \<or>
      registry_view e s2 k = None \<and> (\<exists>y \<in> set (x # ips). k = ip_key e y \<and> (y \<in> set (r1 @ r2) \<or> y \<in> used))" for k
  proof (cases "registry_view e s1 k = registry_view e s k")
    case True
    then show ?thesis using b by (metis Un_iff list.set_intros(2) set_append)
  next
    case False
    then have "registry_view e s1 k = None \<and> (\<exists>y \<in> {x}. k = ip_key e y \<and> (y \<in> set r1 \<or> y \<in> used))" using a by metis
    then show ?thesis using gone by auto
  qed
  moreover have "\<forall>y \<in> set (r1 @ r2). registry_view e s2 (ip_key e y) = None" using a b gone by auto
  moreover have "set (r1 @ r2) \<subseteq> set (x # ips) - used" using a b by auto
  ultimately show ?thesis unfolding reaped_def by blast
qed

lemma reaped_stop: "reaped e {x} used r1 s s1 \<Longrightarrow> reaped e (set (x # ips)) used r1 s s1"
  unfolding reaped_def by auto

lemma reap_law:
  assumes "registry_ok e s" "client_ready e (client s)" "maxReap < 2 ^ 63"
  shows "\<exists>released s'. reap e assigned ips maxReap s = Some (released, s') \<and> registry_ok e s' \<and>
    client_ready e (client s') \<and>
    reaped e (set ips) (biIP ` set assigned) released s s' \<and> (0 < maxReap \<longrightarrow> int (length released) \<le> maxReap)"
  using assms
proof (induction ips arbitrary: maxReap s)
  case Nil
  then show ?case by (simp add: reaped_def)
next
  case (Cons x ips)
  let ?used = "biIP ` set assigned"
  show ?case
  proof (cases "x \<in> ?used")
    case True
    obtain s1 where f: "ForgetIP e x s = (None, s1)" "registry_ok e s1" "client s1 = client s"
      "registry_view e s1 = (registry_view e s)(ip_key e x := None)"
      using forget_keeps [OF Cons.prems(1)] .
    then have "reaped e {x} ?used [] s s1" using True by (simp add: reaped_def)
    moreover obtain r s2 where "reap e assigned ips maxReap s1 = Some (r, s2)" "registry_ok e s2" "client_ready e (client s2)"
      "reaped e (set ips) ?used r s1 s2" "0 < maxReap \<longrightarrow> int (length r) \<le> maxReap"
      using Cons.IH [of s1 maxReap] f Cons.prems by auto
    moreover have "list_ex (\<lambda>b. biIP b = x) assigned" using True by (auto simp: list_ex_iff)
    ultimately show ?thesis using f(1) reaped_Cons [of e x ?used "[]"] by simp
  next
    case False
    then have unused: "\<not> list_ex (\<lambda>b. biIP b = x) assigned" by (auto simp: list_ex_iff)
    obtain err s1 where d: "DeallocateIP e x s = Some (err, s1)" "registry_ok e s1" "client_ready e (client s1)"
      "registry_view e s1 = registry_view e s"
      using DeallocateIP_keeps [OF Cons.prems(1, 2)] .
    obtain s2 where f: "ForgetIP e x s1 = (None, s2)" "registry_ok e s2" "client s2 = client s1"
      "registry_view e s2 = (registry_view e s1)(ip_key e x := None)"
      using forget_keeps [OF d(2)] .
    show ?thesis
    proof (cases err)
      case (Some y)
      have here: "reaped e {x} ?used [] s s1" using d(4) by (simp add: reaped_def)
      obtain r s3 where r: "reap e assigned ips maxReap s1 = Some (r, s3)" "registry_ok e s3" "client_ready e (client s3)"
        "reaped e (set ips) ?used r s1 s3" "0 < maxReap \<longrightarrow> int (length r) \<le> maxReap"
        using Cons.IH [OF d(2, 3) Cons.prems(3)] by blast
      show ?thesis
        using unused d Some r reaped_Cons [OF here r(4)] reaped_stop [OF here] by (cases "maxReap = 0") auto
    next
      case None
      let ?m = "wrap64 (maxReap - 1)"
      have here: "reaped e {x} ?used [x] s s2" using f(4) d(4) False by (simp add: reaped_def)
      have m: "?m < 2 ^ 63" using wrap64_range by blast
      have pos: "?m = maxReap - 1" if "0 < maxReap" using that Cons.prems(3) by (intro wrap64_id) simp_all
      have c2: "client_ready e (client s2)" using d(3) f(3) by simp
      then obtain r s3 where r: "reap e assigned ips ?m s2 = Some (r, s3)" "registry_ok e s3" "client_ready e (client s3)"
        "reaped e (set ips) ?used r s2 s3" "0 < ?m \<longrightarrow> int (length r) \<le> ?m"
        using Cons.IH [OF f(2) _ m] by blast
      have "reap e assigned (x # ips) maxReap s = (if ?m = 0 then Some ([x], s2) else Some (x # r, s3))"
        using unused d(1) None f(1) r(1) by simp
      moreover have "int (length (x # r)) \<le> maxReap" if "0 < maxReap" "?m \<noteq> 0"
        using that pos r(5) by simp
      ultimately show ?thesis
        using f(2) c2 r(2, 3) reaped_stop [OF here] reaped_Cons [OF here r(4)] by (cases "?m = 0") auto
    qed
  qed
qed

lemma bit_len_le: "0 < n \<Longrightarrow> 2 ^ (bit_len n - 1) \<le> n"
proof (induction n rule: bit_len.induct)
  case (1 n)
  show ?case
  proof (cases "n div 2 = 0")
    case True
    then show ?thesis using 1 by (simp add: bit_len.simps [of n] bit_len.simps [of 0])
  next
    case False
    then have half: "2 ^ (bit_len (n div 2) - 1) \<le> n div 2" using 1 by simp
    obtain m where m: "bit_len (n div 2) = Suc m" using False by (simp add: bit_len.simps [of "n div 2"])
    with half have "2 ^ Suc m \<le> n" by simp
    with m show ?thesis using 1 by (simp add: bit_len.simps [of n])
  qed
qed

lemma round53_le: "round53 n \<le> 2 * n"
proof (cases "n = 0")
  case False
  let ?k = "bit_len n - 53"
  have "(2 :: nat) ^ ?k \<le> 2 ^ (bit_len n - 1)" by (rule power_increasing) simp_all
  also have "\<dots> \<le> n" using bit_len_le [of n] False by blast
  finally have k: "2 ^ ?k \<le> n" .
  then have q: "1 \<le> n div 2 ^ ?k" by (simp add: Suc_le_eq div_greater_zero_iff)
  have "round53 n \<le> (n div 2 ^ ?k + 1) * 2 ^ ?k" by (simp add: round53_def Let_def)
  also have "\<dots> \<le> (2 * (n div 2 ^ ?k)) * 2 ^ ?k" using q by (intro mult_right_mono) simp_all
  also have "\<dots> \<le> 2 * n" using div_times_less_eq_dividend [of n "2 ^ ?k"] by simp
  finally show ?thesis .
qed (simp add: round53_def bit_len.simps)

lemma times_15_le: "0 \<le> d \<Longrightarrow> times_15 d \<le> d"
proof -
  assume d: "0 \<le> d"
  have "round53 (round53 (nat d) * 5404319552844595) \<le> 2 * (2 * nat d * 5404319552844595)"
    using round53_le [of "round53 (nat d) * 5404319552844595"] round53_le [of "nat d"] by linarith
  also have "\<dots> \<le> nat d * 2 ^ 55" by simp
  finally have "round53 (round53 (nat d) * 5404319552844595) div 2 ^ 55 \<le> nat d * 2 ^ 55 div 2 ^ 55"
    by (rule div_le_mono)
  then show ?thesis using d by (simp add: times_15_def)
qed

text \<open>\<^verbatim>\<open>rand.Int63n(n)\<close> answers a number from 0 up to, but not including, a positive \<open>n\<close>.\<close>

definition rand_ok :: "'w env \<Rightarrow> bool" where
  "rand_ok e = (\<forall>n w. 0 < n \<longrightarrow> 0 \<le> fst (os_Int63n (os e) n w) \<and> fst (os_Int63n (os e) n w) < n)"

lemma jittered_later:
  assumes "rand_ok e" "0 < d" "d < 2 ^ 62" "0 < times_15 d"
  obtains after s1 where "Jitter e d (times_15 d) s = Some (after, s1)" "d \<le> after" "wrap64 (- after) = - after"
    "fs_files s1 = fs_files s" "fs_dirs s1 = fs_dirs s" "client s1 = client s"
proof -
  let ?j = "fst (ext (os_Int63n (os e) (times_15 d)) s)"
  have j: "0 \<le> ?j" "?j < times_15 d" using assms(1, 4) by (simp_all add: rand_ok_def ext_def)
  then have small: "d + ?j < 2 ^ 63" using times_15_le [of d] assms(2, 3) by simp
  have "wrap64 (d + ?j) = d + ?j" "wrap64 (- (d + ?j)) = - (d + ?j)"
    using j(1) small assms(2) by (auto intro!: wrap64_id)
  then show thesis
    using j(1) assms(4) by (intro that [of "d + ?j" "snd (ext (os_Int63n (os e) (times_15 d)) s)"])
      (simp_all add: Jitter_def case_prod_beta)
qed

text \<open>The run of a collection up to its loop.\<close>

lemma registry_gc_run:
  assumes "registry_ok e s" "range_ok e" "rand_ok e" "0 < freeAfter" "freeAfter < 2 ^ 62" "0 < times_15 freeAfter"
  obtains after s1 now s2 ips s3 r s4 where "freeAfter \<le> after" "ext (os_Now (os e)) s1 = (now, s2)"
    "\<forall>x \<in> set ips. \<exists>k u. registry_view e s k = Some u \<and> t_ns u < t_ns now - after \<and> ParseIP (os_txt6 (os e)) k = Some x"
    "GetIPs e s3 = (r, s4)" "registry_ok e s4" "registry_view e s4 = registry_view e s" "client s4 = client s"
    "\<And>maxReap. registry_gc e maxReap freeAfter s =
       (case r of Inl x \<Rightarrow> Some (([], Some x), s4)
        | Inr assigned \<Rightarrow> do { (released, s) \<leftarrow> reap e assigned ips maxReap s4; Some ((released, None), s) })"
proof -
  obtain after s1 where j: "Jitter e freeAfter (times_15 freeAfter) s = Some (after, s1)" "freeAfter \<le> after"
    "wrap64 (- after) = - after" "fs_files s1 = fs_files s" "fs_dirs s1 = fs_dirs s" "client s1 = client s"
    using jittered_later [OF assms(3-6)] .
  obtain now s2 where n: "ext (os_Now (os e)) s1 = (now, s2)" by fastforce
  have s2: "fs_files s2 = fs_files s" "fs_dirs s2 = fs_dirs s" "client s2 = client s"
    using ext_frame [of "os_Now (os e)" s1] n j(4-6) by simp_all
  have ok2: "registry_ok e s2" "registry_view e s2 = registry_view e s"
    using registry_footprint(1) [OF s2(1, 2)] registry_footprint(2) [OF s2(1)] assms(1) by auto
  obtain ips s3 where t: "TrackedBefore e (time_Add now (- after)) s2 = Some (Inr ips, s3)" "registry_ok e s3"
    "registry_view e s3 = registry_view e s2" "client s3 = client s2"
    "set ips = {x. \<exists>k u. registry_view e s2 k = Some u \<and> time_Before u (time_Add now (- after)) \<and>
                         ParseIP (os_txt6 (os e)) k = Some x}"
    using TrackedBefore_law [OF ok2(1) assms(2), of "time_Add now (- after)"] by blast
  have old: "\<exists>k u. registry_view e s k = Some u \<and> t_ns u < t_ns now - after \<and> ParseIP (os_txt6 (os e)) k = Some x"
    if "x \<in> set ips" for x
    using that by (simp add: t(5) ok2(2) time_Before_def time_Add_def)
  obtain r s4 where g: "GetIPs e s3 = (r, s4)" by fastforce
  have s4: "fs_files s4 = fs_files s3" "fs_dirs s4 = fs_dirs s3" "client s4 = client s"
    using GetIPs_frame [of e s3] g t(4) s2(3) by simp_all
  have ok4: "registry_ok e s4" "registry_view e s4 = registry_view e s"
    using registry_footprint(1) [OF s4(1, 2)] registry_footprint(2) [OF s4(1)] t(2, 3) ok2(2) by auto
  show thesis
    by (rule that [OF j(2) n _ g ok4 s4(3)]) (use old j(1, 3) n t(1) g assms(4) in \<open>auto simp: registry_gc_def\<close>)
qed

text \<open>A collection returns and keeps the registry and the client in order.\<close>

lemma registry_gc_law:
  assumes "registry_ok e s" "client_ready e (client s)" "range_ok e" "rand_ok e"
    and "0 < freeAfter \<longrightarrow> freeAfter < 2 ^ 62 \<and> 0 < times_15 freeAfter" "maxReap < 2 ^ 63"
  shows "\<exists>released err s'. registry_gc e maxReap freeAfter s = Some ((released, err), s') \<and> registry_ok e s' \<and>
    client_ready e (client s')"
proof (cases "0 < freeAfter")
  case True
  then have d: "freeAfter < 2 ^ 62" "0 < times_15 freeAfter" using assms(5) by auto
  show ?thesis
  proof (rule registry_gc_run [OF assms(1, 3, 4) True d])
    fix ips r s4
    assume ok: "registry_ok e s4" and "client s4 = client s"
      and gc: "\<And>maxReap. registry_gc e maxReap freeAfter s =
       (case r of Inl x \<Rightarrow> Some (([], Some x), s4)
        | Inr assigned \<Rightarrow> do { (released, s) \<leftarrow> reap e assigned ips maxReap s4; Some ((released, None), s) })"
    then have c: "client_ready e (client s4)" using assms(2) by simp
    show ?thesis
      using ok c gc reap_law [OF ok c assms(6), of "case r of Inl x \<Rightarrow> [] | Inr xs \<Rightarrow> xs" ips] by (cases r) auto
  qed
qed (use assms(1, 2) in \<open>simp add: registry_gc_def\<close>)

text \<open>Addresses given back at \<open>now\<close>, on a node that uses the addresses \<open>used\<close>: each is unused and had been in
  the registry for longer than \<open>freeAfter\<close>, and nothing else than they and used addresses left the registry.\<close>

definition only_idle :: "'w env \<Rightarrow> int \<Rightarrow> gotime \<Rightarrow> ip set \<Rightarrow> ip list \<Rightarrow> 'w st \<Rightarrow> 'w st \<Rightarrow> bool" where
  "only_idle e freeAfter now used released s s' =
     ((\<forall>x \<in> set released. x \<notin> used \<and> registry_view e s' (ip_key e x) = None \<and>
         (\<exists>u. registry_view e s (ip_key e x) = Some u \<and> t_ns u < t_ns now - freeAfter)) \<and>
      (\<forall>k. registry_view e s' k \<noteq> registry_view e s k \<longrightarrow> registry_view e s' k = None \<and>
         (\<exists>x. k = ip_key e x \<and> (x \<in> set released \<or> x \<in> used))))"

lemma canonical_key:
  assumes "\<forall>k. registry_view e s k \<noteq> None \<longrightarrow> (\<exists>x. is_V4 x \<and> k = ip_key e x)"
    and "registry_view e s k = Some u" "ParseIP (os_txt6 (os e)) k = Some x"
  shows "k = ip_key e x"
proof -
  obtain y where "is_V4 y" "k = ip_key e y" using assms(1, 2) by blast
  then show ?thesis using assms(3) by (cases y) (simp_all add: is_V4_def)
qed

lemma reaped_only_idle:
  assumes "reaped e (set ips) used released s4 s5" "registry_view e s4 = registry_view e s"
    and "\<And>x. x \<in> set ips \<Longrightarrow> \<exists>u. registry_view e s (ip_key e x) = Some u \<and> t_ns u < t_ns now - freeAfter"
  shows "only_idle e freeAfter now used released s s5"
  unfolding only_idle_def
proof (intro conjI)
  note p = assms(1) [unfolded reaped_def assms(2)]
  show "\<forall>x \<in> set released. x \<notin> used \<and> registry_view e s5 (ip_key e x) = None \<and>
      (\<exists>u. registry_view e s (ip_key e x) = Some u \<and> t_ns u < t_ns now - freeAfter)"
    using p assms(3) by blast
  show "\<forall>k. registry_view e s5 k \<noteq> registry_view e s k \<longrightarrow> registry_view e s5 k = None \<and>
      (\<exists>x. k = ip_key e x \<and> (x \<in> set released \<or> x \<in> used))"
    using p by metis
qed

text \<open>C10. Garbage collection gives back only idle addresses. On a working registry of IPv4 addresses and with
  a ready client it returns, and then: every address that was given back had been in the registry for longer
  than \<open>freeAfter\<close> and is used by no interface of the node, and it is in the registry no more; an entry is
  removed only if its address was given back or is in use; with a positive \<open>maxReap\<close> no more than \<open>maxReap\<close>
  addresses are given back.\<close>

theorem gc_gives_back_idle:
  assumes "registry_ok e s" "client_ready e (client s)" "range_ok e" "rand_ok e"
    and "\<forall>k. registry_view e s k \<noteq> None \<longrightarrow> (\<exists>x. is_V4 x \<and> k = ip_key e x)"
    and "0 < freeAfter" "freeAfter < 2 ^ 62" "0 < times_15 freeAfter" "maxReap < 2 ^ 63"
  shows "\<exists>released err s'. registry_gc e maxReap freeAfter s = Some ((released, err), s') \<and> registry_ok e s' \<and>
    (0 < maxReap \<longrightarrow> int (length released) \<le> maxReap) \<and>
    (err \<noteq> None \<longrightarrow> released = [] \<and> registry_view e s' = registry_view e s) \<and>
    (err = None \<longrightarrow> (\<exists>s1 now s2 s3 assigned s4. ext (os_Now (os e)) s1 = (now, s2) \<and> GetIPs e s3 = (Inr assigned, s4) \<and>
       only_idle e freeAfter now (biIP ` set assigned) released s s'))"
proof -
  obtain after s1 now s2 ips s3 r s4 where run: "freeAfter \<le> after" "ext (os_Now (os e)) s1 = (now, s2)"
    "\<forall>x \<in> set ips. \<exists>k u. registry_view e s k = Some u \<and> t_ns u < t_ns now - after \<and> ParseIP (os_txt6 (os e)) k = Some x"
    "GetIPs e s3 = (r, s4)" "registry_ok e s4" "registry_view e s4 = registry_view e s" "client s4 = client s"
    "\<And>maxReap. registry_gc e maxReap freeAfter s =
       (case r of Inl x \<Rightarrow> Some (([], Some x), s4)
        | Inr assigned \<Rightarrow> do { (released, s) \<leftarrow> reap e assigned ips maxReap s4; Some ((released, None), s) })"
    using registry_gc_run [OF assms(1, 3, 4, 6-8)] by blast
  have old: "\<exists>u. registry_view e s (ip_key e x) = Some u \<and> t_ns u < t_ns now - freeAfter" if "x \<in> set ips" for x
    using canonical_key [OF assms(5)] run(1, 3) that by fastforce
  show ?thesis
  proof (cases r)
    case (Inl x)
    then show ?thesis using run(5, 6, 8) by auto
  next
    case (Inr assigned)
    obtain released s5 where p: "reap e assigned ips maxReap s4 = Some (released, s5)" "registry_ok e s5"
      "reaped e (set ips) (biIP ` set assigned) released s4 s5" "0 < maxReap \<longrightarrow> int (length released) \<le> maxReap"
      using reap_law [OF run(5) _ assms(9)] assms(2) run(7) by metis
    have "only_idle e freeAfter now (biIP ` set assigned) released s s5"
      using reaped_only_idle [OF p(3)] old run(6) by metis
    moreover have "registry_gc e maxReap freeAfter s = Some ((released, None), s5)" using run(8) Inr p(1) by simp
    moreover have "GetIPs e s3 = (Inr assigned, s4)" using run(4) Inr by simp
    ultimately show ?thesis using p(2, 4) run(2)
      by (intro exI [of _ released] exI [of _ None] exI [of _ s5]) blast
  qed
qed

theorem gc_gives_back_idle_witness:
  "\<exists>released err s'. registry_gc demo 1 60000000000 (demo_ready [(''10.0.1.7'', epoch_entry)]) = Some ((released, err), s') \<and>
     length released \<le> 1"
proof -
  let ?m = "[(''10.0.1.7'', epoch_entry)]"
  have wf: "wf_entries ?m" by (rule wf_epoch) simp_all
  have k: "ip_key demo (V4 10 0 1 7) = ''10.0.1.7''" by code_simp
  have "registry_view demo (demo_ready ?m) j \<noteq> None \<Longrightarrow> j = ip_key demo (V4 10 0 1 7)" for j
    unfolding demo_ready_ok(3) [OF wf] k by (simp add: norm_entries_def view_of_def split: if_splits)
  then have keys: "\<forall>j. registry_view demo (demo_ready ?m) j \<noteq> None \<longrightarrow> (\<exists>x. is_V4 x \<and> j = ip_key demo x)"
    by (metis is_V4_def ip.simps(5))
  have rand: "rand_ok demo" by (simp add: rand_ok_def demo_def demo_os_def)
  have pos: "0 < times_15 60000000000" by (simp add: times_15_def round53_def bit_len.simps Let_def)
  show ?thesis
    using gc_gives_back_idle [OF demo_ready_ok(1) [OF wf] demo_ready_ok(2) demo_range_ok rand keys, of 60000000000 1] pos
    by fastforce
qed

section \<open>Filters\<close>

definition filter_text :: "(string \<times> string) list \<Rightarrow> string" where
  "filter_text m = join_with (CHR '','') (map (\<lambda>(k, v). k @ CHR ''='' # v) m)"

definition plain_word :: "string \<Rightarrow> bool" where
  "plain_word w = (w \<noteq> [] \<and> CHR ''='' \<notin> set w \<and> CHR '','' \<notin> set w)"

lemma map_put_new: "k \<notin> fst ` set m \<Longrightarrow> map_put k v m = m @ [(k, v)]"
  by (induction m) auto

lemma add_filters_words:
  "\<forall>(k, v) \<in> set m. plain_word k \<and> plain_word v \<Longrightarrow> distinct (map fst (acc @ m)) \<Longrightarrow>
   add_filters (map (\<lambda>(k, v). k @ CHR ''='' # v) m) acc = Inr (acc @ m)"
proof (induction m arbitrary: acc)
  case (Cons p m)
  obtain k v where p: "p = (k, v)" by fastforce
  have "split_on (CHR ''='') (k @ CHR ''='' # v) = [k, v]"
    using Cons.prems(1) p by (simp add: plain_word_def split_on_append split_on_single)
  moreover have "map_put k v acc = acc @ [(k, v)]" using Cons.prems(2) p by (intro map_put_new) force
  moreover have "add_filters (map (\<lambda>(k, v). k @ CHR ''='' # v) m) (acc @ [(k, v)]) = Inr ((acc @ [(k, v)]) @ m)"
    using Cons.prems p by (intro Cons.IH) auto
  ultimately show ?case using Cons.prems(1) p by (simp add: plain_word_def)
qed simp

text \<open>C40. The text form of a subnet filter reads back: for distinct keys, and keys and values that are not
  empty and have neither a comma nor an equals sign, \<^verbatim>\<open>filterBuild\<close> of the pairs joined with \<^verbatim>\<open>=\<close> and \<^verbatim>\<open>,\<close>
  answers the pairs.\<close>

theorem filterBuild_roundtrip:
  assumes "\<forall>(k, v) \<in> set m. plain_word k \<and> plain_word v" and "distinct (map fst m)"
  shows "filterBuild (filter_text m) = Inr m"
proof (cases "m = []")
  case True
  then show ?thesis by (simp add: filterBuild_def filter_text_def)
next
  case False
  let ?ws = "map (\<lambda>(k, v). k @ CHR ''='' # v) m"
  have words: "\<forall>w \<in> set ?ws. CHR '','' \<notin> set w \<and> w \<noteq> []" using assms(1) by (auto simp: plain_word_def)
  then have "split_on (CHR '','') (filter_text m) = ?ws"
    unfolding filter_text_def using False by (intro split_on_join) auto
  moreover have "filter_text m \<noteq> []"
    using False words calculation by (metis list.map_disc_iff list.set_intros(1) list.exhaust split_on.simps(1) list.inject)
  ultimately show ?thesis using add_filters_words [of m "[]"] assms by (simp add: filterBuild_def)
qed

theorem filterBuild_roundtrip_witness:
  "filterBuild (filter_text [(''Name'', ''pods''), (''k8s'', ''true'')]) = Inr [(''Name'', ''pods''), (''k8s'', ''true'')]"
  by (rule filterBuild_roundtrip) (simp_all add: plain_word_def)

end
