(* ===== verification/Node.thy ===== *)
theory Node
  imports Ipam Tool
begin

text \<open>
  The node as a state machine: the processes that share the registry, the cache and the lock file. A step is
  one run of the IPAM plugin or of a tool command, each in a process with an AWS client of its own, or a
  change from outside that leaves the registry alone. Under the lock the runs do not overlap, so that an
  execution is a sequence of whole runs.
\<close>

section \<open>The caches of the blocks hold no null\<close>

definition null_free :: "'w env \<Rightarrow> 'w st \<Rightarrow> bool" where
  "null_free e s = (\<forall>v. \<not> null_cached e (vpc_cidr_key v) s \<and> \<not> null_cached e (vpc_peers_key v) s)"

lemma null_free_other:
  assumes "null_free e s" and "\<And>p. other_file e p \<Longrightarrow> fs_files s' p = fs_files s p"
  shows "null_free e s'"
  using assms null_cached_cong vpc_other_file unfolding null_free_def by metis

lemma decode_IPNet_null: "decode_IPNet t js = Some None \<longleftrightarrow> js = JNull"
  by (auto simp: decode_IPNet_def split: option.splits)

lemma decoded_no_null:
  assumes "None \<notin> set cs" and "decode_cidrs t (encode_cidrs t cs) [] = Some ds"
  shows "None \<notin> set ds"
proof -
  have "None \<notin> set ds" if "decode_list (decode_IPNet t) (map (encode_IPNet t) cs) = Some ds" "None \<notin> set cs" for ds
    using that
  proof (induction cs arbitrary: ds)
    case (Cons c cs)
    obtain d where d: "decode_IPNet t (encode_IPNet t c) = Some d" using Cons.prems(1) by (auto split: option.splits)
    moreover have "d \<noteq> None"
      using Cons.prems(2) d decode_IPNet_null [of t "encode_IPNet t c"] by (auto simp: encode_IPNet_def split: option.splits)
    ultimately show ?case using Cons by (auto split: option.splits)
  qed simp
  with assms show ?thesis by (cases "cs = []") (auto simp: decode_cidrs_def encode_cidrs_def)
qed

text \<open>Storing an answer without a null leaves a cache file without a null.\<close>

lemma stored_no_null:
  fixes cs :: "cidr list"
  assumes "\<not> null_cached e key s" and "None \<notin> set cs"
  shows "\<not> null_cached e key (snd (cache_Store e key' lifetime (encode_cidrs (os_txt6 (os e))) cs s))"
proof (cases "path_Join (cachePath e) key = path_Join (cachePath e) key'")
  case False
  then show ?thesis
    using assms(1) cache_Store_other [OF False] null_cached_cong by metis
next
  case True
  let ?p = "path_Join (cachePath e) key'" and ?enc = "encode_cidrs (os_txt6 (os e))"
  let ?s = "snd (cache_Store e key' lifetime ?enc cs s)"
  have "fs_files ?s ?p = fs_files s ?p \<or> fs_files ?s ?p = Some None \<or>
      (\<exists>t. fs_files ?s ?p = Some (Some (encode_cacheable ?enc t cs)))"
    by (simp add: cache_Store_def case_prod_unfold Let_def os_OpenFile_def json_Encode_def ext_def split: option.splits) blast
  moreover have "None \<notin> set ds"
    if "decode_cacheable (decode_cidrs (os_txt6 (os e))) (encode_cacheable ?enc t cs) [] = Some (u, ds)" for t u ds
    using that decoded_no_null [OF assms(2)]
    by (auto simp: decode_cacheable_def encode_cacheable_def decode_struct_def cacheable_field_def split: sum.splits option.splits if_splits)
  ultimately show ?thesis using assms(1) True unfolding null_cached_def by auto
qed

lemma cached_null_free:
  assumes "cached e key' lifetime (encode_cidrs (os_txt6 (os e))) dec [] fetch s = Some (r, s')"
    and "null_free e s" and "\<And>s r s'. fetch s = Some (r, s') \<Longrightarrow> fs_files s' = fs_files s \<and> (\<forall>cs. r = Inr cs \<longrightarrow> None \<notin> set cs)"
  shows "null_free e s'"
proof -
  let ?g = "cache_Get e key' dec [] s"
  have g: "null_free e (snd ?g)" using assms(2) by (rule null_free_other) simp
  show ?thesis
  proof (cases "fst (fst ?g) = CacheFound")
    case True
    then show ?thesis using assms(1) g by (auto simp: cached_def case_prod_unfold Let_def)
  next
    case False
    then obtain r1 s1 where f: "fetch (snd ?g) = Some (r1, s1)"
      using assms(1) by (cases "fetch (snd ?g)") (auto simp: cached_def case_prod_unfold)
    have s1: "null_free e s1" using g by (rule null_free_other) (use assms(3) [OF f] in simp)
    show ?thesis
    proof (cases r1)
      case (Inl x)
      then show ?thesis using assms(1) False f s1 by (simp add: cached_def case_prod_unfold)
    next
      case (Inr cs)
      then have "None \<notin> set cs" using assms(3) [OF f] by simp
      then have "null_free e (snd (cache_Store e key' lifetime (encode_cidrs (os_txt6 (os e))) cs s1))"
        using s1 stored_no_null unfolding null_free_def by metis
      then show ?thesis using assms(1) False f Inr by (auto simp: cached_def case_prod_unfold Let_def)
    qed
  qed
qed

lemma VPC_null_free:
  "DescribeVPCCIDRs e v s = Some (r, s') \<Longrightarrow> null_free e s \<Longrightarrow> null_free e s'"
  "DescribeVPCPeerCIDRs e v s = Some (r, s') \<Longrightarrow> null_free e s \<Longrightarrow> null_free e s'"
proof -
  have a: "None \<notin> set cs" if "DescribeVPCCIDRs_aws e v s = Some (Inr cs, s')" for s cs s'
    using that fetched_blocks(1) unfolding DescribeVPCCIDRs_aws_def by (simp only: run option.inject prod.inject) blast
  have b: "None \<notin> set cs" if "DescribeVPCPeerCIDRs_aws e v s = Some (Inr cs, s')" for s cs s'
    using that fetched_blocks(2) unfolding DescribeVPCPeerCIDRs_aws_def by (simp only: run option.inject prod.inject) blast
  show "DescribeVPCCIDRs e v s = Some (r, s') \<Longrightarrow> null_free e s \<Longrightarrow> null_free e s'"
    unfolding DescribeVPCCIDRs_def by (erule cached_null_free) (use VPC_aws_files(1) a in blast)+
  show "DescribeVPCPeerCIDRs e v s = Some (r, s') \<Longrightarrow> null_free e s \<Longrightarrow> null_free e s'"
    unfolding DescribeVPCPeerCIDRs_def by (erule cached_null_free) (use VPC_aws_files(2) b in blast)+
qed

section \<open>What every run keeps\<close>

text \<open>A state in which a run can start: a working registry, a ready client, no null in a cache of blocks.\<close>

definition ready :: "'w env \<Rightarrow> 'w st \<Rightarrow> bool" where
  "ready e s = (registry_ok e s \<and> client_ready e (client s) \<and> null_free e s)"

definition keeps :: "'w env \<Rightarrow> ('w st \<Rightarrow> ('a \<times> 'w st) option) \<Rightarrow> bool" where
  "keeps e f = (\<forall>s. ready e s \<longrightarrow> (\<exists>r s'. f s = Some (r, s') \<and> ready e s'))"

lemma keepsI: "(\<And>s. ready e s \<Longrightarrow> \<exists>r s'. f s = Some (r, s') \<and> ready e s') \<Longrightarrow> keeps e f"
  by (simp add: keeps_def)

lemma keepsE:
  assumes "keeps e f" and "ready e s"
  obtains r s' where "f s = Some (r, s')" and "ready e s'"
  using assms unfolding keeps_def by blast

lemma keeps_return: "(\<And>s. ready e s \<Longrightarrow> ready e (g s)) \<Longrightarrow> keeps e (\<lambda>s. Some (h s, g s))"
  by (simp add: keeps_def)

lemma keeps_bind:
  assumes "keeps e f" and "\<And>r. keeps e (g r)"
  shows "keeps e (\<lambda>s. do { (r, s) \<leftarrow> f s; g r s })"
  using assms unfolding keeps_def by fastforce

lemma ready_world [simp]: "ready e (s\<lparr>world := w\<rparr>) = ready e s"
  by (simp add: ready_def null_free_def null_cached_def registry_ok_def)

lemma ready_ext [simp]: "ready e (snd (ext f s)) = ready e s"
  by (simp add: ext_def)

lemma print_all_ready [simp]: "ready e (print_all out rows s) = ready e s"
  by (simp add: print_all_def)

lemma null_free_files: "fs_files s' = fs_files s \<Longrightarrow> null_free e s' = null_free e s"
  by (simp add: null_free_def null_cached_def)

lemma registry_only_null_free:
  "null_free e s \<Longrightarrow> (\<And>p. p \<noteq> registry_json e \<Longrightarrow> fs_files s' p = fs_files s p) \<Longrightarrow> null_free e s'"
  by (erule null_free_other) (simp add: other_file_def)

subsection \<open>The lock\<close>

lemma lock_loop_ready: "ready e (snd (lock_loop e n s)) = ready e s"
proof (induction n arbitrary: s)
  case (Suc n)
  then show ?case by (simp add: case_prod_unfold Let_def time_Sleep_def split: trylock.splits)
qed simp

lemma lock_acquire_ready: "ready e (snd (lock_acquire e s)) = ready e s"
  using lock_loop_ready [of e 1000 "snd (ext (lk_New (lk e)) s)"]
  by (simp add: lock_acquire_def case_prod_unfold Let_def del: lock_loop.simps split: option.splits)

lemma LockfileRun_keeps:
  assumes "keeps e run"
  shows "keeps e (LockfileRun e run)"
proof (rule keepsI)
  fix s assume s: "ready e s"
  let ?l = "lock_acquire e s"
  have l: "ready e (snd ?l)" using s by (simp only: lock_acquire_ready)
  obtain r s1 where "run (snd ?l) = Some (r, s1)" "ready e s1" using keepsE [OF assms l] .
  then show "\<exists>r s'. LockfileRun e run s = Some (r, s') \<and> ready e s'"
    using l by (cases "fst ?l") (simp_all add: LockfileRun_def case_prod_unfold Let_def)
qed

lemma LockfileRun_exit_keeps:
  assumes "keeps e run"
  shows "keeps e (LockfileRun_exit e run)"
proof (rule keepsI)
  fix s assume s: "ready e s"
  let ?l = "lock_acquire e s"
  have l: "ready e (snd ?l)" using s by (simp only: lock_acquire_ready)
  obtain r s1 where "run (snd ?l) = Some (r, s1)" "ready e s1" using keepsE [OF assms l] .
  then show "\<exists>r s'. LockfileRun_exit e run s = Some (r, s') \<and> ready e s'"
    using l by (cases "fst ?l"; cases r) (simp_all add: LockfileRun_exit_def case_prod_unfold Let_def)
qed

subsection \<open>The IPAM plugin\<close>

lemma route_cidrs_null_free:
  assumes "route_cidrs e conf intf s = Some (r, s')" and "null_free e s"
  shows "null_free e s'"
proof -
  have bug: "null_free e s1" if "HasBugBrokenVPCCidrs e s = Some (b, s1)" for b s1
  proof -
    have "fs_files s1 = fs_files s"
      using that getIDDoc_frame(1) [of e s] unfolding HasBugBrokenVPCCidrs_def InstanceType_def Let_def
      by (simp only: run option.inject prod.inject) (elim exE conjE disjE; simp)
    then show ?thesis using assms(2) null_free_files by blast
  qed
  show ?thesis
    using assms(1) unfolding route_cidrs_def Let_def
    by (simp only: run option.inject prod.inject) (auto dest!: bug dest: VPC_null_free)
qed

lemma finish_add_null_free:
  assumes "finish_add e a conf alloc s = Some (r, s')" and "null_free e s"
  shows "null_free e s'"
proof -
  have up: "null_free e s1" if "UpInterfacePoll e n s = Some (q, s1)" for n q s1
    using UpInterfacePoll_frame [OF that] assms(2) null_free_files by blast
  have forget: "null_free e s2" if "ForgetIP e x s1 = (q, s2)" "null_free e s1" for x q s1 s2
    using that(2) by (rule registry_only_null_free) (use registry_ops_other(2) [of _ e x s1] that(1) in simp)
  have print: "null_free e s2" if "ext f s1 = (q, s2)" "null_free e s1" for f s1 q s2
    using that ext_frame(2) [of f s1] null_free_files by (metis snd_conv)
  show ?thesis
    using assms(1) unfolding finish_add_def Let_def
    by (simp only: run option.inject prod.inject)
       (auto dest!: up dest: route_cidrs_null_free forget print)
qed

lemma ipam_cmdAdd_null_free:
  assumes "ipam_cmdAdd e a args s = Some (r, s')" and "null_free e s"
  shows "null_free e s'"
proof -
  have reuse: "null_free e s1" if "reuse_ip e conf s = Some (q, s1)" for conf q s1
    using assms(2) by (rule null_free_other) (rule reuse_ip_other [OF that])
  have alloc: "null_free e s2" if "allocate_ip e conf s1 = Some (q, s2)" "null_free e s1" for conf q s1 s2
    using that(2) by (rule null_free_other) (rule allocate_ip_other [OF that(1)])
  show ?thesis
    using assms unfolding ipam_cmdAdd_def Let_def
    by (simp only: run option.inject prod.inject)
       (auto dest!: reuse dest: alloc finish_add_null_free)
qed

text \<open>What the outside world is assumed to do, for the whole execution.\<close>

definition node_env :: "'w env \<Rightarrow> ('w \<Rightarrow> int) \<Rightarrow> bool" where
  "node_env e clk =
     (healthy e clk \<and> iddoc_ok e \<and> v4_blocks e \<and> go_sort Interfaces_Less (os_sort_ifaces (os e)) \<and> rand_ok e)"

lemma node_envD:
  assumes "node_env e clk"
  shows "healthy e clk" "v4_blocks e" "go_sort Interfaces_Less (os_sort_ifaces (os e))" "rand_ok e"
    and "calm e clk" "range_ok e" "go_sort Subnets_Less (os_sort_subnets (os e))" "fst (GetInterfaces e s) \<noteq> Inr []"
  using assms by (simp_all add: node_env_def healthy_def)

lemma ipam_cmdAdd_keeps:
  assumes "node_env e clk"
  shows "keeps e (ipam_cmdAdd e a args)"
proof (rule keepsI)
  fix s assume s: "ready e s"
  note env = node_envD [OF assms] and s' = s [unfolded ready_def null_free_def]
  obtain r s1 where run: "ipam_cmdAdd e a args s = Some (r, s1)"
    using ipam_add_total [OF env(1) _ _ env(2, 3)] s' by blast
  have "registry_ok e s1 \<and> client_ready e (client s1)"
  proof (cases "parseConfig (caStdinData args)")
    case (Inl x)
    then show ?thesis using run s' by (simp add: ipam_cmdAdd_def)
  next
    case (Inr conf)
    show ?thesis
    proof (cases rule: ipam_add_alloc [OF env(1) _ _ Inr, of s a])
      case (4 al s2)
      then show ?thesis using finish_add_result [of e a conf al s2 r s1] run by simp
    qed (use s' run in auto)
  qed
  moreover have "null_free e s1" using ipam_cmdAdd_null_free [OF run] s by (simp add: ready_def)
  ultimately show "\<exists>r s'. ipam_cmdAdd e a args s = Some (r, s') \<and> ready e s'"
    using run by (auto simp: ready_def)
qed

lemma container_addrs_files: "fs_files (snd (container_addrs e p n s)) = fs_files s"
  and container_addrs_dirs: "fs_dirs (snd (container_addrs e p n s)) = fs_dirs s"
  and container_addrs_client: "client (snd (container_addrs e p n s)) = client s"
  by (simp_all add: container_addrs_def case_prod_unfold Let_def split: option.splits sum.splits)

lemma DeallocateIP_ready:
  assumes "ready e s"
  obtains r s' where "DeallocateIP e x s = Some (r, s')" "ready e s'"
proof -
  obtain r s' where d: "DeallocateIP e x s = Some (r, s')" "registry_ok e s'" "client_ready e (client s')"
    using DeallocateIP_keeps assms unfolding ready_def by metis
  have "fs_files s' = fs_files s" using DeallocateIP_files [OF d(1)] by simp
  with d that assms null_free_files show thesis unfolding ready_def by metis
qed

lemma registry_op_ready:
  assumes "ready e s"
  shows "fst (TrackIP e x s) = None \<and> ready e (snd (TrackIP e x s))"
    and "fst (ForgetIP e x s) = None \<and> ready e (snd (ForgetIP e x s))"
proof -
  have ok: "registry_ok e s" "client_ready e (client s)" "null_free e s" using assms by (simp_all add: ready_def)
  have n: "null_free e (snd (TrackIP e x s))" "null_free e (snd (ForgetIP e x s))"
    using ok(3) by (rule registry_only_null_free, simp add: registry_ops_other)+
  show "fst (TrackIP e x s) = None \<and> ready e (snd (TrackIP e x s))"
    using reg.track_law [OF ok(1), of x] ok(2) n(1) by (auto simp: ready_def registry_rest_def)
  show "fst (ForgetIP e x s) = None \<and> ready e (snd (ForgetIP e x s))"
    using reg.forget_law [OF ok(1), of x] ok(2) n(2) by (auto simp: ready_def registry_rest_def)
qed

lemma release_ips_keeps: "keeps e (release_ips e skip xs)"
proof (induction xs)
  case Nil
  then show ?case by (simp add: keeps_def)
next
  case (Cons x xs)
  show ?case
  proof (rule keepsI)
    fix s assume s: "ready e s"
    obtain r s1 where d: "(if skip then Some (None, s) else DeallocateIP e x s) = Some (r, s1)" "ready e s1"
      using s DeallocateIP_ready [OF s, of x] by (cases skip) auto
    have t: "fst (TrackIP e x s1) = None" "ready e (snd (TrackIP e x s1))" using registry_op_ready(1) [OF d(2)] by auto
    obtain r2 s2 where "release_ips e skip xs (snd (TrackIP e x s1)) = Some (r2, s2)" "ready e s2"
      using keepsE [OF Cons.IH t(2)] .
    with d t show "\<exists>r s'. release_ips e skip (x # xs) s = Some (r, s') \<and> ready e s'"
      by (cases r) (auto simp: case_prod_unfold Let_def)
  qed
qed

lemma ipam_cmdDel_keeps: "keeps e (ipam_cmdDel e args)"
proof (rule keepsI)
  fix s assume s: "ready e s"
  have c: "ready e (snd (container_addrs e p n s))" for p n
    using s registry_footprint(1) [OF container_addrs_files [of e p n s] container_addrs_dirs [of e p n s], of e]
      null_free_files [OF container_addrs_files [of e p n s], of e]
    by (simp add: ready_def container_addrs_client)
  show "\<exists>r s'. ipam_cmdDel e args s = Some (r, s') \<and> ready e s'"
  proof (cases "parseConfig (caStdinData args)")
    case (Inl x)
    then show ?thesis using s by (simp add: ipam_cmdDel_def)
  next
    case (Inr conf)
    then show ?thesis
      using keepsE [OF release_ips_keeps c] by (simp add: ipam_cmdDel_def case_prod_unfold Let_def) metis
  qed
qed

subsection \<open>The tool\<close>

lemma reap_other:
  "reap e assigned ips m s = Some (r, s') \<Longrightarrow> p \<noteq> registry_json e \<Longrightarrow> fs_files s' p = fs_files s p"
proof (induction ips arbitrary: m s r)
  case (Cons x ips)
  have f: "fs_files s2 p = fs_files s1 p" if "ForgetIP e x s1 = (q, s2)" for s1 q s2
    using registry_ops_other(2) [OF Cons.prems(2), of x s1] that by simp
  show ?case
    using Cons.prems(1)
    by (simp add: Let_def case_prod_unfold bind_eq_Some_conv split: if_splits option.splits)
       (auto dest!: Cons.IH [OF _ Cons.prems(2)] DeallocateIP_files simp: f prod_eq_iff registry_ops_other(2) [OF Cons.prems(2)])
qed simp

lemma registry_gc_keeps:
  assumes "node_env e clk" and "0 < freeAfter \<longrightarrow> freeAfter < 2 ^ 62 \<and> 0 < times_15 freeAfter" "maxReap < 2 ^ 63"
  shows "keeps e (registry_gc e maxReap freeAfter)"
proof (rule keepsI)
  fix s assume s: "ready e s"
  note env = node_envD [OF assms(1)]
  obtain released err s' where gc: "registry_gc e maxReap freeAfter s = Some ((released, err), s')" "registry_ok e s'"
    "client_ready e (client s')"
    using registry_gc_law [OF _ _ env(6, 4) assms(2, 3)] s unfolding ready_def by blast
  have frames: "Jitter e d k s = Some (q, s1) \<Longrightarrow> fs_files s1 = fs_files s" "ext f s = (q', s1) \<Longrightarrow> fs_files s1 = fs_files s"
    "GetIPs e s = (q'', s1) \<Longrightarrow> fs_files s1 = fs_files s" for d k q q' q'' s s1 and f :: "_ \<Rightarrow> gotime \<times> _"
    using GetIPs_frame(1) [of e s] ext_frame(2) [of f s]
    by (auto simp: Jitter_def ext_def case_prod_unfold Let_def split: if_splits)
  have "null_free e s'"
  proof (rule registry_only_null_free)
    show "null_free e s" using s by (simp add: ready_def)
    fix p assume p: "p \<noteq> registry_json e"
    show "fs_files s' p = fs_files s p"
      using gc(1) unfolding registry_gc_def Let_def
      by (simp only: run option.inject prod.inject)
         (auto dest!: frames TrackedBefore_other [OF _ p] reap_other [OF _ p])
  qed
  with gc show "\<exists>r s'. registry_gc e maxReap freeAfter s = Some (r, s') \<and> ready e s'" by (auto simp: ready_def)
qed

lemma deallocate_each_keeps: "keeps e (deallocate_each e ips)"
proof (induction ips)
  case Nil
  then show ?case by (simp add: keeps_def)
next
  case (Cons x ips)
  show ?case
  proof (rule keepsI)
    fix s assume s: "ready e s"
    show "\<exists>r s'. deallocate_each e (x # ips) s = Some (r, s') \<and> ready e s'"
    proof (cases "ParseIP (os_txt6 (os e)) x")
      case (Some y)
      obtain r s1 where d: "DeallocateIP e y s = Some (r, s1)" "ready e s1" using DeallocateIP_ready [OF s] .
      obtain r2 s2 where "deallocate_each e ips s1 = Some (r2, s2)" "ready e s2" using keepsE [OF Cons.IH d(2)] .
      then show ?thesis using s Some d by (cases r) simp_all
    qed (use s in simp)
  qed
qed

lemma AllocateIPs_keeps:
  assumes "node_env e clk"
  shows "keeps e (AllocateIPsFirstAvailableAtIndex e index batch)"
proof (rule keepsI)
  fix s assume s: "ready e s"
  note s' = s [unfolded ready_def]
  obtain results err s1 where run: "AllocateIPsFirstAvailableAtIndex e index batch s = Some ((results, err), s1)"
    using FirstAvailable_returns [of e s index batch] node_envD(8) [OF assms] s' by blast
  have "registry_ok e s1 \<and> client_ready e (client s1)" using FirstAvailable_result [OF _ _ run] s' by blast
  moreover have "null_free e s1" using null_free_other [OF _ FirstAvailable_other [OF run]] s' by blast
  ultimately show "\<exists>r s'. AllocateIPsFirstAvailableAtIndex e index batch s = Some (r, s') \<and> ready e s'"
    using run by (auto simp: ready_def)
qed

lemma NewInterface_keeps:
  assumes "node_env e clk"
  shows "keeps e (NewInterface e secGrps tags batch)"
proof (rule keepsI)
  fix s assume s: "ready e s"
  note s' = s [unfolded ready_def] and env = node_envD [OF assms]
  obtain r s1 where run: "NewInterface e secGrps tags batch s = Some (r, s1)" "registry_ok e s1" "client_ready e (client s1)"
    using NewInterface_law [OF env(5) _ _ env(8, 7), of s] s' by blast
  moreover have "null_free e s1" using null_free_other [OF _ NewInterface_other [OF run(1)]] s' by blast
  ultimately show "\<exists>r s'. NewInterface e secGrps tags batch s = Some (r, s') \<and> ready e s'"
    by (auto simp: ready_def)
qed

section \<open>The state machine\<close>

text \<open>The runs that change the registry, with the parsed arguments of the command line.\<close>

datatype node_cmd =
    Plugin cni_command CmdArgs
  | Collect cli_context
  | Deallocate cli_context
  | Allocate cli_context
  | NewIface cli_context

fun run_cmd :: "'w env \<Rightarrow> 'w cni_api \<Rightarrow> (printed \<Rightarrow> 'w \<Rightarrow> 'w) \<Rightarrow> node_cmd \<Rightarrow> 'w st \<Rightarrow> 'w st option" where
  "run_cmd e a out (Plugin cmd args) s = map_option snd (ipam_main e a cmd args s)"
| "run_cmd e a out (Collect c) s = map_option snd (actionRegistryGc e out c s)"
| "run_cmd e a out (Deallocate c) s = map_option snd (actionDeallocate e out c s)"
| "run_cmd e a out (Allocate c) s = map_option snd (actionAllocate e out c s)"
| "run_cmd e a out (NewIface c) s = map_option snd (actionNewInterface e out c s)"

text \<open>Numbers on the command line are 64-bit ones. A collection after a few nanoseconds or after more than
  146 years is left out: the first panics in \<^verbatim>\<open>rand.Int63n\<close>.\<close>

fun sensible :: "node_cmd \<Rightarrow> bool" where
  "sensible (Collect c) =
     ((0 < c_Int c ''free-after'' \<longrightarrow> c_Int c ''free-after'' < 2 ^ 62 \<and> 0 < times_15 (c_Int c ''free-after'')) \<and>
      c_Int c ''max-reap'' < 2 ^ 63)"
| "sensible _ = True"

text \<open>A run is a process of its own: it starts with an empty AWS client. Whatever else happens on the node leaves the registry as it is and writes no null into a cache.\<close>

inductive node_reach :: "'w env \<Rightarrow> 'w cni_api \<Rightarrow> (printed \<Rightarrow> 'w \<Rightarrow> 'w) \<Rightarrow> 'w st \<Rightarrow> 'w st \<Rightarrow> bool"
  for e a out s0 where
  start: "node_reach e a out s0 s0"
| command: "node_reach e a out s0 s \<Longrightarrow> sensible cmd \<Longrightarrow>
     run_cmd e a out cmd (s\<lparr>client := fresh_client\<rparr>) = Some s' \<Longrightarrow> node_reach e a out s0 s'"
| outside: "node_reach e a out s0 s \<Longrightarrow> same_registry e s s' \<Longrightarrow> null_free e s' \<Longrightarrow> node_reach e a out s0 s'"

definition node_ok :: "'w env \<Rightarrow> 'w st \<Rightarrow> bool" where
  "node_ok e s = (registry_ok e s \<and> null_free e s)"

lemma ready_start: "node_ok e s \<Longrightarrow> iddoc_ok e \<Longrightarrow> ready e (s\<lparr>client := fresh_client\<rparr>)"
  by (simp add: node_ok_def ready_def registry_ok_def null_free_def null_cached_def)

lemma run_locked: "keeps e f \<Longrightarrow> ready e s \<Longrightarrow> \<exists>s'. map_option snd (LockfileRun e f s) = Some s' \<and> ready e s'"
  by (drule LockfileRun_keeps, erule (1) keepsE) simp

lemma run_cmd_ready:
  assumes "node_env e clk" and "sensible cmd" and "ready e s"
  shows "\<exists>s'. run_cmd e a out cmd s = Some s' \<and> ready e s'"
proof (cases cmd)
  case (Plugin c args)
  have "keeps e (ipam_cmdCheck args)" by (simp add: keeps_def ipam_cmdCheck_def)
  then have "keeps e (\<lambda>s. case c of ADD \<Rightarrow> ipam_cmdAdd e a args s | CHECK \<Rightarrow> ipam_cmdCheck args s | DEL \<Rightarrow> ipam_cmdDel e args s)"
    using ipam_cmdAdd_keeps [OF assms(1)] ipam_cmdDel_keeps by (cases c) simp_all
  then have "keeps e (skel_PluginMain e a c args)"
    unfolding skel_PluginMain_def by (rule keeps_bind) (simp add: keeps_def)
  then obtain r s' where "LockfileRun_exit e (skel_PluginMain e a c args) s = Some (r, s')" "ready e s'"
    using keepsE [OF LockfileRun_exit_keeps assms(3)] by blast
  with Plugin show ?thesis by (simp add: ipam_main_def)
next
  case (Collect c)
  have "keeps e (registry_gc e (c_Int c ''max-reap'') (c_Int c ''free-after''))"
    using assms(2) Collect by (intro registry_gc_keeps [OF assms(1)]) simp_all
  from run_locked [OF keeps_bind [OF this] assms(3), where g1 = "\<lambda>(_, err) s. Some (err, s)"] Collect show ?thesis
    by (simp add: actionRegistryGc_def keeps_def case_prod_unfold)
next
  case (Deallocate c)
  then show ?thesis
    using run_locked [OF deallocate_each_keeps assms(3)] by (simp add: actionDeallocate_def)
next
  case (Allocate c)
  from run_locked [OF keeps_bind [OF AllocateIPs_keeps [OF assms(1)]] assms(3),
      where g1 = "\<lambda>(res, err) s. Some (err, print_all out (map (\<lambda>a. PAllocated (arIP a) (LocalName (arInterface a))) res) s)"]
    Allocate
  show ?thesis by (simp add: actionAllocate_def keeps_def case_prod_unfold)
next
  case (NewIface c)
  have "keeps e (\<lambda>s. do { (r, s) \<leftarrow> NewInterface e secGrps tags batch s;
      case r of Inl err \<Rightarrow> Some (Some err, s) | Inr newIf \<Rightarrow> Some (None, print_all out [PInterface newIf] s) })" for secGrps tags batch
  proof (rule keeps_bind [OF NewInterface_keeps [OF assms(1)]])
    fix r :: "Interface res"
    show "keeps e (\<lambda>s. case r of Inl err \<Rightarrow> Some (Some err, s) | Inr newIf \<Rightarrow> Some (None, print_all out [PInterface newIf] s))"
      by (cases r) (simp_all add: keeps_def)
  qed
  then have "keeps e (\<lambda>s. case filterBuild (c_String c ''subnet_filter'') of
         Inl err \<Rightarrow> Some (Some err, s)
       | Inr filters \<Rightarrow>
           if c_Args c = [] then Some (Some (Errorf ''need security groups''), s)
           else do { (r, s) \<leftarrow> NewInterface e (c_Args c) filters (c_Int c ''ip_batch_size'') s;
                     case r of
                       Inl err \<Rightarrow> Some (Some err, s)
                     | Inr newIf \<Rightarrow> Some (None, print_all out [PInterface newIf] s) })"
    by (cases "filterBuild (c_String c ''subnet_filter'')"; cases "c_Args c = []") (simp_all add: keeps_def)
  from run_locked [OF this assms(3)] NewIface show ?thesis by (simp add: actionNewInterface_def)
qed

lemma node_reach_ok:
  assumes "node_reach e a out s0 s" and "node_env e clk" and "node_ok e s0"
  shows "node_ok e s"
  using assms(1)
proof (induction rule: node_reach.induct)
  case start
  show ?case by (rule assms(3))
next
  case (command s cmd s')
  have "iddoc_ok e" using assms(2) by (simp add: node_env_def)
  from run_cmd_ready [OF assms(2) command.hyps(2) ready_start [OF command.IH this], of a out] command.hyps(3)
  show ?case by (auto simp: ready_def node_ok_def)
next
  case (outside s s')
  then show ?case by (auto simp: node_ok_def dest: same_registryD)
qed

end
