(* ===== verification/Ptp.thy ===== *)
theory Ptp
  imports Nl Cni "HOL-Library.List_Lexorder" "HOL-Library.Char_ord"
begin

text \<open>
  \<^verbatim>\<open>plugin/unnumbered-ptp/unnumbered-ptp.go\<close>: the chained plugin that connects a pod to its host with an
  unnumbered veth pair, routes the pod's blocks through a free policy routing table and marks node port
  traffic. Netlink, iptables, sysctl, ARP and the CNI helper library are parameters; the first argument
  of calls that may run inside the container is the namespace's path, empty for the host's. The
  messages on standard error, whose outcome this plugin does not test, are left out.
\<close>

record 'w ptp_api =
  nl_RuleList :: "nat \<Rightarrow> 'w \<Rightarrow> nl_rule list res \<times> 'w"
  nl_NewRule :: nl_rule
  nl_RuleAdd :: "nl_rule \<Rightarrow> 'w \<Rightarrow> error option \<times> 'w"
  nl_RuleDel :: "nl_rule \<Rightarrow> 'w \<Rightarrow> error option \<times> 'w"
  nl_RouteAdd :: "string \<Rightarrow> nl_route \<Rightarrow> 'w \<Rightarrow> error option \<times> 'w"
  nl_AddrListAll :: "link \<Rightarrow> 'w \<Rightarrow> addr list res \<times> 'w"
  nl_LinkByIndex :: "int \<Rightarrow> 'w \<Rightarrow> link res \<times> 'w"
  net_InterfaceByName :: "string \<Rightarrow> string \<Rightarrow> 'w \<Rightarrow> (string \<times> int) res \<times> 'w"
  ipt_New :: "string \<Rightarrow> 'w \<Rightarrow> error option \<times> 'w"
  ipt_HasRandomFully :: "string \<Rightarrow> 'w \<Rightarrow> bool \<times> 'w"
  ipt_AppendUnique :: "string \<Rightarrow> string \<Rightarrow> string \<Rightarrow> string list \<Rightarrow> 'w \<Rightarrow> error option \<times> 'w"
  sysctl_Set :: "string \<Rightarrow> string \<Rightarrow> 'w \<Rightarrow> error option \<times> 'w"
  arp_Gratuitous :: "string \<Rightarrow> ip \<Rightarrow> string \<Rightarrow> 'w \<Rightarrow> error option \<times> 'w"
  ip_EnableForward :: "string \<Rightarrow> nat \<Rightarrow> 'w \<Rightarrow> error option \<times> 'w"
  ip_SetupVeth :: "string \<Rightarrow> string \<Rightarrow> int \<Rightarrow> 'w \<Rightarrow> (string \<times> string \<times> string) res \<times> 'w"
  ip_SetupIPMasq :: "ipnet \<Rightarrow> string \<Rightarrow> string \<Rightarrow> 'w \<Rightarrow> error option \<times> 'w"
  ip_TeardownIPMasq :: "ipnet \<Rightarrow> string \<Rightarrow> string \<Rightarrow> 'w \<Rightarrow> error option \<times> 'w"
  ip_GetVethPeerIfindex :: "string \<Rightarrow> string \<Rightarrow> 'w \<Rightarrow> int res \<times> 'w"
  ut_FormatChainName :: "string \<Rightarrow> string \<Rightarrow> string"
  ut_FormatComment :: "string \<Rightarrow> string \<Rightarrow> string"
  rand_Intn :: "int \<Rightarrow> 'w \<Rightarrow> int \<times> 'w"
  sort_routes :: "cni_route list \<Rightarrow> cni_route list"

section \<open>Configuration\<close>

definition maxSleep :: int where "maxSleep = 10000"

definition baseSleep :: int where "baseSleep = 20"

definition RPFilterTemplate :: "string \<Rightarrow> string" where
  "RPFilterTemplate ifName = ''net.ipv4.conf.'' @ ifName @ ''.rp_filter''"

definition podRulePriority :: int where "podRulePriority = 1024"

definition nodePortRulePriority :: int where "nodePortRulePriority = 512"

record PtpConf =
  ptName :: string
  ptCNIVersion :: string
  ptRawPrevResult :: "json option"
  ptPrevResult :: "CniResult option"
  ptIPMasq :: bool
  ptHostInterface :: string
  ptContainerInterface :: string
  ptMTU :: int
  ptTableStart :: int
  ptNodePortMark :: int
  ptNodePorts :: string

definition PtpConf_field :: "string \<Rightarrow> json \<Rightarrow> PtpConf \<Rightarrow> PtpConf option" where
  "PtpConf_field k v c =
     (if eq_fold k ''name'' then map_option (\<lambda>x. c\<lparr>ptName := x\<rparr>) (decode_string v (ptName c))
      else if eq_fold k ''cniVersion'' then map_option (\<lambda>x. c\<lparr>ptCNIVersion := x\<rparr>) (decode_string v (ptCNIVersion c))
      else if eq_fold k ''prevResult'' then map_option (\<lambda>x. c\<lparr>ptRawPrevResult := x\<rparr>) (decode_raw v)
      else if eq_fold k ''ipMasq'' then map_option (\<lambda>x. c\<lparr>ptIPMasq := x\<rparr>) (decode_bool v (ptIPMasq c))
      else if eq_fold k ''hostInterface'' then
        map_option (\<lambda>x. c\<lparr>ptHostInterface := x\<rparr>) (decode_string v (ptHostInterface c))
      else if eq_fold k ''containerInterface'' then
        map_option (\<lambda>x. c\<lparr>ptContainerInterface := x\<rparr>) (decode_string v (ptContainerInterface c))
      else if eq_fold k ''mtu'' then map_option (\<lambda>x. c\<lparr>ptMTU := x\<rparr>) (decode_int v (ptMTU c))
      else if eq_fold k ''routeTableStart'' then map_option (\<lambda>x. c\<lparr>ptTableStart := x\<rparr>) (decode_int v (ptTableStart c))
      else if eq_fold k ''nodePortMark'' then map_option (\<lambda>x. c\<lparr>ptNodePortMark := x\<rparr>) (decode_int v (ptNodePortMark c))
      else if eq_fold k ''nodePorts'' then map_option (\<lambda>x. c\<lparr>ptNodePorts := x\<rparr>) (decode_string v (ptNodePorts c))
      else Some c)"

definition zero_PtpConf :: PtpConf where
  "zero_PtpConf =
     \<lparr>ptName = [], ptCNIVersion = [], ptRawPrevResult = None, ptPrevResult = None, ptIPMasq = False,
      ptHostInterface = [], ptContainerInterface = [], ptMTU = 0, ptTableStart = 0, ptNodePortMark = 0,
      ptNodePorts = []\<rparr>"

definition ptp_defaults :: "PtpConf \<Rightarrow> PtpConf" where
  "ptp_defaults conf =
     (let conf = (if ptNodePorts conf = [] then conf\<lparr>ptNodePorts := ''30000:32767''\<rparr> else conf);
          conf = (if ptNodePortMark conf = 0 then conf\<lparr>ptNodePortMark := 0x2000\<rparr> else conf)
      in if ptTableStart conf = 0 then conf\<lparr>ptTableStart := 256\<rparr> else conf)"

definition ptp_parseConfig :: "'w env \<Rightarrow> 'w cni_api \<Rightarrow> json option \<Rightarrow> 'w st \<Rightarrow> PtpConf res \<times> 'w st" where
  "ptp_parseConfig e c stdin s =
     (case Option.bind stdin (\<lambda>js. decode_struct PtpConf_field js zero_PtpConf) of
        None \<Rightarrow> (Inl (Errorf ''failed to parse network configuration''), s)
      | Some conf \<Rightarrow>
          (case parse_prev c (ptCNIVersion conf) (ptRawPrevResult conf) of
             Inl err \<Rightarrow> (Inl err, s)
           | Inr prev \<Rightarrow>
               (let conf = conf\<lparr>ptRawPrevResult := None, ptPrevResult := prev\<rparr>
                in if ptHostInterface conf = [] then (Inl (Errorf ''hostInterface must be specified''), s)
                   else (let (mtu, s) = (if ptMTU conf = 0 then GetMtu e (ptHostInterface conf) s else (Inr (ptMTU conf), s))
                         in case mtu of
                              Inl _ \<Rightarrow> (Inl (Errorf ''unable to get MTU for hostInterface''), s)
                            | Inr m \<Rightarrow>
                                if ptContainerInterface conf = []
                                then (Inl (Errorf ''containerInterface must be specified''), s)
                                else (Inr (ptp_defaults (conf\<lparr>ptMTU := m\<rparr>)), s)))))"

section \<open>Forwarding and masquerading\<close>

definition enableForwarding :: "'w ptp_api \<Rightarrow> string \<Rightarrow> bool \<Rightarrow> bool \<Rightarrow> 'w st \<Rightarrow> error option \<times> 'w st" where
  "enableForwarding p ns ipv4 ipv6 s =
     (let (err, s) = (if ipv4 then ext (ip_EnableForward p ns 4) s else (None, s))
      in case err of
           Some x \<Rightarrow> (Some (Wrap ''Could not enable IPv6 forwarding'' x), s)
         | None \<Rightarrow>
             (let (err, s) = (if ipv6 then ext (ip_EnableForward p ns 6) s else (None, s))
              in case err of
                   Some x \<Rightarrow> (Some (Wrap ''Could not enable IPv6 forwarding'' x), s)
                 | None \<Rightarrow> (None, s)))"

definition setupSNAT :: "'w ptp_api \<Rightarrow> string \<Rightarrow> string \<Rightarrow> string \<Rightarrow> 'w st \<Rightarrow> error option \<times> 'w st" where
  "setupSNAT p ns ifName comment s =
     (let (err, s) = ext (ipt_New p ns) s
      in case err of
           Some x \<Rightarrow> (Some (Wrap ''failed to locate iptables'' x), s)
         | None \<Rightarrow>
             (let (fully, s) = ext (ipt_HasRandomFully p ns) s;
                  rulespec = [''-o'', ifName, ''-j'', ''MASQUERADE''] @ (if fully then [''--random-fully''] else []) @
                             [''-m'', ''comment'', ''--comment'', comment]
              in ext (ipt_AppendUnique p ns ''nat'' ''POSTROUTING'' rulespec) s))"

section \<open>Policy routing\<close>

definition maxUint32 :: int where "maxUint32 = 4294967295"

function first_free :: "int list \<Rightarrow> int \<Rightarrow> int option" where
  "first_free used i =
     (if i < maxUint32 then (if i \<in> set used then first_free used (i + 1) else Some i) else None)"
  by pat_completeness auto
termination by (relation "measure (\<lambda>(used, i). nat (maxUint32 - i))") auto

declare first_free.simps [simp del]

definition findFreeTable :: "'w ptp_api \<Rightarrow> int \<Rightarrow> 'w st \<Rightarrow> int res \<times> 'w st" where
  "findFreeTable p start s =
     (let (r, s) = ext (nl_RuleList p 4) s
      in case r of
           Inl err \<Rightarrow> (Inl err, s)
         | Inr rules4 \<Rightarrow>
             (let (r, s) = ext (nl_RuleList p 6) s
              in case r of
                   Inl err \<Rightarrow> (Inl err, s)
                 | Inr rules6 \<Rightarrow>
                     (case first_free (map nuTable (rules4 @ rules6)) start of
                        Some i \<Rightarrow> (Inr i, s)
                      | None \<Rightarrow> (Inl (Errorf ''failed to find free route table''), s))))"

text \<open>The order \<^verbatim>\<open>sort.Slice\<close> is given: the texts of the destinations, compared byte by byte.\<close>

definition route_Less :: "txt6 \<Rightarrow> cni_route \<Rightarrow> cni_route \<Rightarrow> bool" where
  "route_Less t a b = (ipnet_String t (rtDst a) < ipnet_String t (rtDst b))"

definition pod_route :: "int \<Rightarrow> ip \<Rightarrow> int \<Rightarrow> cni_route \<Rightarrow> nl_route" where
  "pod_route link gw table route =
     \<lparr>nrLinkIndex = link, nrScope = 0, nrDst = Some (rtDst route), nrGw = Some gw, nrTable = table\<rparr>"

text \<open>The routes of one attempt, up to the first that netlink refuses.\<close>

fun add_routes :: "'w ptp_api \<Rightarrow> int \<Rightarrow> ip \<Rightarrow> int \<Rightarrow> cni_route list \<Rightarrow> 'w st \<Rightarrow> bool \<times> 'w st" where
  "add_routes p link gw table [] s = (True, s)"
| "add_routes p link gw table (route # routes) s =
     (let (err, s) = ext (nl_RouteAdd p [] (pod_route link gw table route)) s
      in case err of Some _ \<Rightarrow> (False, s) | None \<Rightarrow> add_routes p link gw table routes s)"

text \<open>\<^verbatim>\<open>math.Min(maxSleep, baseSleep * math.Pow(2, i))\<close>: whole numbers, exact in floating point.\<close>

definition backoff :: "nat \<Rightarrow> int" where
  "backoff i = min maxSleep (baseSleep * 2 ^ i)"

text \<open>The loop over the attempts: \<open>n\<close> are left, \<open>i\<close> is the number of the next one.\<close>

fun write_table ::
    "'w env \<Rightarrow> 'w ptp_api \<Rightarrow> int \<Rightarrow> ip \<Rightarrow> cni_route list \<Rightarrow> int \<Rightarrow> nat \<Rightarrow> nat \<Rightarrow> 'w st \<Rightarrow> int res \<times> 'w st" where
  "write_table e p link gw routes tableStart 0 i s = (Inr (- 1), s)"
| "write_table e p link gw routes tableStart (Suc n) i s =
     (let (jitter, s) = ext (rand_Intn p 1000) s;
          (r, s) = findFreeTable p (wrap64 (tableStart + jitter)) s
      in case r of
           Inl err \<Rightarrow> (Inl err, s)
         | Inr table \<Rightarrow>
             (let (done, s) = add_routes p link gw table routes s
              in if done \<and> table \<noteq> - 1 then (Inr table, s)
                 else (let (wait, s) = ext (rand_Intn p (backoff i)) s;
                           s = time_Sleep e (wait * 1000000) s
                       in write_table e p link gw routes tableStart n (Suc i) s)))"

text \<open>\<^verbatim>\<open>sort.Slice\<close> works on the caller's slice: the sorted routes are answered too.\<close>

definition addPolicyRules ::
    "'w env \<Rightarrow> 'w ptp_api \<Rightarrow> string \<times> int \<Rightarrow> IPConfig \<Rightarrow> cni_route list \<Rightarrow> int \<Rightarrow> 'w st \<Rightarrow>
     (error option \<times> cni_route list) \<times> 'w st" where
  "addPolicyRules e p veth ipc routes tableStart s =
     (let routes = sort_routes p routes;
          (r, s) = write_table e p (snd veth) (net_ip (icAddress ipc)) routes tableStart 10 0 s
      in case r of
           Inl err \<Rightarrow> ((Some err, routes), s)
         | Inr table \<Rightarrow>
             if table = - 1 then ((Some (Errorf ''failed to add routes to a free table''), routes), s)
             else (let (err, s) = ext (nl_RuleAdd p ((nl_NewRule p)\<lparr>nuIifName := fst veth, nuTable := table,
                                                                     nuPriority := podRulePriority\<rparr>)) s
                   in ((map_option (Wrap ''failed to add policy rule'') err, routes), s)))"

section \<open>Node ports\<close>

definition nodeport_comment :: "string list" where
  "nodeport_comment = [''-m'', ''comment'', ''--comment'', ''NodePort Mark'']"

definition nodeport_rules :: "string \<Rightarrow> string \<Rightarrow> int \<Rightarrow> string list list" where
  "nodeport_rules ifName nodePorts nodePortMark =
     [[''-i'', ifName, ''-p'', ''tcp'', ''--dport'', nodePorts, ''-j'', ''CONNMARK'', ''--set-mark'',
       int_str nodePortMark] @ nodeport_comment,
      [''-i'', ifName, ''-p'', ''udp'', ''--dport'', nodePorts, ''-j'', ''CONNMARK'', ''--set-mark'',
       int_str nodePortMark] @ nodeport_comment,
      [''-i'', ''veth+'', ''-j'', ''CONNMARK'', ''--restore-mark''] @ nodeport_comment]"

fun append_rules :: "'w ptp_api \<Rightarrow> string list list \<Rightarrow> 'w st \<Rightarrow> error option \<times> 'w st" where
  "append_rules p [] s = (None, s)"
| "append_rules p (r # rs) s =
     (let (err, s) = ext (ipt_AppendUnique p [] ''mangle'' ''PREROUTING'' r) s
      in case err of Some x \<Rightarrow> (Some x, s) | None \<Rightarrow> append_rules p rs s)"

definition setupNodePortRule :: "'w ptp_api \<Rightarrow> string \<Rightarrow> string \<Rightarrow> int \<Rightarrow> 'w st \<Rightarrow> error option \<times> 'w st" where
  "setupNodePortRule p ifName nodePorts nodePortMark s =
     (let (err, s) = ext (ipt_New p []) s
      in case err of
           Some x \<Rightarrow> (Some (Wrap ''failed to locate iptables'' x), s)
         | None \<Rightarrow>
             (let (err, s) = append_rules p (nodeport_rules ifName nodePorts nodePortMark) s
              in case err of
                   Some x \<Rightarrow> (Some x, s)
                 | None \<Rightarrow>
                     (let (err, s) = ext (sysctl_Set p (RPFilterTemplate ifName) ''2'') s
                      in case err of
                           Some x \<Rightarrow> (Some (Wrap ''failed to set RP filter to loose for interface'' x), s)
                         | None \<Rightarrow>
                             (let rule = (nl_NewRule p)\<lparr>nuMark := nodePortMark, nuTable := 254,
                                                       nuPriority := nodePortRulePriority\<rparr>;
                                  (r, s) = ext (nl_RuleList p 4) s
                              in case r of
                                   Inl x \<Rightarrow> (Some (Wrap ''Unable to retrieve IP rules'' x), s)
                                 | Inr rules \<Rightarrow>
                                     if list_ex (\<lambda>r. nuTable r = nuTable rule \<and> nuMark r = nuMark rule \<and>
                                                     nuPriority r = nuPriority rule) rules
                                     then (None, s)
                                     else (let (err, s) = ext (nl_RuleAdd p rule) s
                                           in (map_option (Wrap ''failed to add policy rule'') err, s))))))"

section \<open>The veth pair\<close>

text \<open>Link scoped routes to single addresses.\<close>

fun add_host_routes :: "'w ptp_api \<Rightarrow> string \<Rightarrow> int \<Rightarrow> ip list \<Rightarrow> 'w st \<Rightarrow> error option \<times> 'w st" where
  "add_host_routes p ns link [] s = (None, s)"
| "add_host_routes p ns link (x # xs) s =
     (let (err, s) = ext (nl_RouteAdd p ns \<lparr>nrLinkIndex = link, nrScope = 253,
                                             nrDst = Some \<lparr>net_ip = x, net_prefix = ip_bits x\<rparr>,
                                             nrGw = None, nrTable = 0\<rparr>) s
      in case err of
           Some y \<Rightarrow> (Some (Wrap ''failed to add host route dst'' y), s)
         | None \<Rightarrow> add_host_routes p ns link xs s)"

text \<open>Gratuitous ARP, its errors ignored.\<close>

fun arp_all :: "'w ptp_api \<Rightarrow> string \<Rightarrow> string \<Rightarrow> ip list \<Rightarrow> 'w st \<Rightarrow> 'w st" where
  "arp_all p ns ifName [] s = s"
| "arp_all p ns ifName (x # xs) s = arp_all p ns ifName xs (snd (ext (arp_Gratuitous p ns x ifName) s))"

definition masq_in_container :: "'w ptp_api \<Rightarrow> string \<Rightarrow> bool \<Rightarrow> bool \<Rightarrow> string \<Rightarrow> 'w st \<Rightarrow> error option \<times> 'w st" where
  "masq_in_container p ns v4 v6 k8sIfName s =
     (let (err, s) = enableForwarding p ns v4 v6 s
      in case err of
           Some x \<Rightarrow> (Some x, s)
         | None \<Rightarrow>
             (let (err, s) = setupSNAT p ns k8sIfName ''kube-proxy SNAT'' s
              in (map_option (Wrap ''failed to enable SNAT'') err, s)))"

text \<open>The part of the function that runs with the pair in place: masquerading, the routes to the host's
  addresses and the default route through the first of them. Without an address the index panics.\<close>

definition container_routes ::
    "'w ptp_api \<Rightarrow> string \<Rightarrow> string \<times> int \<Rightarrow> addr list \<Rightarrow> bool \<Rightarrow> bool \<Rightarrow> bool \<Rightarrow> string \<Rightarrow> CniResult \<Rightarrow> 'w st \<Rightarrow>
     (error option \<times> 'w st) option" where
  "container_routes p ns contVeth hostAddrs masq v4 v6 k8sIfName pr s =
     (let (err, s) = (if masq then masq_in_container p ns v4 v6 k8sIfName s else (None, s))
      in case err of
           Some x \<Rightarrow> Some (Some x, s)
         | None \<Rightarrow>
             (let (err, s) = add_host_routes p ns (snd contVeth) (map adIP hostAddrs) s
              in case err of
                   Some x \<Rightarrow> Some (Some x, s)
                 | None \<Rightarrow>
                     (case hostAddrs of
                        [] \<Rightarrow> None
                      | h # _ \<Rightarrow>
                          (let (err, s) = ext (nl_RouteAdd p ns \<lparr>nrLinkIndex = snd contVeth, nrScope = 0, nrDst = None,
                                                                  nrGw = Some (adIP h), nrTable = 0\<rparr>) s
                           in case err of
                                Some x \<Rightarrow> Some (Some (Wrap ''failed to add default route'' x), s)
                              | None \<Rightarrow>
                                  Some (None, arp_all p ns (fst contVeth)
                                                (map (net_ip \<circ> icAddress) (filter (\<lambda>c. icVersion c = ''4'') (rsIPs pr))) s)))))"

text \<open>The previous result gets the two ends of the pair. A failed look-up of the container's end is not
  tested, and its missing link is used.\<close>

definition setupContainerVeth ::
    "'w env \<Rightarrow> 'w cni_api \<Rightarrow> 'w ptp_api \<Rightarrow> string \<Rightarrow> string \<Rightarrow> int \<Rightarrow> addr list \<Rightarrow> bool \<Rightarrow> bool \<Rightarrow> bool \<Rightarrow> string \<Rightarrow>
     CniResult \<Rightarrow> 'w st \<Rightarrow> ((cni_iface \<times> cni_iface \<times> CniResult) res \<times> 'w st) option" where
  "setupContainerVeth e c p netns ifName mtu hostAddrs masq v4 v6 k8sIfName pr s =
     (let (err, s) = ext (ns_Do c netns) s
      in case err of
           Some x \<Rightarrow> Some (Inl x, s)
         | None \<Rightarrow>
             (let (r, s) = ext (ip_SetupVeth p netns ifName mtu) s
              in case r of
                   Inl x \<Rightarrow> Some (Inl x, s)
                 | Inr (hostName, hostMac, contName) \<Rightarrow>
                     (let (r, s) = ext (nl_LinkByName (nl e) netns contName) s
                      in case r of
                           Inl _ \<Rightarrow> None
                         | Inr l \<Rightarrow>
                             (let host = \<lparr>ciName = hostName, ciMac = hostMac, ciSandbox = []\<rparr>;
                                  cont = \<lparr>ciName = contName, ciMac = lkMac l, ciSandbox = netns\<rparr>;
                                  pr = pr\<lparr>rsInterfaces := rsInterfaces pr @ [host, cont]\<rparr>;
                                  (r, s) = ext (net_InterfaceByName p netns ifName) s
                              in case r of
                                   Inl x \<Rightarrow> Some (Inl (Wrap ''failed to look up'' x), s)
                                 | Inr contVeth \<Rightarrow>
                                     map_option (\<lambda>(err, s). (case err of Some x \<Rightarrow> Inl x | None \<Rightarrow> Inr (host, cont, pr), s))
                                       (container_routes p netns contVeth hostAddrs masq v4 v6 k8sIfName pr s)))))"

definition setupHostVeth ::
    "'w env \<Rightarrow> 'w ptp_api \<Rightarrow> string \<Rightarrow> addr list \<Rightarrow> int \<Rightarrow> CniResult \<Rightarrow> 'w st \<Rightarrow> (error option \<times> CniResult) \<times> 'w st" where
  "setupHostVeth e p vethName hostAddrs tableStart result s =
     (case rsIPs result of
        [] \<Rightarrow> ((None, result), s)
      | ipc # _ \<Rightarrow>
          (let (r, s) = ext (net_InterfaceByName p [] vethName) s
           in case r of
                Inl x \<Rightarrow> ((Some (Wrap ''failed to lookup'' x), result), s)
              | Inr veth \<Rightarrow>
                  (let (err, s) = add_host_routes p [] (snd veth) (map (net_ip \<circ> icAddress) (rsIPs result)) s
                   in case err of
                        Some x \<Rightarrow> ((Some x, result), s)
                      | None \<Rightarrow>
                          (let ((err, routes), s) = addPolicyRules e p veth ipc (rsRoutes result) tableStart s;
                               result = result\<lparr>rsRoutes := routes\<rparr>
                           in case err of
                                Some x \<Rightarrow> ((Some (Wrap ''failed to add policy rules'' x), result), s)
                              | None \<Rightarrow>
                                  ((None, result),
                                   arp_all p [] (fst veth) (filter (\<lambda>x. ip_bits x = 32) (map adIP hostAddrs)) s)))))"

section \<open>The commands\<close>

text \<open>The addresses of the container: in version 0.3.0 those without an interface are left out, and those
  whose interface is known to have another name.\<close>

definition other_iface :: "cni_iface list \<Rightarrow> string \<Rightarrow> int \<Rightarrow> bool" where
  "other_iface ifs ifName i = (0 \<le> i \<and> i < int (length ifs) \<and> ciName (ifs ! nat i) \<noteq> ifName)"

definition container_ips :: "string \<Rightarrow> string \<Rightarrow> CniResult \<Rightarrow> ip list" where
  "container_ips version ifName prev =
     map (net_ip \<circ> icAddress)
       (if version \<noteq> ''0.3.0'' then rsIPs prev
        else filter (\<lambda>c. case icInterface c of None \<Rightarrow> False | Some i \<Rightarrow> \<not> other_iface (rsInterfaces prev) ifName i)
               (rsIPs prev))"

fun setup_masq :: "'w ptp_api \<Rightarrow> string \<Rightarrow> string \<Rightarrow> ip list \<Rightarrow> 'w st \<Rightarrow> error option \<times> 'w st" where
  "setup_masq p chain comment [] s = (None, s)"
| "setup_masq p chain comment (x # xs) s =
     (let (err, s) = ext (ip_SetupIPMasq p \<lparr>net_ip = x, net_prefix = 32\<rparr> chain comment) s
      in case err of Some y \<Rightarrow> (Some y, s) | None \<Rightarrow> setup_masq p chain comment xs s)"

text \<open>From the masquerading on the host to the result.\<close>

definition ptp_finish ::
    "'w cni_api \<Rightarrow> 'w ptp_api \<Rightarrow> CmdArgs \<Rightarrow> PtpConf \<Rightarrow> ip list \<Rightarrow> bool \<Rightarrow> bool \<Rightarrow> CniResult \<Rightarrow> 'w st \<Rightarrow>
     error option \<times> 'w st" where
  "ptp_finish c p args conf containerIPs v4 v6 result s =
     (let (err, s) =
        (if ptIPMasq conf
         then (let (err, s) = enableForwarding p [] v4 v6 s
               in case err of
                    Some x \<Rightarrow> (Some x, s)
                  | None \<Rightarrow> setup_masq p (ut_FormatChainName p (ptName conf) (caContainerID args))
                              (ut_FormatComment p (ptName conf) (caContainerID args)) containerIPs s)
         else (None, s))
      in case err of
           Some x \<Rightarrow> (Some x, s)
         | None \<Rightarrow>
             (let (err, s) = setupNodePortRule p (ptHostInterface conf) (ptNodePorts conf) (ptNodePortMark conf) s
              in case err of
                   Some x \<Rightarrow> (Some x, s)
                 | None \<Rightarrow> ext (cni_PrintResult c result (ptCNIVersion conf)) s))"

definition ptp_cmdAdd :: "'w env \<Rightarrow> 'w cni_api \<Rightarrow> 'w ptp_api \<Rightarrow> CmdArgs \<Rightarrow> 'w st \<Rightarrow> (error option \<times> 'w st) option" where
  "ptp_cmdAdd e c p args s =
     (let (r, s) = ptp_parseConfig e c (caStdinData args) s
      in case r of
           Inl x \<Rightarrow> Some (Some x, s)
         | Inr conf \<Rightarrow>
             (case ptPrevResult conf of
                None \<Rightarrow> Some (Some (Errorf ''must be called as chained plugin''), s)
              | Some prev \<Rightarrow>
                  (let containerIPs = container_ips (ptCNIVersion conf) (caIfName args) prev
                   in if containerIPs = [] then Some (Some (Errorf ''got no container IPs''), s)
                      else (let (r, s) = ext (nl_LinkByName (nl e) [] (ptHostInterface conf)) s
                            in case r of
                                 Inl x \<Rightarrow> Some (Some (Wrap ''failed to lookup'' x), s)
                               | Inr iface \<Rightarrow>
                                   (let (r, s) = ext (nl_AddrListAll p iface) s
                                    in case r of
                                         Inl x \<Rightarrow> Some (Some (Wrap ''failed to get host IP addresses'' x), s)
                                       | Inr [] \<Rightarrow> Some (Some (Errorf ''failed to get host IP addresses''), s)
                                       | Inr (h # hs) \<Rightarrow>
                                           (let (err, s) = ext (ns_GetNS c (caNetns args)) s
                                            in case err of
                                                 Some x \<Rightarrow> Some (Some (Wrap ''failed to open netns'' x), s)
                                               | None \<Rightarrow>
                                                   (let v4 = list_ex (\<lambda>x. ip_bits x = 32) containerIPs;
                                                        v6 = list_ex (\<lambda>x. ip_bits x \<noteq> 32) containerIPs
                                                    in Option.bind
                                                         (setupContainerVeth e c p (caNetns args) (ptContainerInterface conf)
                                                            (ptMTU conf) (h # hs) (ptIPMasq conf) v4 v6 (caIfName args) prev s)
                                                         (\<lambda>(r, s). case r of
                                                            Inl x \<Rightarrow> Some (Some x, s)
                                                          | Inr (host, cont, result) \<Rightarrow>
                                                              (let ((err, result), s) =
                                                                 setupHostVeth e p (ciName host) (h # hs) (ptTableStart conf) result s
                                                               in case err of
                                                                    Some x \<Rightarrow> Some (Some x, s)
                                                                  | None \<Rightarrow>
                                                                      Some (ptp_finish c p args conf containerIPs v4 v6 result s))))))))))"

definition ptp_cmdCheck :: "CmdArgs \<Rightarrow> 'w st \<Rightarrow> error option \<times> 'w st" where
  "ptp_cmdCheck args s = (None, s)"

text \<open>What DEL reads inside the container: the index of the veth's other end and the IPv4 addresses.\<close>

definition peer_and_addrs :: "'w env \<Rightarrow> 'w ptp_api \<Rightarrow> CmdArgs \<Rightarrow> PtpConf \<Rightarrow> 'w st \<Rightarrow> (int \<times> addr list) res \<times> 'w st" where
  "peer_and_addrs e p args conf s =
     (let (err, s) = ext (nl_WithNetNSPath (nl e) (caNetns args)) s
      in case err of
           Some x \<Rightarrow> (Inl x, s)
         | None \<Rightarrow>
             (let (r, s) = ext (ip_GetVethPeerIfindex p (caNetns args) (ptContainerInterface conf)) s
              in case r of
                   Inl x \<Rightarrow> (Inl (Wrap ''failed to lookup'' x), s)
                 | Inr peer \<Rightarrow>
                     (let (r, s) = ext (nl_LinkByName (nl e) (caNetns args) (caIfName args)) s
                      in case r of
                           Inl x \<Rightarrow> (Inl (Wrap ''couldn't load link by name'' x), s)
                         | Inr iface \<Rightarrow>
                             (let (r, s) = ext (nl_AddrList4 (nl e) (caNetns args) iface) s
                              in case r of
                                   Inl x \<Rightarrow> (Inl (Wrap ''couldn't discover addrs from iface'' x), s)
                                 | Inr addrs \<Rightarrow>
                                     if addrs = [] then (Inl (Errorf ''couldn't discover addrs from iface''), s)
                                     else (Inr (peer, addrs), s)))))"

fun teardown_masq :: "'w ptp_api \<Rightarrow> string \<Rightarrow> string \<Rightarrow> addr list \<Rightarrow> 'w st \<Rightarrow> error option \<times> 'w st" where
  "teardown_masq p chain comment [] s = (None, s)"
| "teardown_masq p chain comment (a # as) s =
     (let (err, s) = ext (ip_TeardownIPMasq p \<lparr>net_ip = adIP a, net_prefix = 32\<rparr> chain comment) s
      in case err of
           Some y \<Rightarrow> (Some (Wrap ''couldn't teardown ip masq'' y), s)
         | None \<Rightarrow> teardown_masq p chain comment as s)"

definition delete_peer :: "'w env \<Rightarrow> 'w ptp_api \<Rightarrow> int \<Rightarrow> 'w st \<Rightarrow> error option \<times> 'w st" where
  "delete_peer e p peer s =
     (let (r, s) = ext (nl_LinkByIndex p peer) s
      in case r of
           Inl x \<Rightarrow> (Some (Wrap ''couldn't find link by index'' x), s)
         | Inr link \<Rightarrow>
             (let (err, s) = ext (nl_RuleDel p ((nl_NewRule p)\<lparr>nuIifName := lkName link\<rparr>)) s
              in case err of
                   Some x \<Rightarrow> (Some (Wrap ''couldn't delete rule'' x), s)
                 | None \<Rightarrow>
                     (let (err, s) = ext (nl_LinkDel (nl e) link) s
                      in (map_option (Wrap ''couldn't delete link'') err, s))))"

definition ptp_cmdDel :: "'w env \<Rightarrow> 'w cni_api \<Rightarrow> 'w ptp_api \<Rightarrow> CmdArgs \<Rightarrow> 'w st \<Rightarrow> error option \<times> 'w st" where
  "ptp_cmdDel e c p args s =
     (let (r, s) = ptp_parseConfig e c (caStdinData args) s
      in case r of
           Inl x \<Rightarrow> (Some (Wrap ''couldn't parse config'' x), s)
         | Inr conf \<Rightarrow>
             if \<not> ptIPMasq conf then (None, s)
             else if caNetns args = [] then (None, s)
             else (let (r, s) = peer_and_addrs e p args conf s
                   in case r of
                        Inl x \<Rightarrow> (Some (Wrap ''couldn't discover peer idx from netns'' x), s)
                      | Inr (peer, addrs) \<Rightarrow>
                          (let (err, s) = teardown_masq p (ut_FormatChainName p (ptName conf) (caContainerID args))
                                            (ut_FormatComment p (ptName conf) (caContainerID args)) addrs s
                           in case err of
                                Some x \<Rightarrow> (Some x, s)
                              | None \<Rightarrow> if peer \<noteq> - 1 then delete_peer e p peer s else (None, s))))"

section \<open>The first free table\<close>

lemma first_free_Some:
  "first_free used i = Some t \<Longrightarrow>
   i \<le> t \<and> t < maxUint32 \<and> t \<notin> set used \<and> (\<forall>k. i \<le> k \<and> k < t \<longrightarrow> k \<in> set used)"
proof (induction used i rule: first_free.induct)
  case (1 used i)
  show ?case
  proof (cases "i < maxUint32 \<and> i \<in> set used")
    case True
    with 1 have "first_free used (i + 1) = Some t" by (simp add: first_free.simps [of used i])
    with 1 True have "i + 1 \<le> t \<and> t < maxUint32 \<and> t \<notin> set used \<and> (\<forall>k. i + 1 \<le> k \<and> k < t \<longrightarrow> k \<in> set used)"
      by blast
    moreover have "k \<in> set used" if "i \<le> k" "k < t" for k
      using True calculation that by (cases "k = i") auto
    ultimately show ?thesis by simp
  next
    case False
    with 1 show ?thesis by (auto simp: first_free.simps [of used i] split: if_splits)
  qed
qed

lemma first_free_None: "first_free used i = None \<Longrightarrow> {i..<maxUint32} \<subseteq> set used"
proof (induction used i rule: first_free.induct)
  case (1 used i)
  show ?case
  proof (cases "i < maxUint32")
    case True
    with "1.prems" have "i \<in> set used" "first_free used (i + 1) = None"
      by (simp_all add: first_free.simps [of used i] split: if_splits)
    with True "1.IH" have "{i + 1..<maxUint32} \<subseteq> set used" "i \<in> set used" by blast+
    moreover have "{i..<maxUint32} \<subseteq> insert i {i + 1..<maxUint32}" by auto
    ultimately show ?thesis by blast
  qed simp
qed

lemma findFreeTable_run:
  assumes "ext (nl_RuleList p 4) s = (Inr r4, s1)" "ext (nl_RuleList p 6) s1 = (Inr r6, s2)"
  shows "findFreeTable p start s =
    (case first_free (map nuTable (r4 @ r6)) start of
       Some i \<Rightarrow> (Inr i, s2) | None \<Rightarrow> (Inl (Errorf ''failed to find free route table''), s2))"
  using assms by (simp add: findFreeTable_def)

text \<open>C37. \<^verbatim>\<open>findFreeTable\<close> answers the least routing table from \<open>start\<close> on, below the largest 32-bit
  number, that no IPv4 or IPv6 rule names; it fails exactly when the rules name every one of those tables.\<close>

theorem findFreeTable_least:
  assumes "ext (nl_RuleList p 4) s = (Inr r4, s1)" "ext (nl_RuleList p 6) s1 = (Inr r6, s2)"
  shows "case findFreeTable p start s of
           (Inr t, s') \<Rightarrow> s' = s2 \<and> start \<le> t \<and> t < maxUint32 \<and> t \<notin> nuTable ` set (r4 @ r6) \<and>
             (\<forall>k. start \<le> k \<and> k < t \<longrightarrow> k \<in> nuTable ` set (r4 @ r6))
         | (Inl _, s') \<Rightarrow> s' = s2 \<and> {start..<maxUint32} \<subseteq> nuTable ` set (r4 @ r6)"
proof (cases "first_free (map nuTable (r4 @ r6)) start")
  case None
  then show ?thesis
    using first_free_None [OF None] by (simp add: findFreeTable_run [OF assms] image_Un)
next
  case (Some t)
  then show ?thesis
    using first_free_Some [OF Some] by (simp add: findFreeTable_run [OF assms] image_Un)
qed

section \<open>The example node\<close>

definition demo_ptp :: "dw ptp_api" where
  "demo_ptp =
     \<lparr>nl_RuleList = (\<lambda>f w. (Inr (if f = 4 then d_rules w else []), w)),
      nl_NewRule = \<lparr>nuIifName = [], nuTable = 0, nuPriority = - 1, nuMark = - 1\<rparr>,
      nl_RuleAdd = (\<lambda>r w. (None, w\<lparr>d_rules := r # d_rules w\<rparr>)),
      nl_RuleDel = (\<lambda>r w. (None, w)),
      nl_RouteAdd = (\<lambda>n r w. (None, w\<lparr>d_routes := r # d_routes w\<rparr>)),
      nl_AddrListAll = (\<lambda>l w. (Inr [\<lparr>adIP = V4 10 0 0 4, adPrefix = 24, adLabel = lkName l\<rparr>], w)),
      nl_LinkByIndex = (\<lambda>i w. (Inr \<lparr>lkName = ''veth1'', lkIndex = i, lkMTU = 9001, lkMac = ''b1''\<rparr>, w)),
      net_InterfaceByName = (\<lambda>n i w. (Inr (i, 7), w)),
      ipt_New = (\<lambda>n w. (None, w)),
      ipt_HasRandomFully = (\<lambda>n w. (True, w)),
      ipt_AppendUnique = (\<lambda>n t c r w. (None, w)),
      sysctl_Set = (\<lambda>k v w. (None, w)),
      arp_Gratuitous = (\<lambda>n x i w. (None, w)),
      ip_EnableForward = (\<lambda>n f w. (None, w)),
      ip_SetupVeth = (\<lambda>n i m w. (Inr (''veth1'', ''b1'', i), w)),
      ip_SetupIPMasq = (\<lambda>n c m w. (None, w)),
      ip_TeardownIPMasq = (\<lambda>n c m w. (None, w)),
      ip_GetVethPeerIfindex = (\<lambda>n i w. (Inl (Ext ''Link not found''), w)),
      ut_FormatChainName = (\<lambda>n i. ''CNI''),
      ut_FormatComment = (\<lambda>n i. n),
      rand_Intn = (\<lambda>n w. (0, w)),
      sort_routes = insertion_sort (route_Less (os_txt6 demo_os))\<rparr>"

theorem findFreeTable_least_witness: "fst (findFreeTable demo_ptp 256 demo_s) = Inr 256"
proof -
  have r: "ext (nl_RuleList demo_ptp 4) demo_s = (Inr [], demo_s)" "ext (nl_RuleList demo_ptp 6) demo_s = (Inr [], demo_s)"
    by (simp_all add: demo_ptp_def ext_def demo_s_def demo_w_def)
  show ?thesis
    using findFreeTable_least [OF r, where start = 256]
    by (cases "findFreeTable demo_ptp 256 demo_s"; cases "fst (findFreeTable demo_ptp 256 demo_s)")
      (force simp: maxUint32_def)+
qed

section \<open>The kernel's tables\<close>

text \<open>What netlink is documented to do, for a kernel whose rules (by family) and routes are views of the
  world, while nothing else changes them: a listing answers the rules, an accepted route is there
  afterwards, a refused one is not. An accepted rule is one rule more, also when an equal one was there
  (rules are counted as a multiset; a kernel that refuses duplicates answers an error). \<^verbatim>\<open>RuleAdd\<close> takes a
  rule without a family for an IPv4 one.\<close>

record 'w kernel =
  k_rules :: "nat \<Rightarrow> 'w \<Rightarrow> nl_rule list"
  k_routes :: "'w \<Rightarrow> nl_route list"

definition same_kernel :: "'w kernel \<Rightarrow> 'w \<Rightarrow> 'w \<Rightarrow> bool" where
  "same_kernel k w w' = ((\<forall>f. k_rules k f w' = k_rules k f w) \<and> set (k_routes k w') = set (k_routes k w))"

definition quiet_netlink :: "'w env \<Rightarrow> 'w ptp_api \<Rightarrow> 'w kernel \<Rightarrow> bool" where
  "quiet_netlink e p k =
     ((\<forall>f w rs. fst (nl_RuleList p f w) = Inr rs \<longrightarrow> rs = k_rules k f w) \<and>
      (\<forall>f w. same_kernel k w (snd (nl_RuleList p f w))) \<and>
      (\<forall>n w. same_kernel k w (snd (rand_Intn p n w))) \<and>
      (\<forall>n w. 0 < n \<longrightarrow> 0 \<le> fst (rand_Intn p n w) \<and> fst (rand_Intn p n w) < n) \<and>
      (\<forall>d w. same_kernel k w (os_Sleep (os e) d w)) \<and>
      (\<forall>n w. same_kernel k w (snd (ipt_New p n w))) \<and>
      (\<forall>n t c r w. same_kernel k w (snd (ipt_AppendUnique p n t c r w))) \<and>
      (\<forall>n v w. same_kernel k w (snd (sysctl_Set p n v w))) \<and>
      (\<forall>r w f. k_rules k f (snd (nl_RouteAdd p [] r w)) = k_rules k f w) \<and>
      (\<forall>r w. set (k_routes k (snd (nl_RouteAdd p [] r w))) =
              (if fst (nl_RouteAdd p [] r w) = None then insert r (set (k_routes k w)) else set (k_routes k w))) \<and>
      (\<forall>r w. mset (k_rules k 4 (snd (nl_RuleAdd p r w))) =
              (if fst (nl_RuleAdd p r w) = None then add_mset r (mset (k_rules k 4 w)) else mset (k_rules k 4 w))) \<and>
      (\<forall>r w. k_rules k 6 (snd (nl_RuleAdd p r w)) = k_rules k 6 w) \<and>
      (\<forall>r w. set (k_routes k (snd (nl_RuleAdd p r w))) = set (k_routes k w)))"

definition used_tables :: "'w kernel \<Rightarrow> 'w \<Rightarrow> int set" where
  "used_tables k w = nuTable ` set (k_rules k 4 w @ k_rules k 6 w)"

lemma quietD:
  assumes "quiet_netlink e p k"
  shows "fst (nl_RuleList p f w) = Inr rs \<Longrightarrow> rs = k_rules k f w"
    and "same_kernel k w (snd (nl_RuleList p f w))"
    and "same_kernel k w (snd (rand_Intn p n w))"
    and "0 < n \<Longrightarrow> 0 \<le> fst (rand_Intn p n w) \<and> fst (rand_Intn p n w) < n"
    and "same_kernel k w (os_Sleep (os e) d w)"
    and "same_kernel k w (snd (ipt_New p ns w))"
    and "same_kernel k w (snd (ipt_AppendUnique p ns tb ch ru w))"
    and "same_kernel k w (snd (sysctl_Set p nm v w))"
    and "k_rules k f (snd (nl_RouteAdd p [] r w)) = k_rules k f w"
    and "set (k_routes k (snd (nl_RouteAdd p [] r w))) =
         (if fst (nl_RouteAdd p [] r w) = None then insert r (set (k_routes k w)) else set (k_routes k w))"
    and "mset (k_rules k 4 (snd (nl_RuleAdd p u w))) =
         (if fst (nl_RuleAdd p u w) = None then add_mset u (mset (k_rules k 4 w)) else mset (k_rules k 4 w))"
    and "k_rules k 6 (snd (nl_RuleAdd p u w)) = k_rules k 6 w"
    and "set (k_routes k (snd (nl_RuleAdd p u w))) = set (k_routes k w)"
  using assms unfolding quiet_netlink_def by (elim conjE; metis)+

lemma same_kernel_refl [simp]: "same_kernel k w w"
  by (simp add: same_kernel_def)

lemma same_kernel_trans [trans]: "same_kernel k u v \<Longrightarrow> same_kernel k v w \<Longrightarrow> same_kernel k u w"
  by (simp add: same_kernel_def)

lemma same_kernel_used: "same_kernel k w w' \<Longrightarrow> used_tables k w' = used_tables k w"
  by (simp add: same_kernel_def used_tables_def)

lemma quiet_findFreeTable:
  assumes q: "quiet_netlink e p k" and run: "findFreeTable p start s = (r, s')"
  shows "same_kernel k (world s) (world s') \<and>
    (\<forall>t. r = Inr t \<longrightarrow> start \<le> t \<and> t < maxUint32 \<and> t \<notin> used_tables k (world s))"
proof -
  let ?s1 = "snd (ext (nl_RuleList p 4) s)"
  let ?s2 = "snd (ext (nl_RuleList p 6) ?s1)"
  have same: "same_kernel k (world s) (world ?s1)" "same_kernel k (world ?s1) (world ?s2)"
    by (simp_all add: ext_def quietD(2) [OF q])
  then have same2: "same_kernel k (world s) (world ?s2)" by (rule same_kernel_trans)
  show ?thesis
  proof (cases "fst (ext (nl_RuleList p 4) s)")
    case (Inl x)
    then show ?thesis using run same(1) by (auto simp: findFreeTable_def case_prod_beta)
  next
    case r4: (Inr r4)
    show ?thesis
    proof (cases "fst (ext (nl_RuleList p 6) ?s1)")
      case (Inl x)
      then show ?thesis using run r4 same2 by (auto simp: findFreeTable_def case_prod_beta)
    next
      case r6: (Inr r6)
      have "r4 = k_rules k 4 (world s)" "r6 = k_rules k 6 (world ?s1)"
        using r4 r6 quietD(1) [OF q] by (simp_all add: ext_def)
      then have "set (map nuTable (r4 @ r6)) = used_tables k (world s)"
        using same(1) by (simp add: used_tables_def same_kernel_def image_Un)
      moreover have "findFreeTable p start s =
          (case first_free (map nuTable (r4 @ r6)) start of
             Some i \<Rightarrow> (Inr i, ?s2) | None \<Rightarrow> (Inl (Errorf ''failed to find free route table''), ?s2))"
        using r4 r6 by (intro findFreeTable_run) (auto simp: prod_eq_iff)
      ultimately show ?thesis
        using run same2 first_free_Some [of "map nuTable (r4 @ r6)" start] by (auto split: option.splits)
    qed
  qed
qed

text \<open>What the attempts may do to the kernel: no rule changes, no route is lost, and every new route is one
  of the pod's.\<close>

definition only_pod_routes :: "'w kernel \<Rightarrow> int \<Rightarrow> ip \<Rightarrow> cni_route list \<Rightarrow> 'w \<Rightarrow> 'w \<Rightarrow> bool" where
  "only_pod_routes k link gw routes w w' =
     ((\<forall>f. k_rules k f w' = k_rules k f w) \<and> set (k_routes k w) \<subseteq> set (k_routes k w') \<and>
      set (k_routes k w') \<subseteq> set (k_routes k w) \<union> {pod_route link gw t r | t r. r \<in> set routes})"

lemma only_pod_routes_same: "same_kernel k w w' \<Longrightarrow> only_pod_routes k link gw routes w w'"
  by (auto simp: same_kernel_def only_pod_routes_def)

lemma only_pod_routes_trans [trans]:
  "only_pod_routes k link gw routes u v \<Longrightarrow> only_pod_routes k link gw routes v w \<Longrightarrow> only_pod_routes k link gw routes u w"
  unfolding only_pod_routes_def by (elim conjE, intro conjI) (simp, erule (1) subset_trans, blast)

lemma only_pod_routes_more:
  "only_pod_routes k link gw routes w w' \<Longrightarrow> set routes \<subseteq> set routes' \<Longrightarrow> only_pod_routes k link gw routes' w w'"
  unfolding only_pod_routes_def by blast

lemma only_pod_routes_used: "only_pod_routes k link gw routes w w' \<Longrightarrow> used_tables k w' = used_tables k w"
  by (simp add: only_pod_routes_def used_tables_def)

lemma quiet_add_routes:
  assumes q: "quiet_netlink e p k" and "add_routes p link gw table routes s = (done, s')"
  shows "only_pod_routes k link gw routes (world s) (world s') \<and>
    (done \<longrightarrow> pod_route link gw table ` set routes \<subseteq> set (k_routes k (world s')))"
  using assms(2)
proof (induction routes arbitrary: s)
  case Nil
  then show ?case by (simp add: only_pod_routes_same)
next
  case (Cons r rs)
  let ?s1 = "snd (ext (nl_RouteAdd p [] (pod_route link gw table r)) s)"
  let ?err = "fst (ext (nl_RouteAdd p [] (pod_route link gw table r)) s)"
  have w: "k_rules k f (world ?s1) = k_rules k f (world s)"
    "set (k_routes k (world ?s1)) =
       (if ?err = None then insert (pod_route link gw table r) (set (k_routes k (world s))) else set (k_routes k (world s)))" for f
    by (simp_all add: ext_def quietD(9, 10) [OF q])
  then have first: "only_pod_routes k link gw (r # rs) (world s) (world ?s1)"
    by (auto simp: only_pod_routes_def)
  show ?case
  proof (cases ?err)
    case None
    with Cons.prems have "add_routes p link gw table rs ?s1 = (done, s')" by (simp add: case_prod_beta)
    from Cons.IH [OF this] have rest: "only_pod_routes k link gw (r # rs) (world ?s1) (world s')"
      "done \<longrightarrow> pod_route link gw table ` set rs \<subseteq> set (k_routes k (world s'))"
      by (auto intro: only_pod_routes_more)
    moreover have "pod_route link gw table r \<in> set (k_routes k (world s'))"
      using rest(1) w(2) None by (auto simp: only_pod_routes_def)
    ultimately show ?thesis using only_pod_routes_trans [OF first rest(1)] by simp
  next
    case (Some x)
    with Cons.prems first show ?thesis by (simp add: case_prod_beta)
  qed
qed

definition pod_table :: "'w kernel \<Rightarrow> int \<Rightarrow> ip \<Rightarrow> cni_route list \<Rightarrow> int \<Rightarrow> 'w \<Rightarrow> 'w \<Rightarrow> int \<Rightarrow> bool" where
  "pod_table k link gw routes start w w' t =
     (start \<le> t \<and> t < maxUint32 \<and> t \<notin> used_tables k w \<and> pod_route link gw t ` set routes \<subseteq> set (k_routes k w'))"

lemma jittered_start: "0 \<le> start \<Longrightarrow> start < 2 ^ 62 \<Longrightarrow> 0 \<le> j \<Longrightarrow> j < 1000 \<Longrightarrow> wrap64 (start + j) = start + j"
  by (intro wrap64_id) simp_all

lemma quiet_write_table:
  assumes q: "quiet_netlink e p k" and start: "0 \<le> start" "start < 2 ^ 62"
    and run: "write_table e p link gw routes start n i s = (r, s')"
  shows "only_pod_routes k link gw routes (world s) (world s') \<and>
    (\<forall>t. r = Inr t \<longrightarrow> t = - 1 \<or> pod_table k link gw routes start (world s) (world s') t)"
  using run
proof (induction n arbitrary: i s)
  case 0
  then show ?case by (auto simp: only_pod_routes_same)
next
  case (Suc n)
  let ?s1 = "snd (ext (rand_Intn p 1000) s)"
  let ?j = "fst (ext (rand_Intn p 1000) s)"
  obtain r2 s2 where find: "findFreeTable p (wrap64 (start + ?j)) ?s1 = (r2, s2)" by fastforce
  have same1: "same_kernel k (world s) (world ?s1)" by (simp add: ext_def quietD(3) [OF q])
  have j: "0 \<le> ?j" "?j < 1000" using quietD(4) [OF q, of 1000] by (simp_all add: ext_def)
  note found = quiet_findFreeTable [OF q find]
  have same2: "same_kernel k (world s) (world s2)" using same_kernel_trans [OF same1] found by blast
  show ?case
  proof (cases r2)
    case (Inl x)
    with Suc.prems find same2 show ?thesis by (auto simp: case_prod_beta only_pod_routes_same)
  next
    case (Inr t)
    obtain d s3 where add: "add_routes p link gw t routes s2 = (d, s3)" by fastforce
    note added = quiet_add_routes [OF q add]
    have upto: "only_pod_routes k link gw routes (world s) (world s3)"
      using only_pod_routes_trans [OF only_pod_routes_same [OF same2]] added by blast
    have t: "start \<le> t" "t < maxUint32" "t \<notin> used_tables k (world s)"
      using found Inr j jittered_start [OF start j] same_kernel_used [OF same1] by auto
    show ?thesis
    proof (cases "d \<and> t \<noteq> - 1")
      case True
      with Suc.prems find Inr add have "r = Inr t" "s' = s3" by (simp_all add: case_prod_beta)
      with True upto added t show ?thesis by (simp add: pod_table_def)
    next
      case False
      let ?s4 = "snd (ext (rand_Intn p (backoff i)) s3)"
      let ?s5 = "time_Sleep e (fst (ext (rand_Intn p (backoff i)) s3) * 1000000) ?s4"
      from False Suc.prems find Inr add have "write_table e p link gw routes start n (Suc i) ?s5 = (r, s')"
        by (auto simp: case_prod_beta)
      note rest = Suc.IH [OF this]
      have "same_kernel k (world s3) (world ?s5)"
        using same_kernel_trans [OF quietD(3) [OF q] quietD(5) [OF q]] by (simp add: ext_def time_Sleep_def)
      then have "only_pod_routes k link gw routes (world s) (world ?s5)"
        by (rule only_pod_routes_trans [OF upto only_pod_routes_same])
      then show ?thesis
        using rest only_pod_routes_trans only_pod_routes_used unfolding pod_table_def by metis
    qed
  qed
qed

text \<open>C11. Giving a pod its routing table, while nothing else changes the kernel's tables: on success there
  is exactly one new rule, for traffic that enters through the pod's veth, with the priority of pod rules
  and a table from \<open>tableStart\<close> on that no rule named before; that table has all the routes, through the
  pod's address. On an error there is no new rule. Either way no route is lost, and every new one is one of
  the pod's; the caller's slice of routes has been sorted in place.\<close>

theorem addPolicyRules_own_table:
  assumes "quiet_netlink e p k" "go_sort (route_Less t6) (sort_routes p)"
    and "0 \<le> tableStart" "tableStart < 2 ^ 62"
    and "addPolicyRules e p veth ipc routes tableStart s = ((err, routes'), s')"
  shows "(case err of
            None \<Rightarrow> \<exists>t. tableStart \<le> t \<and> t < maxUint32 \<and> t \<notin> used_tables k (world s) \<and>
              mset (k_rules k 4 (world s')) =
                add_mset ((nl_NewRule p)\<lparr>nuIifName := fst veth, nuTable := t, nuPriority := 1024\<rparr>) (mset (k_rules k 4 (world s))) \<and>
              pod_route (snd veth) (net_ip (icAddress ipc)) t ` set routes \<subseteq> set (k_routes k (world s'))
          | Some _ \<Rightarrow> mset (k_rules k 4 (world s')) = mset (k_rules k 4 (world s))) \<and>
         k_rules k 6 (world s') = k_rules k 6 (world s) \<and>
         set (k_routes k (world s)) \<subseteq> set (k_routes k (world s')) \<and>
         set (k_routes k (world s')) \<subseteq> set (k_routes k (world s)) \<union>
           {pod_route (snd veth) (net_ip (icAddress ipc)) t r | t r. r \<in> set routes} \<and>
         mset routes' = mset routes \<and> no_descent (route_Less t6) routes'"
proof -
  let ?gw = "net_ip (icAddress ipc)" and ?rs = "sort_routes p routes"
  obtain r s1 where tab: "write_table e p (snd veth) ?gw ?rs tableStart 10 0 s = (r, s1)" by fastforce
  note sorted = go_sort.sort_perm [OF assms(2), of routes] go_sort.sort_sorted [OF assms(2), of routes]
    go_sort.sort_set [OF assms(2), of routes]
  note written = quiet_write_table [OF assms(1, 3, 4) tab, unfolded only_pod_routes_def sorted(3)]
  show ?thesis
  proof (cases "\<exists>t. r = Inr t \<and> t \<noteq> - 1")
    case True
    then obtain t where t: "r = Inr t" "t \<noteq> - 1" by blast
    let ?rule = "(nl_NewRule p)\<lparr>nuIifName := fst veth, nuTable := t, nuPriority := 1024\<rparr>"
    have res: "err = map_option (Wrap ''failed to add policy rule'') (fst (ext (nl_RuleAdd p ?rule) s1))"
      "routes' = ?rs" "s' = snd (ext (nl_RuleAdd p ?rule) s1)"
      using assms(5) tab t by (auto simp: addPolicyRules_def podRulePriority_def case_prod_beta)
    have "pod_table k (snd veth) ?gw ?rs tableStart (world s) (world s1) t"
      using written t by blast
    then show ?thesis
      using written sorted quietD(11-13) [OF assms(1), of ?rule "world s1"]
      unfolding res pod_table_def sorted(3) by (simp add: ext_def split: option.splits) blast
  next
    case False
    then have "err \<noteq> None" "routes' = ?rs" "s' = s1"
      using assms(5) tab by (auto simp: addPolicyRules_def Let_def split: sum.splits if_splits)
    then show ?thesis using written sorted by auto
  qed
qed

definition demo_kernel :: "dw kernel" where
  "demo_kernel = \<lparr>k_rules = (\<lambda>f w. if f = 4 then d_rules w else []), k_routes = d_routes\<rparr>"

lemma demo_quiet: "quiet_netlink demo demo_ptp demo_kernel"
  by (simp add: quiet_netlink_def same_kernel_def demo_ptp_def demo_kernel_def demo_def demo_os_def)

interpretation isort_routes: go_sort "route_Less t" "insertion_sort (route_Less t)"
  by (rule insertion_sort_contract) (auto simp: route_Less_def)

theorem addPolicyRules_own_table_witness:
  "\<exists>t. 256 \<le> t \<and>
     mset (d_rules (world (snd (addPolicyRules demo demo_ptp (''veth1'', 7)
       \<lparr>icVersion = ''4'', icInterface = None, icAddress = \<lparr>net_ip = V4 10 0 1 7, net_prefix = 24\<rparr>, icGateway = None\<rparr>
       [\<lparr>rtDst = \<lparr>net_ip = V4 10 0 0 0, net_prefix = 16\<rparr>, rtGW = V4 10 0 1 1\<rparr>] 256 demo_s)))) =
     {#\<lparr>nuIifName = ''veth1'', nuTable = t, nuPriority = 1024, nuMark = - 1\<rparr>#}"
proof -
  let ?ipc = "\<lparr>icVersion = ''4'', icInterface = None, icAddress = \<lparr>net_ip = V4 10 0 1 7, net_prefix = 24\<rparr>, icGateway = None\<rparr>"
  let ?rts = "[\<lparr>rtDst = \<lparr>net_ip = V4 10 0 0 0, net_prefix = 16\<rparr>, rtGW = V4 10 0 1 1\<rparr>]"
  let ?run = "addPolicyRules demo demo_ptp (''veth1'', 7) ?ipc ?rts 256 demo_s"
  have ok: "fst (fst ?run) = None"
    by (simp add: addPolicyRules_def demo_ptp_def demo_s_def demo_w_def ext_def findFreeTable_def eval_nat_numeral
        first_free.simps maxUint32_def insertion_sort_def wrap64_def)
  have run: "addPolicyRules demo demo_ptp (''veth1'', 7) ?ipc ?rts 256 demo_s = ((fst (fst ?run), snd (fst ?run)), snd ?run)"
    by simp
  have sort: "go_sort (route_Less (os_txt6 demo_os)) (sort_routes demo_ptp)"
    using isort_routes.go_sort_axioms by (simp add: demo_ptp_def)
  show ?thesis
    using addPolicyRules_own_table [OF demo_quiet sort _ _ run] unfolding ok
    by (auto simp: demo_kernel_def demo_ptp_def demo_s_def demo_w_def)
qed

section \<open>Node port rules\<close>

definition nodeport_rule :: "'w ptp_api \<Rightarrow> int \<Rightarrow> nl_rule" where
  "nodeport_rule p mark = (nl_NewRule p)\<lparr>nuMark := mark, nuTable := 254, nuPriority := 512\<rparr>"

lemma quiet_append_rules:
  assumes "quiet_netlink e p k"
  shows "same_kernel k (world s) (world (snd (append_rules p rs s)))"
proof (induction rs arbitrary: s)
  case (Cons r rs)
  have "same_kernel k (world s) (world (snd (ext (ipt_AppendUnique p [] ''mangle'' ''PREROUTING'' r) s)))"
    by (simp add: ext_def quietD(7) [OF assms])
  then show ?case
    using same_kernel_trans [OF _ Cons.IH] by (simp add: case_prod_beta split: option.splits)
qed simp

definition is_nodeport_rule :: "int \<Rightarrow> nl_rule \<Rightarrow> bool" where
  "is_nodeport_rule mark r = (nuTable r = 254 \<and> nuMark r = mark \<and> nuPriority r = 512)"

lemma setupNodePortRule_rules:
  assumes q: "quiet_netlink e p k" and run: "setupNodePortRule p ifName ports mark s = (err, s')"
  defines "old \<equiv> k_rules k 4 (world s)"
  shows "mset (k_rules k 4 (world s')) =
    (if err = None \<and> \<not> list_ex (is_nodeport_rule mark) old then add_mset (nodeport_rule p mark) (mset old) else mset old)"
proof -
  let ?s1 = "snd (ext (ipt_New p []) s)"
  let ?s2 = "snd (append_rules p (nodeport_rules ifName ports mark) ?s1)"
  let ?c = "ext (sysctl_Set p (RPFilterTemplate ifName) ''2'') ?s2"
  let ?s3 = "snd ?c"
  let ?l = "ext (nl_RuleList p 4) ?s3"
  let ?s4 = "snd ?l"
  let ?a = "ext (nl_RuleAdd p (nodeport_rule p mark)) ?s4"
  have same1: "same_kernel k (world s) (world ?s1)" by (simp add: ext_def quietD(6) [OF q])
  have same2: "same_kernel k (world s) (world ?s2)" by (rule same_kernel_trans [OF same1 quiet_append_rules [OF q]])
  have "same_kernel k (world ?s2) (world ?s3)" by (simp add: ext_def quietD(8) [OF q])
  then have same3: "same_kernel k (world s) (world ?s3)" by (rule same_kernel_trans [OF same2])
  have "same_kernel k (world ?s3) (world ?s4)" by (simp add: ext_def quietD(2) [OF q])
  then have same4: "same_kernel k (world s) (world ?s4)" by (rule same_kernel_trans [OF same3])
  have rules: "k_rules k 4 (world x) = old" if "same_kernel k (world s) (world x)" for x
    using that by (simp add: same_kernel_def old_def)
  have listed: "rs = old" if "fst ?l = Inr rs" for rs
    using quietD(1) [OF q, of 4 "world ?s3" rs] that rules [OF same3] by (simp add: ext_def)
  have added: "mset (k_rules k 4 (world (snd ?a))) =
      (if fst ?a = None then add_mset (nodeport_rule p mark) (mset old) else mset old)"
    using quietD(11) [OF q, of "nodeport_rule p mark" "world ?s4"] rules [OF same4] by (simp add: ext_def)
  note run = run [unfolded setupNodePortRule_def Let_def case_prod_beta]
  show ?thesis
  proof (cases "fst (ext (ipt_New p []) s) = None \<and> fst (append_rules p (nodeport_rules ifName ports mark) ?s1) = None \<and>
      fst ?c = None \<and> (\<exists>rs. fst ?l = Inr rs)")
    case True
    then obtain rs where rs: "fst ?l = Inr rs" by blast
    let ?there = "list_ex (\<lambda>r. nuTable r = 254 \<and> nuMark r = mark \<and> nuPriority r = nodePortRulePriority) rs"
    have there: "?there = list_ex (is_nodeport_rule mark) old"
      using listed [OF rs] by (simp add: list_ex_iff is_nodeport_rule_def nodePortRulePriority_def)
    have "(err, s') = (if ?there then (None, ?s4) else (map_option (Wrap ''failed to add policy rule'') (fst ?a), snd ?a))"
      using True rs run by (cases ?there) (simp_all add: nodeport_rule_def nodePortRulePriority_def)
    then show ?thesis using rules [OF same4] added there by (auto split: if_splits)
  next
    case False
    then have "err \<noteq> None \<and> same_kernel k (world s) (world s')"
      using run same1 same2 same3 same4 by (auto split: option.splits sum.splits dest: sym)
    then show ?thesis using rules [of s'] by auto
  qed
qed

text \<open>C38. A successful set-up of the node ports adds one rule, which sends packets with the mark to the main
  table before the pods' rules are looked at, if there was no rule with that table, mark and priority, and
  none otherwise. Setting the node ports up again, for whatever interface and ports, changes no rule: not
  even the number of copies of one.\<close>

theorem setupNodePortRule_once:
  assumes "quiet_netlink e p k" "setupNodePortRule p ifName ports mark s = (None, s')"
  shows "mset (k_rules k 4 (world s')) =
      (if list_ex (is_nodeport_rule mark) (k_rules k 4 (world s)) then mset (k_rules k 4 (world s))
       else add_mset ((nl_NewRule p)\<lparr>nuMark := mark, nuTable := 254, nuPriority := 512\<rparr>) (mset (k_rules k 4 (world s)))) \<and>
    (\<exists>r \<in> set (k_rules k 4 (world s')). is_nodeport_rule mark r) \<and>
    mset (k_rules k 4 (world (snd (setupNodePortRule p ifName' ports' mark s')))) = mset (k_rules k 4 (world s'))"
proof -
  obtain err s'' where run: "setupNodePortRule p ifName' ports' mark s' = (err, s'')" by fastforce
  note first = setupNodePortRule_rules [OF assms]
  have "is_nodeport_rule mark (nodeport_rule p mark)"
    by (simp add: is_nodeport_rule_def nodeport_rule_def)
  with first have there: "\<exists>r \<in># mset (k_rules k 4 (world s')). is_nodeport_rule mark r"
    by (auto simp: list_ex_iff split: if_splits)
  then have "mset (k_rules k 4 (world s'')) = mset (k_rules k 4 (world s'))"
    using setupNodePortRule_rules [OF assms(1) run] by (simp add: list_ex_iff)
  moreover have "\<exists>r \<in> set (k_rules k 4 (world s')). is_nodeport_rule mark r" using there by simp
  ultimately show ?thesis using first run by (simp add: nodeport_rule_def)
qed

lemma demo_nodeport: "fst (setupNodePortRule demo_ptp ''eth0'' ''30000:32767'' 0x2000 demo_s) = None"
  by (simp add: setupNodePortRule_def nodeport_rules_def demo_ptp_def demo_s_def demo_w_def ext_def)

theorem setupNodePortRule_once_witness:
  "let s = snd (setupNodePortRule demo_ptp ''eth0'' ''30000:32767'' 0x2000 demo_s)
   in mset (d_rules (world s)) = {#\<lparr>nuIifName = [], nuTable = 254, nuPriority = 512, nuMark = 0x2000\<rparr>#} \<and>
      mset (d_rules (world (snd (setupNodePortRule demo_ptp ''eth1'' ''1:9'' 0x2000 s)))) = mset (d_rules (world s))"
proof -
  have "setupNodePortRule demo_ptp ''eth0'' ''30000:32767'' 0x2000 demo_s =
      (None, snd (setupNodePortRule demo_ptp ''eth0'' ''30000:32767'' 0x2000 demo_s))"
    by (simp add: prod_eq_iff demo_nodeport)
  from setupNodePortRule_once [OF demo_quiet this, of "''eth1''" "''1:9''"] show ?thesis
    by (simp add: demo_kernel_def Let_def demo_ptp_def demo_s_def demo_w_def)
qed

section \<open>DEL\<close>

lemma ptp_cmdDel_run:
  assumes "ptp_parseConfig e c (caStdinData args) s = (Inr conf, s1)" "ptIPMasq conf" "caNetns args \<noteq> []"
    and "peer_and_addrs e p args conf s1 = (Inl x, s2)"
  shows "ptp_cmdDel e c p args s = (Some (Wrap ''couldn't discover peer idx from netns'' x), s2)"
  using assms by (simp add: ptp_cmdDel_def)

text \<open>C39. DEL for a pod whose veth is already gone, as on a second call: the look-up of the peer fails, DEL
  answers an error and has neither torn the masquerading down nor deleted the rule. (The comment in the code
  says that no error is returned in this case.)\<close>

theorem ptp_del_gone_veth:
  assumes "ptp_parseConfig e c (caStdinData args) s = (Inr conf, s1)" "ptIPMasq conf" "caNetns args \<noteq> []"
    and "ext (nl_WithNetNSPath (nl e) (caNetns args)) s1 = (None, s2)"
    and "ext (ip_GetVethPeerIfindex p (caNetns args) (ptContainerInterface conf)) s2 = (Inl x, s3)"
  shows "ptp_cmdDel e c p args s =
    (Some (Wrap ''couldn't discover peer idx from netns'' (Wrap ''failed to lookup'' x)), s3)"
proof -
  have "peer_and_addrs e p args conf s1 = (Inl (Wrap ''failed to lookup'' x), s3)"
    using assms(4, 5) by (simp add: peer_and_addrs_def)
  with assms(1-3) show ?thesis by (rule ptp_cmdDel_run)
qed

definition demo_ptp_args :: CmdArgs where
  "demo_ptp_args =
     \<lparr>caContainerID = ''pod'', caNetns = ''/proc/7/ns/net'', caIfName = ''eth0'',
      caStdinData = Some (JObj [(''cniVersion'', JStr ''0.3.1''), (''ipMasq'', JBool True),
                                (''hostInterface'', JStr ''eth0''), (''containerInterface'', JStr ''veth0'')])\<rparr>"

definition demo_ptp_conf :: PtpConf where
  "demo_ptp_conf = zero_PtpConf\<lparr>ptCNIVersion := ''0.3.1'', ptIPMasq := True, ptHostInterface := ''eth0'',
     ptContainerInterface := ''veth0'', ptMTU := 9001, ptTableStart := 256, ptNodePortMark := 0x2000,
     ptNodePorts := ''30000:32767''\<rparr>"

lemma demo_ptp_parse:
  "ptp_parseConfig demo demo_cni (caStdinData demo_ptp_args) demo_s = (Inr demo_ptp_conf, demo_s)"
  by (simp add: ptp_parseConfig_def demo_ptp_args_def demo_ptp_conf_def decode_struct_def PtpConf_field_def
      zero_PtpConf_def decode_string_def decode_bool_def eq_fold_def ascii_lower_def parse_prev_def GetMtu_def
      ptp_defaults_def demo_defs ext_def)

theorem ptp_del_gone_veth_witness: "fst (ptp_cmdDel demo demo_cni demo_ptp demo_ptp_args demo_s) \<noteq> None"
proof -
  have "ext (nl_WithNetNSPath (nl demo) (caNetns demo_ptp_args)) demo_s = (None, demo_s)"
    and "ext (ip_GetVethPeerIfindex demo_ptp (caNetns demo_ptp_args) (ptContainerInterface demo_ptp_conf)) demo_s =
      (Inl (Ext ''Link not found''), demo_s)"
    and "ptIPMasq demo_ptp_conf" "caNetns demo_ptp_args \<noteq> []"
    by (simp_all add: ext_def demo_defs demo_ptp_def demo_ptp_conf_def demo_ptp_args_def)
  from ptp_del_gone_veth [OF demo_ptp_parse this(3, 4) this(1, 2)] show ?thesis by simp
qed

section \<open>ADD\<close>

lemma addPolicyRules_routes: "addPolicyRules e p veth ipc routes t s = ((err, routes'), s') \<Longrightarrow> routes' = sort_routes p routes"
  by (simp only: addPolicyRules_def Let_def runp prod.inject) auto

text \<open>The two ends of the pair are the ones \<^verbatim>\<open>ip.SetupVeth\<close> has made.\<close>

lemma setupContainerVeth_result:
  assumes "setupContainerVeth e c p netns ifName mtu hostAddrs masq v4 v6 k8s pr s = Some (Inr (host, cont, r), s')"
  obtains sa hostName hostMac contName sb l sc where
    "ext (ip_SetupVeth p netns ifName mtu) sa = (Inr (hostName, hostMac, contName), sb)"
    "ext (nl_LinkByName (nl e) netns contName) sb = (Inr l, sc)"
    "host = \<lparr>ciName = hostName, ciMac = hostMac, ciSandbox = []\<rparr>"
    "cont = \<lparr>ciName = contName, ciMac = lkMac l, ciSandbox = netns\<rparr>"
    "r = pr\<lparr>rsInterfaces := rsInterfaces pr @ [host, cont]\<rparr>"
  using assms unfolding setupContainerVeth_def Let_def
  by (simp only: run option.inject prod.inject map_option_eq_Some) (auto split: option.splits prod.splits)

lemma setupHostVeth_result:
  assumes "setupHostVeth e p veth hostAddrs t r s = ((None, r'), s')" and "rsIPs r \<noteq> []"
  shows "r' = r\<lparr>rsRoutes := sort_routes p (rsRoutes r)\<rparr>"
  using assms unfolding setupHostVeth_def Let_def
  by (simp only: runp prod.inject) (auto dest!: addPolicyRules_routes split: option.splits)

lemma container_ips_Nil: "rsIPs prev = [] \<Longrightarrow> container_ips v ifName prev = []"
  by (simp add: container_ips_def)

lemma ptp_finish_prints:
  assumes "ptp_finish c p args conf ips v4 v6 result s = (None, s')"
  shows "\<exists>s1. ext (cni_PrintResult c result (ptCNIVersion conf)) s1 = (None, s')"
  using assms unfolding ptp_finish_def Let_def by (simp only: runp prod.inject) auto


lemma ptp_cmdAdd_run:
  assumes "ptp_cmdAdd e c p args s = Some (None, s')"
  obtains conf s1 prev addrs masq v4 v6 s2 host cont r s3 r' s4 where
    "ptp_parseConfig e c (caStdinData args) s = (Inr conf, s1)" "ptPrevResult conf = Some prev"
    "container_ips (ptCNIVersion conf) (caIfName args) prev \<noteq> []"
    "setupContainerVeth e c p (caNetns args) (ptContainerInterface conf) (ptMTU conf) addrs (ptIPMasq conf)
       v4 v6 (caIfName args) prev s2 = Some (Inr (host, cont, r), s3)"
    "setupHostVeth e p (ciName host) addrs (ptTableStart conf) r s3 = ((None, r'), s4)"
    "ptp_finish c p args conf (container_ips (ptCNIVersion conf) (caIfName args) prev) v4 v6 r' s4 = (None, s')"
  using assms unfolding ptp_cmdAdd_def Let_def
  by (simp only: run option.inject prod.inject) (auto split: option.splits)


text \<open>C12. A successful ADD passes the previous result on, for the version the configuration names: the same
  addresses and name servers, the same routes, sorted by destination, and the interfaces with the two ends of
  the new pair appended: first the host's, with the name and the hardware address \<^verbatim>\<open>ip.SetupVeth\<close> has given
  it and no sandbox, then the container's, with the name it was given, the hardware address its link has in
  the container and the container's namespace as sandbox. The pair has been made in that namespace, for the
  configured container interface and MTU.\<close>

theorem ptp_add_result:
  assumes "go_sort (route_Less t6) (sort_routes p)" and "ptp_cmdAdd e c p args s = Some (None, s')"
  shows "\<exists>conf s1 prev sa hostName hostMac contName sb l sc routes s2.
    ptp_parseConfig e c (caStdinData args) s = (Inr conf, s1) \<and> ptPrevResult conf = Some prev \<and>
    ext (ip_SetupVeth p (caNetns args) (ptContainerInterface conf) (ptMTU conf)) sa =
      (Inr (hostName, hostMac, contName), sb) \<and>
    ext (nl_LinkByName (nl e) (caNetns args) contName) sb = (Inr l, sc) \<and>
    mset routes = mset (rsRoutes prev) \<and> no_descent (route_Less t6) routes \<and>
    ext (cni_PrintResult c
           (prev\<lparr>rsInterfaces := rsInterfaces prev @
                   [\<lparr>ciName = hostName, ciMac = hostMac, ciSandbox = []\<rparr>,
                    \<lparr>ciName = contName, ciMac = lkMac l, ciSandbox = caNetns args\<rparr>],
                 rsRoutes := routes\<rparr>)
           (ptCNIVersion conf)) s2 = (None, s')"
proof -
  obtain conf s1 prev addrs v4 v6 s2 host cont r s3 r' s4 where run:
    "ptp_parseConfig e c (caStdinData args) s = (Inr conf, s1)" "ptPrevResult conf = Some prev"
    "container_ips (ptCNIVersion conf) (caIfName args) prev \<noteq> []"
    "setupContainerVeth e c p (caNetns args) (ptContainerInterface conf) (ptMTU conf) addrs (ptIPMasq conf)
       v4 v6 (caIfName args) prev s2 = Some (Inr (host, cont, r), s3)"
    "setupHostVeth e p (ciName host) addrs (ptTableStart conf) r s3 = ((None, r'), s4)"
    "ptp_finish c p args conf (container_ips (ptCNIVersion conf) (caIfName args) prev) v4 v6 r' s4 = (None, s')"
    using assms(2) by (rule ptp_cmdAdd_run)
  obtain sa hostName hostMac contName sb l sc where veth:
    "ext (ip_SetupVeth p (caNetns args) (ptContainerInterface conf) (ptMTU conf)) sa = (Inr (hostName, hostMac, contName), sb)"
    "ext (nl_LinkByName (nl e) (caNetns args) contName) sb = (Inr l, sc)"
    "host = \<lparr>ciName = hostName, ciMac = hostMac, ciSandbox = []\<rparr>"
    "cont = \<lparr>ciName = contName, ciMac = lkMac l, ciSandbox = caNetns args\<rparr>"
    "r = prev\<lparr>rsInterfaces := rsInterfaces prev @ [host, cont]\<rparr>"
    using run(4) by (rule setupContainerVeth_result)
  have "rsIPs r \<noteq> []" using veth(5) container_ips_Nil run(3) by fastforce
  from setupHostVeth_result [OF run(5) this] veth(5)
  have r': "r' = prev\<lparr>rsInterfaces := rsInterfaces prev @ [host, cont], rsRoutes := sort_routes p (rsRoutes prev)\<rparr>" by simp
  obtain s5 where "ext (cni_PrintResult c r' (ptCNIVersion conf)) s5 = (None, s')"
    using ptp_finish_prints [OF run(6)] by blast
  with run(1, 2) veth(1, 2) go_sort.sort_perm [OF assms(1)] go_sort.sort_sorted [OF assms(1)] show ?thesis
    unfolding r' veth(3, 4) by blast
qed

definition demo_prev :: CniResult where
  "demo_prev =
     \<lparr>rsInterfaces = [],
      rsIPs = [\<lparr>icVersion = ''4'', icInterface = None, icAddress = \<lparr>net_ip = V4 10 0 1 7, net_prefix = 24\<rparr>, icGateway = None\<rparr>],
      rsRoutes = [\<lparr>rtDst = \<lparr>net_ip = V4 10 0 0 0, net_prefix = 16\<rparr>, rtGW = V4 10 0 1 1\<rparr>], rsDNS = zero_DNS\<rparr>"

definition demo_chain :: "dw cni_api" where
  "demo_chain = demo_cni\<lparr>cni_Convert := (\<lambda>js. Inr demo_prev)\<rparr>"

definition demo_chain_args :: CmdArgs where
  "demo_chain_args = demo_ptp_args\<lparr>caStdinData :=
     Some (JObj [(''cniVersion'', JStr ''0.3.1''), (''prevResult'', JObj []),
                 (''hostInterface'', JStr ''eth0''), (''containerInterface'', JStr ''veth0'')])\<rparr>"

definition demo_chain_conf :: PtpConf where
  "demo_chain_conf = demo_ptp_conf\<lparr>ptIPMasq := False, ptPrevResult := Some demo_prev\<rparr>"

lemma demo_chain_parse:
  "ptp_parseConfig demo demo_chain (caStdinData demo_chain_args) demo_s = (Inr demo_chain_conf, demo_s)"
  by (simp add: ptp_parseConfig_def demo_chain_args_def demo_chain_conf_def demo_ptp_conf_def decode_struct_def PtpConf_field_def
      zero_PtpConf_def decode_string_def decode_bool_def decode_raw_def eq_fold_def ascii_lower_def parse_prev_def GetMtu_def
      ptp_defaults_def demo_defs ext_def demo_chain_def demo_cni_def)

lemma ten: "Suc 9 = 10"
  by simp

lemmas write_table_10 = write_table.simps(2) [where n = 9, unfolded ten]

lemma demo_chain_add: "\<exists>s'. ptp_cmdAdd demo demo_chain demo_ptp demo_chain_args demo_s = Some (None, s')"
  by (simp add: ptp_cmdAdd_def demo_chain_parse)
     (simp add: demo_chain_conf_def demo_ptp_conf_def demo_prev_def container_ips_def demo_defs ext_def demo_ptp_def demo_chain_def
      demo_cni_def demo_chain_args_def demo_ptp_args_def zero_PtpConf_def setupContainerVeth_def container_routes_def
      setupHostVeth_def addPolicyRules_def findFreeTable_def write_table_10 first_free.simps maxUint32_def
      insertion_sort_def wrap64_def ptp_finish_def setupNodePortRule_def nodeport_rules_def ip_bits_def Let_def)

theorem ptp_add_result_witness:
  "\<exists>(l :: link) routes s2 s'.
     ptp_cmdAdd demo demo_chain demo_ptp demo_chain_args demo_s = Some (None, s') \<and>
     ext (cni_PrintResult demo_chain
            (demo_prev\<lparr>rsInterfaces := [\<lparr>ciName = ''veth1'', ciMac = ''b1'', ciSandbox = []\<rparr>,
                                       \<lparr>ciName = ''veth0'', ciMac = lkMac l, ciSandbox = ''/proc/7/ns/net''\<rparr>],
                       rsRoutes := routes\<rparr>) ''0.3.1'') s2 = (None, s')"
proof -
  obtain s' where run: "ptp_cmdAdd demo demo_chain demo_ptp demo_chain_args demo_s = Some (None, s')"
    using demo_chain_add by blast
  have sort: "go_sort (route_Less (os_txt6 demo_os)) (sort_routes demo_ptp)"
    using isort_routes.go_sort_axioms by (simp add: demo_ptp_def)
  have conf: "ptPrevResult demo_chain_conf = Some demo_prev" "ptCNIVersion demo_chain_conf = ''0.3.1''"
    "ptContainerInterface demo_chain_conf = ''veth0''"
    "caNetns demo_chain_args = ''/proc/7/ns/net''" "rsInterfaces demo_prev = []"
    by (simp_all add: demo_chain_conf_def demo_ptp_conf_def demo_chain_args_def demo_ptp_args_def demo_prev_def)
  have made: "ext (ip_SetupVeth demo_ptp n i m) u = (Inr (''veth1'', ''b1'', i), u)" for n i m u
    by (simp add: demo_ptp_def ext_def)
  from ptp_add_result [OF sort run] run show ?thesis
    unfolding demo_chain_parse prod.inject sum.inject made by (auto simp: conf)
qed

end
