(* ===== verification/Ipvlan.thy ===== *)
theory Ipvlan
  imports Cni
begin

text \<open>
  \<^verbatim>\<open>plugin/ipvlan/ipvlan.go\<close>: the plugin that creates a pod's IPvlan interface on a master interface and
  configures it with the addresses of the previous plugin in the chain, or of an IPAM plugin it runs
  itself. netlink and the CNI libraries are parameters.
\<close>

section \<open>Configuration\<close>

record NetConf =
  ncName :: string
  ncCNIVersion :: string
  ncIPAMType :: string
  ncDNS :: cni_DNS
  ncRawPrevResult :: "json option"
  ncPrevResult :: "CniResult option"
  ncMaster :: string
  ncMode :: string
  ncMTU :: int

datatype cni_cmd = cniAdd | cniDel

definition IPAM_field :: "string \<Rightarrow> json \<Rightarrow> string \<Rightarrow> string option" where
  "IPAM_field k v t = (if eq_fold k ''type'' then decode_string v t else Some t)"

definition some_or_Nil :: "'a list option \<Rightarrow> 'a list" where
  "some_or_Nil x = (case x of None \<Rightarrow> [] | Some l \<Rightarrow> l)"

definition DNS_field :: "string \<Rightarrow> json \<Rightarrow> cni_DNS \<Rightarrow> cni_DNS option" where
  "DNS_field k v d =
     (if eq_fold k ''nameservers'' then map_option (\<lambda>x. d\<lparr>dnNameservers := some_or_Nil x\<rparr>) (decode_strings v)
      else if eq_fold k ''domain'' then map_option (\<lambda>x. d\<lparr>dnDomain := x\<rparr>) (decode_string v (dnDomain d))
      else if eq_fold k ''search'' then map_option (\<lambda>x. d\<lparr>dnSearch := some_or_Nil x\<rparr>) (decode_strings v)
      else if eq_fold k ''options'' then map_option (\<lambda>x. d\<lparr>dnOptions := some_or_Nil x\<rparr>) (decode_strings v)
      else Some d)"

definition NetConf_field :: "string \<Rightarrow> json \<Rightarrow> NetConf \<Rightarrow> NetConf option" where
  "NetConf_field k v n =
     (if eq_fold k ''name'' then map_option (\<lambda>x. n\<lparr>ncName := x\<rparr>) (decode_string v (ncName n))
      else if eq_fold k ''cniVersion'' then map_option (\<lambda>x. n\<lparr>ncCNIVersion := x\<rparr>) (decode_string v (ncCNIVersion n))
      else if eq_fold k ''ipam'' then map_option (\<lambda>x. n\<lparr>ncIPAMType := x\<rparr>) (decode_struct IPAM_field v (ncIPAMType n))
      else if eq_fold k ''dns'' then map_option (\<lambda>x. n\<lparr>ncDNS := x\<rparr>) (decode_struct DNS_field v (ncDNS n))
      else if eq_fold k ''prevResult'' then map_option (\<lambda>x. n\<lparr>ncRawPrevResult := x\<rparr>) (decode_raw v)
      else if eq_fold k ''master'' then map_option (\<lambda>x. n\<lparr>ncMaster := x\<rparr>) (decode_string v (ncMaster n))
      else if eq_fold k ''mode'' then map_option (\<lambda>x. n\<lparr>ncMode := x\<rparr>) (decode_string v (ncMode n))
      else if eq_fold k ''mtu'' then map_option (\<lambda>x. n\<lparr>ncMTU := x\<rparr>) (decode_int v (ncMTU n))
      else Some n)"

definition zero_NetConf :: NetConf where
  "zero_NetConf =
     \<lparr>ncName = [], ncCNIVersion = [], ncIPAMType = [], ncDNS = zero_DNS, ncRawPrevResult = None, ncPrevResult = None,
      ncMaster = [], ncMode = [], ncMTU = 0\<rparr>"

text \<open>The master of a chained call: the single, named interface of the previous result.\<close>

definition chained_master :: "NetConf \<Rightarrow> NetConf res" where
  "chained_master n =
     (case ncPrevResult n of
        None \<Rightarrow> Inl (Errorf ''\"master\" field is required. It specifies the host interface name to virtualize'')
      | Some prev \<Rightarrow>
          (case rsInterfaces prev of
             [i] \<Rightarrow> if ciName i \<noteq> [] then Inr (n\<lparr>ncMaster := ciName i\<rparr>)
                    else Inl (Errorf ''chained master failure. PrevResult lacks a single named interface'')
           | _ \<Rightarrow> Inl (Errorf ''chained master failure. PrevResult lacks a single named interface'')))"

definition loadConf :: "'w cni_api \<Rightarrow> json option \<Rightarrow> cni_cmd \<Rightarrow> (NetConf \<times> string) res" where
  "loadConf c bytes cmd =
     (case Option.bind bytes (\<lambda>js. decode_struct NetConf_field js zero_NetConf) of
        None \<Rightarrow> Inl (Errorf ''failed to load netconf'')
      | Some n \<Rightarrow>
          (case parse_prev c (ncCNIVersion n) (ncRawPrevResult n) of
             Inl err \<Rightarrow> Inl err
           | Inr prev \<Rightarrow>
               (let n = n\<lparr>ncRawPrevResult := None, ncPrevResult := prev\<rparr>
                in case (if ncMaster n = [] \<and> cmd \<noteq> cniDel then chained_master n else Inr n) of
                     Inl err \<Rightarrow> Inl err
                   | Inr n \<Rightarrow> Inr (n, ncCNIVersion n))))"

text \<open>\<^verbatim>\<open>IPVLAN_MODE_L2\<close>, \<^verbatim>\<open>L3\<close> and \<^verbatim>\<open>L3S\<close> are 0, 1 and 2.\<close>

definition modeFromString :: "string \<Rightarrow> nat res" where
  "modeFromString s =
     (if s = [] \<or> s = ''l2'' then Inr 0
      else if s = ''l3'' then Inr 1
      else if s = ''l3s'' then Inr 2
      else Inl (Errorf (''unknown ipvlan mode: '' @ s)))"

section \<open>The interface\<close>

text \<open>The part that runs in the container's namespace.\<close>

definition rename_ipvlan :: "'w env \<Rightarrow> 'w cni_api \<Rightarrow> string \<Rightarrow> string \<Rightarrow> string \<Rightarrow> 'w st \<Rightarrow> cni_iface res \<times> 'w st" where
  "rename_ipvlan e c netns tmpName ifName s =
     (let (err, s) = ext (ns_Do c netns) s
      in case err of
           Some x \<Rightarrow> (Inl x, s)
         | None \<Rightarrow>
             (let (err, s) = ext (ip_RenameLink c netns tmpName ifName) s
              in case err of
                   Some x \<Rightarrow> (Inl (Wrap ''failed to rename ipvlan'' x), s)
                 | None \<Rightarrow>
                     (let (r, s) = ext (nl_LinkByName (nl e) netns ifName) s
                      in case r of
                           Inl x \<Rightarrow> (Inl (Wrap ''failed to refetch ipvlan'' x), s)
                         | Inr contIpvlan \<Rightarrow> (Inr \<lparr>ciName = ifName, ciMac = lkMac contIpvlan, ciSandbox = netns\<rparr>, s))))"

definition createIpvlan :: "'w env \<Rightarrow> 'w cni_api \<Rightarrow> NetConf \<Rightarrow> string \<Rightarrow> string \<Rightarrow> 'w st \<Rightarrow> cni_iface res \<times> 'w st" where
  "createIpvlan e c conf ifName netns s =
     (case modeFromString (ncMode conf) of
        Inl x \<Rightarrow> (Inl x, s)
      | Inr mode \<Rightarrow>
          (let (r, s) = ext (nl_LinkByName (nl e) [] (ncMaster conf)) s
           in case r of
                Inl x \<Rightarrow> (Inl (Wrap ''failed to lookup master'' x), s)
              | Inr m \<Rightarrow>
                  (let (r, s) = ext (ip_RandomVethName c) s
                   in case r of
                        Inl x \<Rightarrow> (Inl x, s)
                      | Inr tmpName \<Rightarrow>
                          (let (err, s) = ext (nl_LinkAdd c \<lparr>ivMTU = ncMTU conf, ivName = tmpName, ivParentIndex = lkIndex m,
                                                             ivNamespace = netns, ivMode = mode\<rparr>) s
                           in case err of
                                Some x \<Rightarrow> (Inl (Wrap ''failed to create ipvlan'' x), s)
                              | None \<Rightarrow> rename_ipvlan e c netns tmpName ifName s))))"

section \<open>The commands\<close>

definition run_ipam :: "'w cni_api \<Rightarrow> CmdArgs \<Rightarrow> NetConf \<Rightarrow> 'w st \<Rightarrow> CniResult res \<times> 'w st" where
  "run_ipam c args n s =
     (let (r, s) = ext (ipam_ExecAdd c (ncIPAMType n) (caStdinData args)) s
      in case r of
           Inl x \<Rightarrow> (Inl x, s)
         | Inr js \<Rightarrow>
             (case cni_Convert c js of
                Inl x \<Rightarrow> (Inl x, s)
              | Inr result \<Rightarrow>
                  if rsIPs result = [] then (Inl (Errorf ''IPAM plugin returned missing IP config''), s)
                  else (Inr result, s)))"

text \<open>The result whose addresses are configured: the previous one if it has addresses and no IPAM plugin is
  named, else that of the IPAM plugin.\<close>

definition base_result :: "'w cni_api \<Rightarrow> CmdArgs \<Rightarrow> NetConf \<Rightarrow> 'w st \<Rightarrow> CniResult res \<times> 'w st" where
  "base_result c args n s =
     (case ncPrevResult n of
        None \<Rightarrow> run_ipam c args n s
      | Some prev \<Rightarrow>
          if ncIPAMType n = [] \<and> 0 < length (rsIPs prev) then (Inr prev, s) else run_ipam c args n s)"

text \<open>All addresses belong to the one interface, the IPvlan one.\<close>

definition bind_result :: "cni_iface \<Rightarrow> CniResult \<Rightarrow> CniResult" where
  "bind_result i r = r\<lparr>rsIPs := map (\<lambda>c. c\<lparr>icInterface := Some 0\<rparr>) (rsIPs r), rsInterfaces := [i]\<rparr>"

definition configure_result ::
    "'w cni_api \<Rightarrow> CmdArgs \<Rightarrow> NetConf \<Rightarrow> string \<Rightarrow> CniResult \<Rightarrow> 'w st \<Rightarrow> error option \<times> 'w st" where
  "configure_result c args n cniVersion result s =
     (let (err, s) = ext (ns_Do c (caNetns args)) s
      in case err of
           Some x \<Rightarrow> (Some x, s)
         | None \<Rightarrow>
             (let (err, s) = ext (ipam_ConfigureIface c (caNetns args) (caIfName args) result) s
              in case err of
                   Some x \<Rightarrow> (Some x, s)
                 | None \<Rightarrow> ext (cni_PrintResult c (result\<lparr>rsDNS := ncDNS n\<rparr>) cniVersion) s))"

definition ipvlan_cmdAdd :: "'w env \<Rightarrow> 'w cni_api \<Rightarrow> CmdArgs \<Rightarrow> 'w st \<Rightarrow> error option \<times> 'w st" where
  "ipvlan_cmdAdd e c args s =
     (case loadConf c (caStdinData args) cniAdd of
        Inl x \<Rightarrow> (Some x, s)
      | Inr (n, cniVersion) \<Rightarrow>
          (let (err, s) = ext (ns_GetNS c (caNetns args)) s
           in case err of
                Some x \<Rightarrow> (Some (Wrap ''failed to open netns'' x), s)
              | None \<Rightarrow>
                  (let (r, s) = createIpvlan e c n (caIfName args) (caNetns args) s
                   in case r of
                        Inl x \<Rightarrow> (Some x, s)
                      | Inr ipvlanInterface \<Rightarrow>
                          (let (r, s) = base_result c args n s
                           in case r of
                                Inl x \<Rightarrow> (Some x, s)
                              | Inr result \<Rightarrow>
                                  configure_result c args n cniVersion (bind_result ipvlanInterface result) s))))"

text \<open>An interface that is not there counts as deleted.\<close>

definition delete_iface :: "'w env \<Rightarrow> 'w cni_api \<Rightarrow> CmdArgs \<Rightarrow> 'w st \<Rightarrow> error option \<times> 'w st" where
  "delete_iface e c args s =
     (let (err, s) = ext (nl_WithNetNSPath (nl e) (caNetns args)) s
      in case err of
           Some x \<Rightarrow> (Some x, s)
         | None \<Rightarrow>
             (let (r, s) = ext (ip_DelLinkByName c (caNetns args) (caIfName args)) s
              in case r of
                   DelNil \<Rightarrow> (None, s)
                 | DelNotFound \<Rightarrow> (None, s)
                 | DelFailed x \<Rightarrow> (Some x, s)))"

definition ipvlan_cmdDel :: "'w env \<Rightarrow> 'w cni_api \<Rightarrow> CmdArgs \<Rightarrow> 'w st \<Rightarrow> error option \<times> 'w st" where
  "ipvlan_cmdDel e c args s =
     (case loadConf c (caStdinData args) cniDel of
        Inl x \<Rightarrow> (Some x, s)
      | Inr (n, _) \<Rightarrow>
          (let (err, s) = (if ncIPAMType n \<noteq> [] then ext (ipam_ExecDel c (ncIPAMType n) (caStdinData args)) s else (None, s))
           in case err of
                Some x \<Rightarrow> (Some x, s)
              | None \<Rightarrow> if ncMaster n = [] \<or> caNetns args = [] then (None, s) else delete_iface e c args s))"

definition ipvlan_cmdCheck :: "CmdArgs \<Rightarrow> 'w st \<Rightarrow> error option \<times> 'w st" where
  "ipvlan_cmdCheck args s = (None, s)"

section \<open>What ADD does\<close>

text \<open>The master named in the document, else the previous result's only interface.\<close>

definition chosen_master :: "json option \<Rightarrow> NetConf \<Rightarrow> bool" where
  "chosen_master bytes n =
    (\<exists>js n0. bytes = Some js \<and> decode_struct NetConf_field js zero_NetConf = Some n0 \<and>
       (if ncMaster n0 \<noteq> [] then ncMaster n = ncMaster n0
        else (\<exists>prev i. ncPrevResult n = Some prev \<and> rsInterfaces prev = [i] \<and> ncMaster n = ciName i)))"

lemma loadConf_Add:
  assumes "loadConf c bytes cniAdd = Inr (n, v)"
  shows "v = ncCNIVersion n \<and> ncMaster n \<noteq> [] \<and> chosen_master bytes n"
  using assms unfolding loadConf_def Let_def chosen_master_def
  by (auto simp: chained_master_def bind_eq_Some_conv split: option.splits sum.splits if_splits list.splits)

lemma createIpvlan_run:
  assumes "createIpvlan e c conf ifName netns s = (Inr i, s')"
  shows "ciName i = ifName \<and> ciSandbox i = netns \<and>
    (\<exists>mode m tmp s1 s2 s3. modeFromString (ncMode conf) = Inr mode \<and>
       ext (nl_LinkByName (nl e) [] (ncMaster conf)) s = (Inr m, s1) \<and> ext (ip_RandomVethName c) s1 = (Inr tmp, s2) \<and>
       ext (nl_LinkAdd c \<lparr>ivMTU = ncMTU conf, ivName = tmp, ivParentIndex = lkIndex m, ivNamespace = netns, ivMode = mode\<rparr>) s2 =
         (None, s3) \<and>
       rename_ipvlan e c netns tmp ifName s3 = (Inr i, s'))"
proof -
  have "ciName i = ifName \<and> ciSandbox i = netns" if "rename_ipvlan e c netns tmp ifName s3 = (Inr i, s')" for tmp s3
    using that unfolding rename_ipvlan_def Let_def by (simp only: runp prod.inject) auto
  with assms show ?thesis
    unfolding createIpvlan_def Let_def by (simp only: runp prod.inject) (elim disjE exE conjE; simp; blast)
qed

text \<open>Where the addresses come from.\<close>

definition from_prev :: "NetConf \<Rightarrow> bool" where
  "from_prev n = (ncIPAMType n = [] \<and> (\<exists>prev. ncPrevResult n = Some prev \<and> rsIPs prev \<noteq> []))"

lemma base_result_run:
  assumes "base_result c args n s = (Inr base, s')"
  shows "rsIPs base \<noteq> [] \<and>
    (if from_prev n then ncPrevResult n = Some base
     else (\<exists>js. fst (ext (ipam_ExecAdd c (ncIPAMType n) (caStdinData args)) s) = Inr js \<and> cni_Convert c js = Inr base))"
proof -
  have ipam: "rsIPs base \<noteq> [] \<and>
      (\<exists>js. fst (ext (ipam_ExecAdd c (ncIPAMType n) (caStdinData args)) s) = Inr js \<and> cni_Convert c js = Inr base)"
    if "run_ipam c args n s = (Inr base, s')"
    using that unfolding run_ipam_def Let_def by (simp only: runp prod.inject) auto
  with assms show ?thesis by (auto simp: base_result_def from_prev_def split: option.splits if_splits)
qed

lemma configure_result_prints:
  "configure_result c args n v r s = (None, s') \<Longrightarrow> \<exists>s1. ext (cni_PrintResult c (r\<lparr>rsDNS := ncDNS n\<rparr>) v) s1 = (None, s')"
  unfolding configure_result_def Let_def by (simp only: runp prod.inject) auto

lemma ipvlan_cmdAdd_run:
  assumes "ipvlan_cmdAdd e c args s = (None, s')"
  obtains n v s1 i s2 base s3 where "loadConf c (caStdinData args) cniAdd = Inr (n, v)"
    "createIpvlan e c n (caIfName args) (caNetns args) s1 = (Inr i, s2)" "base_result c args n s2 = (Inr base, s3)"
    "configure_result c args n v (bind_result i base) s3 = (None, s')"
  using assms unfolding ipvlan_cmdAdd_def Let_def by (simp only: runp prod.inject) auto

text \<open>C13. A successful ADD has created an IPvlan link, in the container's namespace and in the configured
  mode, on the master: the configured one, else the single named interface of the previous result. It
  reports that link as the only interface, under the requested name, with all addresses bound to it; the
  addresses and routes are those of the previous result if that has addresses and no IPAM plugin is named,
  and those the IPAM plugin answered otherwise.\<close>

theorem ipvlan_add_result:
  assumes "ipvlan_cmdAdd e c args s = (None, s')"
  shows "\<exists>n v (i :: cni_iface) base mode m tmp s1 s2 s3 s4 s5 s6.
    loadConf c (caStdinData args) cniAdd = Inr (n, v) \<and>
    ncMaster n \<noteq> [] \<and> chosen_master (caStdinData args) n \<and> ext (nl_LinkByName (nl e) [] (ncMaster n)) s1 = (Inr m, s2) \<and>
    modeFromString (ncMode n) = Inr mode \<and>
    ext (nl_LinkAdd c \<lparr>ivMTU = ncMTU n, ivName = tmp, ivParentIndex = lkIndex m, ivNamespace = caNetns args, ivMode = mode\<rparr>) s3 =
      (None, s4) \<and>
    ciName i = caIfName args \<and> ciSandbox i = caNetns args \<and> rsIPs base \<noteq> [] \<and>
    (if from_prev n then ncPrevResult n = Some base
     else (\<exists>js. fst (ext (ipam_ExecAdd c (ncIPAMType n) (caStdinData args)) s5) = Inr js \<and> cni_Convert c js = Inr base)) \<and>
    ext (cni_PrintResult c
           \<lparr>rsInterfaces = [i], rsIPs = map (\<lambda>x. x\<lparr>icInterface := Some 0\<rparr>) (rsIPs base), rsRoutes = rsRoutes base, rsDNS = ncDNS n\<rparr>
           v) s6 = (None, s')"
proof -
  obtain n v s1 i s2 base s3 where run: "loadConf c (caStdinData args) cniAdd = Inr (n, v)"
    "createIpvlan e c n (caIfName args) (caNetns args) s1 = (Inr i, s2)" "base_result c args n s2 = (Inr base, s3)"
    "configure_result c args n v (bind_result i base) s3 = (None, s')"
    using assms by (rule ipvlan_cmdAdd_run)
  have res: "(bind_result i base)\<lparr>rsDNS := ncDNS n\<rparr> =
      \<lparr>rsInterfaces = [i], rsIPs = map (\<lambda>x. x\<lparr>icInterface := Some 0\<rparr>) (rsIPs base), rsRoutes = rsRoutes base, rsDNS = ncDNS n\<rparr>"
    by (simp add: bind_result_def)
  obtain s6 where "ext (cni_PrintResult c ((bind_result i base)\<lparr>rsDNS := ncDNS n\<rparr>) v) s6 = (None, s')"
    using configure_result_prints [OF run(4)] by blast
  moreover obtain mode m tmp s4 s5 s7 where "modeFromString (ncMode n) = Inr mode"
    "ext (nl_LinkByName (nl e) [] (ncMaster n)) s1 = (Inr m, s4)"
    "ext (nl_LinkAdd c \<lparr>ivMTU = ncMTU n, ivName = tmp, ivParentIndex = lkIndex m, ivNamespace = caNetns args, ivMode = mode\<rparr>) s5 =
       (None, s7)"
    using createIpvlan_run [OF run(2)] by blast
  moreover have "ncMaster n \<noteq> []" "chosen_master (caStdinData args) n" using loadConf_Add [OF run(1)] by blast+
  moreover have "ciName i = caIfName args" "ciSandbox i = caNetns args" using createIpvlan_run [OF run(2)] by blast+
  moreover note run(1) base_result_run [OF run(3)]
  ultimately show ?thesis unfolding res by metis
qed

definition demo_ipvlan_prev :: CniResult where
  "demo_ipvlan_prev =
     \<lparr>rsInterfaces = [\<lparr>ciName = ''eth1'', ciMac = [], ciSandbox = []\<rparr>],
      rsIPs = [\<lparr>icVersion = ''4'', icInterface = None, icAddress = \<lparr>net_ip = V4 10 0 1 7, net_prefix = 24\<rparr>, icGateway = None\<rparr>],
      rsRoutes = [], rsDNS = zero_DNS\<rparr>"

definition demo_ipvlan_cni :: "dw cni_api" where
  "demo_ipvlan_cni = demo_cni\<lparr>cni_Convert := (\<lambda>js. Inr demo_ipvlan_prev)\<rparr>"

definition demo_ipvlan_args :: CmdArgs where
  "demo_ipvlan_args = demo_args\<lparr>caStdinData :=
     Some (JObj [(''cniVersion'', JStr ''0.3.1''), (''prevResult'', JObj []), (''mode'', JStr ''l2'')])\<rparr>"

lemma demo_loadConf:
  "loadConf demo_ipvlan_cni (caStdinData demo_ipvlan_args) cniAdd =
     Inr (zero_NetConf\<lparr>ncCNIVersion := ''0.3.1'', ncMode := ''l2'', ncMaster := ''eth1'', ncPrevResult := Some demo_ipvlan_prev\<rparr>, ''0.3.1'')"
  by (simp add: loadConf_def demo_ipvlan_cni_def demo_ipvlan_args_def demo_cni_def decode_struct_def NetConf_field_def
      zero_NetConf_def decode_string_def decode_raw_def eq_fold_def ascii_lower_def parse_prev_def chained_master_def
      demo_ipvlan_prev_def)

lemma demo_ipvlan_add: "ipvlan_cmdAdd demo demo_ipvlan_cni demo_ipvlan_args demo_s = (None, demo_s)"
  by (simp add: ipvlan_cmdAdd_def demo_loadConf)
     (simp add: createIpvlan_def rename_ipvlan_def base_result_def configure_result_def modeFromString_def zero_NetConf_def
      demo_ipvlan_cni_def demo_ipvlan_args_def demo_args_def demo_cni_def demo_defs ext_def demo_ipvlan_prev_def)

theorem ipvlan_add_result_witness:
  "\<exists>(i :: cni_iface) s6. ciName i = ''eth0'' \<and> ciSandbox i = ''/proc/7/ns/net'' \<and>
     ext (cni_PrintResult demo_ipvlan_cni
       \<lparr>rsInterfaces = [i], rsIPs = map (\<lambda>x. x\<lparr>icInterface := Some 0\<rparr>) (rsIPs demo_ipvlan_prev), rsRoutes = [], rsDNS = zero_DNS\<rparr>
       ''0.3.1'') s6 = (None, demo_s)"
proof -
  have prev: "rsRoutes demo_ipvlan_prev = []" "rsIPs demo_ipvlan_prev \<noteq> []" by (simp_all add: demo_ipvlan_prev_def)
  have args: "caIfName demo_ipvlan_args = ''eth0''" "caNetns demo_ipvlan_args = ''/proc/7/ns/net''"
    by (simp_all add: demo_ipvlan_args_def demo_args_def)
  have conf: "ncDNS zero_NetConf = zero_DNS" "ncIPAMType zero_NetConf = []" by (simp_all add: zero_NetConf_def)
  from ipvlan_add_result [OF demo_ipvlan_add] show ?thesis
    unfolding demo_loadConf args by (clarsimp simp: from_prev_def prev conf) metis
qed

end
