(* ===== verification/Spec2Isabelle.thy ===== *)
theory Spec2Isabelle
  imports Node Ptp Ipvlan
begin

text \<open>
  A verification of \<^verbatim>\<open>cni-ipvlan-vpc-k8s\<close>: CNI plugins that give the pods of a Kubernetes node addresses of
  the AWS VPC, and the tool of its operators.

  \<^bold>\<open>The program and its parts.\<close> The IPAM plugin (\<^verbatim>\<open>plugin/ipam\<close>) hands out an address per pod. It asks the
  \<^verbatim>\<open>aws\<close> package for one: a free address of the node's elastic network interfaces (ENIs), a new address on
  one of them, or the first address of a new ENI. Free addresses are remembered with the time of their
  release in the registry, a JSON file; answers of EC2 are remembered in cache files; both are shared by all
  processes, which a lock file (\<^verbatim>\<open>lib/lock.go\<close>) runs one after the other. The IPvlan plugin
  (\<^verbatim>\<open>plugin/ipvlan\<close>), chained behind it, creates the pod's interface; the unnumbered point-to-point plugin
  (\<^verbatim>\<open>plugin/unnumbered-ptp\<close>) connects the pod with its host and gives it a policy routing table. The tool
  (\<^verbatim>\<open>cmd/cni-ipvlan-vpc-k8s-tool\<close>) lists what the program knows and collects addresses that have been free
  for long.

  \<^bold>\<open>How it is modelled.\<close> Operations are functions on the record \<^verbatim>\<open>st\<close> of \<^verbatim>\<open>Host\<close>: the files and directories
  the program keeps, the memory of its AWS client, and the unknown outside world \<open>'w\<close>. What is not in the
  repository is a parameter: the fields of \<^verbatim>\<open>env\<close> (operating system, lock library, instance metadata, EC2,
  netlink, Docker), of \<^verbatim>\<open>cni_api\<close> and of \<^verbatim>\<open>ptp_api\<close> (CNI libraries, netlink, iptables, sysctl, ARP) are
  functions that answer and leave a new world. An error is \<open>Inl\<close> or \<open>Some\<close> of the type \<^verbatim>\<open>error\<close>, with the
  source's text; values that a message interpolates are left out. Where the program may panic or not
  return, the result is an \<open>option\<close> and \<open>None\<close> stands for that. Numbers are integers in the range of their
  Go type, with \<^verbatim>\<open>wrap64\<close> where arithmetic may leave it; the bytes of an address are machine words. A Go map
  is an association list, iterated in an order that is a parameter; \<^verbatim>\<open>sort.Sort\<close> is a parameter with the
  contract \<^verbatim>\<open>go_sort\<close>.

  \<^bold>\<open>The theories\<close>, with the files under \<^verbatim>\<open>src/\<close> they model and what their lemmas show:

  \<^item> \<^verbatim>\<open>Prelude\<close>, \<^verbatim>\<open>GoNet\<close>, \<^verbatim>\<open>JsonDoc\<close>: text, decimal numbers, association lists, sorting, the \<^verbatim>\<open>net\<close> package's
    addresses and blocks, decoding of JSON documents into structs; round trips of text, and the rule sets
    \<^verbatim>\<open>run\<close> and \<^verbatim>\<open>runp\<close> with which proofs take a run apart.
  \<^item> \<^verbatim>\<open>JsonTime\<close> (\<^verbatim>\<open>lib/jsontime.go\<close>): times of whole seconds as RFC 3339 text; the round trip cuts the
    fraction off.
  \<^item> \<^verbatim>\<open>AwsTypes\<close>, \<^verbatim>\<open>Host\<close>, \<^verbatim>\<open>Scenario\<close>: the data types, the environment and the state, and one concrete world on
    which the witnesses run.
  \<^item> \<^verbatim>\<open>Lock\<close> (\<^verbatim>\<open>lib/lock.go\<close>): the function runs exactly when the lock was taken, after at most 999
    attempts; a function that ends the process leaves the lock file behind.
  \<^item> \<^verbatim>\<open>Client\<close> (\<^verbatim>\<open>aws/client.go\<close>, \<^verbatim>\<open>aws/util.go\<close>, \<^verbatim>\<open>aws/bugs.go\<close>): the identity document and the EC2 client made
    once; a failed request is not reported again, and the callers then panic. A process starts with the
    empty client \<^verbatim>\<open>fresh_client\<close>.
  \<^item> \<^verbatim>\<open>Cache\<close>, \<^verbatim>\<open>CachedQuery\<close> (\<^verbatim>\<open>aws/cache/cacheable.go\<close>): what was stored is read back until it expires; the
    locale \<^verbatim>\<open>json_codec\<close> carries this to the three cached types.
  \<^item> \<^verbatim>\<open>Metadata\<close> (\<^verbatim>\<open>aws/metadata.go\<close>): all interfaces the metadata service lists, in order of their number.
  \<^item> \<^verbatim>\<open>Nl\<close> (\<^verbatim>\<open>nl\<close>): addresses in use on the node, links up and down; the polling loop ends when the clock runs, and
    panics only when its report to standard error cannot be written.
  \<^item> \<^verbatim>\<open>Registry\<close> (\<^verbatim>\<open>aws/registry.go\<close>): refinement of a finite map; the locale \<^verbatim>\<open>ip_registry\<close> is the contract on
    which the search, the allocator, the plugin and the tool are proved.
  \<^item> \<^verbatim>\<open>FreeIP\<close>, \<^verbatim>\<open>Allocate\<close>, \<^verbatim>\<open>Limits\<close>, \<^verbatim>\<open>Subnets\<close>, \<^verbatim>\<open>Vpc\<close>, \<^verbatim>\<open>InterfaceMgr\<close> (\<^verbatim>\<open>aws/freeip.go\<close>,
    \<^verbatim>\<open>aws/allocate.go\<close>, \<^verbatim>\<open>aws/limits.go\<close>, \<^verbatim>\<open>aws/subnets.go\<close>, \<^verbatim>\<open>aws/vpc.go\<close>, \<^verbatim>\<open>aws/interface.go\<close>): which addresses
    are free, that new ones are new, how many are asked for, the choice of interface and subnet, how long the
    limits of an instance type are remembered, the order of creation, attachment, detachment and deletion.
  \<^item> \<^verbatim>\<open>Footprint\<close>: which files an allocation touches.
  \<^item> \<^verbatim>\<open>Cni\<close>: the CNI types and library calls.
  \<^item> \<^verbatim>\<open>Ipam\<close> (\<^verbatim>\<open>plugin/ipam/main.go\<close>): reuse only after the waiting time, the result of ADD, that ADD returns,
    that DEL tracks the addresses. A command that fails ends the process with code 1, inside the lock.
  \<^item> \<^verbatim>\<open>Ipvlan\<close> (\<^verbatim>\<open>plugin/ipvlan/ipvlan.go\<close>): master, source of the addresses and result of ADD.
  \<^item> \<^verbatim>\<open>Ptp\<close> (\<^verbatim>\<open>plugin/unnumbered-ptp/unnumbered-ptp.go\<close>): the least free routing table, a table of its own for
    each pod, a single node port rule however often it is set up, the result of ADD with both ends of the
    pair, DEL without the device. The kernel's rules are counted as a multiset.
  \<^item> \<^verbatim>\<open>Tool\<close> (\<^verbatim>\<open>cmd/cni-ipvlan-vpc-k8s-tool\<close>): garbage collection gives back idle addresses only; filters read
    back.
  \<^item> \<^verbatim>\<open>Node\<close> and this theory: the processes together as a state machine, whose invariant holds in every
    reachable state, and the chain of the IPAM and the IPvlan plugin.

  Two definitions go beyond the source's own: \<^verbatim>\<open>FindFreeIPsAtIndex0\<close>, which breaks the circle between the
  registry and the search, and the list of released addresses that \<^verbatim>\<open>reap\<close> answers for its theorems.

  \<^bold>\<open>Loops.\<close> Loops over data are structural recursion. The lock's 1000 tries, the allocator's and the
  detachment's attempts and the ten attempts for a routing table are counters of the source. Polling until a
  deadline is a \<^verbatim>\<open>partial_function\<close>, proved to return when the clock advances at least as far as it slept. The
  search for a routing table stops at the largest 32-bit number and has a termination proof.

  \<^bold>\<open>Hypotheses.\<close> Properties name what they need of the outside: \<^verbatim>\<open>fs_ok\<close> (no system call fails), \<^verbatim>\<open>clock_ok\<close>,
  \<^verbatim>\<open>calm\<close> (the clock runs and standard error can be written to), \<^verbatim>\<open>range_ok\<close>, \<^verbatim>\<open>rand_ok\<close>, \<^verbatim>\<open>go_sort\<close> (what Go
  documents), \<^verbatim>\<open>quiet_netlink\<close> (nobody else changes the kernel's tables), \<^verbatim>\<open>iddoc_ok\<close> (the metadata service
  answers the request for the identity document), \<^verbatim>\<open>client_ready\<close> (the client has the document, or has not
  asked yet and \<^verbatim>\<open>iddoc_ok\<close> holds: so the client every process starts with), \<^verbatim>\<open>registry_ok\<close> and \<^verbatim>\<open>healthy\<close>. Each property with a hypothesis
  is followed by a witness on the world of \<^verbatim>\<open>Scenario\<close>.

  \<^bold>\<open>Not modelled.\<close> The start-up code (\<^verbatim>\<open>init\<close>), which pins threads, and the inside of \<^verbatim>\<open>skel.PluginMain\<close>, of
  which only the dispatch and the exit code are; parsing of the command line and the layout of listings, which
  are library code; messages on standard error whose outcome is not tested (\<^verbatim>\<open>nl/up.go\<close> tests it, and there the
  write is modelled); the overlap of two processes outside the lock (the two plugins behind the IPAM plugin and the tool's
  listings take none). The text form of IPv6 addresses is a parameter with a decoder of its own.
\<close>

section \<open>The chain of plugins\<close>

lemma loadConf_chained:
  assumes "decode_struct NetConf_field js zero_NetConf = Some n0" "ncMaster n0 = []" "ncRawPrevResult n0 = Some raw"
    and "cni_NewResult c (ncCNIVersion n0) raw = Inr res" "cni_Convert c res = Inr (ipam_result e alloc gw dns prefix routes)"
    and "LocalName (arInterface alloc) \<noteq> []"
  shows "loadConf c (Some js) cniAdd =
    Inr (n0\<lparr>ncRawPrevResult := None, ncPrevResult := Some (ipam_result e alloc gw dns prefix routes),
            ncMaster := LocalName (arInterface alloc)\<rparr>, ncCNIVersion n0)"
  using assms by (simp add: loadConf_def parse_prev_def chained_master_def ipam_result_def)

text \<open>C9. The plugins compose. When the IPvlan plugin is chained behind the IPAM plugin, so that its previous
  result is the one that the IPAM plugin printed for an allocation, and its own configuration names neither
  a master nor an IPAM plugin, then a successful ADD has created the link on the interface of the
  allocation, and reports the allocated address with its prefix and gateway, bound to that link, and the
  routes of the IPAM plugin.\<close>

theorem chain_ipam_ipvlan:
  assumes "caStdinData args = Some js" "decode_struct NetConf_field js zero_NetConf = Some n0"
    and "ncMaster n0 = []" "ncIPAMType n0 = []" "ncRawPrevResult n0 = Some raw"
    and "cni_NewResult c (ncCNIVersion n0) raw = Inr res" "cni_Convert c res = Inr (ipam_result e' alloc gw dns prefix routes)"
    and "LocalName (arInterface alloc) \<noteq> []" and "ipvlan_cmdAdd e c args s = (None, s')"
  shows "\<exists>m mode tmp mac s1 s2 s3 s4 s5.
    ext (nl_LinkByName (nl e) [] (LocalName (arInterface alloc))) s1 = (Inr m, s2) \<and>
    ext (nl_LinkAdd c \<lparr>ivMTU = ncMTU n0, ivName = tmp, ivParentIndex = lkIndex m, ivNamespace = caNetns args, ivMode = mode\<rparr>) s3 =
      (None, s4) \<and>
    ext (cni_PrintResult c
           \<lparr>rsInterfaces = [\<lparr>ciName = caIfName args, ciMac = mac, ciSandbox = caNetns args\<rparr>],
            rsIPs = [\<lparr>icVersion = ''4'', icInterface = Some 0, icAddress = \<lparr>net_ip = arIP alloc, net_prefix = prefix\<rparr>,
                      icGateway = Some gw\<rparr>],
            rsRoutes = routes, rsDNS = ncDNS n0\<rparr> (ncCNIVersion n0)) s5 = (None, s')"
proof -
  let ?r = "ipam_result e' alloc gw dns prefix routes"
  let ?n = "n0\<lparr>ncRawPrevResult := None, ncPrevResult := Some ?r, ncMaster := LocalName (arInterface alloc)\<rparr>"
  obtain n v s1 i s2 base s3 where run: "loadConf c (caStdinData args) cniAdd = Inr (n, v)"
    "createIpvlan e c n (caIfName args) (caNetns args) s1 = (Inr i, s2)" "base_result c args n s2 = (Inr base, s3)"
    "configure_result c args n v (bind_result i base) s3 = (None, s')"
    using assms(9) by (rule ipvlan_cmdAdd_run)
  have n: "n = ?n" "v = ncCNIVersion n0"
    using run(1) unfolding assms(1) loadConf_chained [OF assms(2, 3, 5-8)] by simp_all
  have base: "base = ?r" using base_result_run [OF run(3)] n(1) assms(4) by (simp add: from_prev_def ipam_result_def)
  note link = createIpvlan_run [OF run(2)]
  then have i: "i = \<lparr>ciName = caIfName args, ciMac = ciMac i, ciSandbox = caNetns args\<rparr>" by (cases i) simp
  have result: "(bind_result i base)\<lparr>rsDNS := ncDNS n\<rparr> =
      \<lparr>rsInterfaces = [\<lparr>ciName = caIfName args, ciMac = ciMac i, ciSandbox = caNetns args\<rparr>],
       rsIPs = [\<lparr>icVersion = ''4'', icInterface = Some 0, icAddress = \<lparr>net_ip = arIP alloc, net_prefix = prefix\<rparr>,
                 icGateway = Some gw\<rparr>],
       rsRoutes = routes, rsDNS = ncDNS n0\<rparr>"
    using i by (simp add: base n(1) bind_result_def ipam_result_def)
  obtain s5 where print: "ext (cni_PrintResult c ((bind_result i base)\<lparr>rsDNS := ncDNS n\<rparr>) v) s5 = (None, s')"
    using configure_result_prints [OF run(4)] by blast
  obtain mode m tmp s6 s7 s8 where master: "ext (nl_LinkByName (nl e) [] (ncMaster n)) s1 = (Inr m, s6)"
    and add: "ext (nl_LinkAdd c \<lparr>ivMTU = ncMTU n, ivName = tmp, ivParentIndex = lkIndex m, ivNamespace = caNetns args,
                ivMode = mode\<rparr>) s7 = (None, s8)"
    using link by blast
  have fields: "ncMaster n = LocalName (arInterface alloc)" "ncMTU n = ncMTU n0" by (simp_all add: n(1))
  show ?thesis
    by (intro exI conjI)
       (rule master [unfolded fields], rule add [unfolded fields], rule print [unfolded result n(2)])
qed

definition demo_alloc :: AllocationResult where
  "demo_alloc = \<lparr>arIP = V4 10 0 1 7, arInterface = demo_if1 [V4 10 0 1 7]\<rparr>"

definition demo_chained_cni :: "dw cni_api" where
  "demo_chained_cni =
     demo_cni\<lparr>cni_Convert := (\<lambda>js. Inr (ipam_result demo demo_alloc (V4 10 0 1 1) (V4 10 0 0 2) 24 []))\<rparr>"

definition demo_netconf :: NetConf where
  "demo_netconf = zero_NetConf\<lparr>ncCNIVersion := ''0.3.1'', ncMode := ''l2'', ncRawPrevResult := Some (JObj [])\<rparr>"

lemma demo_chained_conf:
  "caStdinData demo_ipvlan_args =
     Some (JObj [(''cniVersion'', JStr ''0.3.1''), (''prevResult'', JObj []), (''mode'', JStr ''l2'')])"
  "decode_struct NetConf_field
     (JObj [(''cniVersion'', JStr ''0.3.1''), (''prevResult'', JObj []), (''mode'', JStr ''l2'')]) zero_NetConf = Some demo_netconf"
  by (simp_all add: demo_ipvlan_args_def decode_struct_def NetConf_field_def zero_NetConf_def decode_string_def decode_raw_def
      eq_fold_def ascii_lower_def demo_netconf_def)

lemma demo_alloc_name: "LocalName (arInterface demo_alloc) = ''eth1''"
  by (simp add: demo_alloc_def demo_if1_def LocalName_def)

lemma demo_chained_facts:
  "ncMaster demo_netconf = []" "ncIPAMType demo_netconf = []" "ncRawPrevResult demo_netconf = Some (JObj [])"
  "cni_NewResult demo_chained_cni v js = Inr js"
  "cni_Convert demo_chained_cni js = Inr (ipam_result demo demo_alloc (V4 10 0 1 1) (V4 10 0 0 2) 24 [])"
  "LocalName (arInterface demo_alloc) \<noteq> []"
  by (simp_all add: demo_netconf_def zero_NetConf_def demo_chained_cni_def demo_cni_def demo_alloc_name)

lemma demo_chained_add: "ipvlan_cmdAdd demo demo_chained_cni demo_ipvlan_args demo_s = (None, demo_s)"
  by (simp add: ipvlan_cmdAdd_def demo_chained_conf(1) loadConf_chained [OF demo_chained_conf(2) demo_chained_facts(1, 3-6)])
     (simp add: createIpvlan_def rename_ipvlan_def base_result_def configure_result_def modeFromString_def demo_netconf_def
      zero_NetConf_def demo_chained_cni_def demo_cni_def demo_ipvlan_args_def demo_args_def demo_defs ext_def ipam_result_def)

theorem chain_ipam_ipvlan_witness:
  "\<exists>(m :: link) mac s1 s2 s5. ext (nl_LinkByName (nl demo) [] ''eth1'') s1 = (Inr m, s2) \<and>
     ext (cni_PrintResult demo_chained_cni
       \<lparr>rsInterfaces = [\<lparr>ciName = ''eth0'', ciMac = mac, ciSandbox = ''/proc/7/ns/net''\<rparr>],
        rsIPs = [\<lparr>icVersion = ''4'', icInterface = Some 0, icAddress = \<lparr>net_ip = V4 10 0 1 7, net_prefix = 24\<rparr>,
                  icGateway = Some (V4 10 0 1 1)\<rparr>],
        rsRoutes = [], rsDNS = zero_DNS\<rparr> ''0.3.1'') s5 = (None, demo_s)"
proof -
  have args: "caIfName demo_ipvlan_args = ''eth0''" "caNetns demo_ipvlan_args = ''/proc/7/ns/net''"
    "ncDNS demo_netconf = zero_DNS" "ncCNIVersion demo_netconf = ''0.3.1''" "arIP demo_alloc = V4 10 0 1 7"
    by (simp_all add: demo_ipvlan_args_def demo_args_def demo_netconf_def zero_NetConf_def demo_alloc_def)
  from chain_ipam_ipvlan [OF demo_chained_conf demo_chained_facts demo_chained_add] show ?thesis
    unfolding args demo_alloc_name by blast
qed

section \<open>The node\<close>




end
